(* ===== verification/Prelude.thy ===== *)
theory Prelude
  imports Main "HOL-Library.Word" "HOL-Library.Signed_Division"
begin

unbundle bit_operations_syntax

text \<open>
  Shared vocabulary of the development: the machine integer types of the Rust
  sources as words, Rust's \<open>?\<close> operator on a result type, and the generic
  lemmas on options, lists, words and bit lists that the component theories use.

  Conventions. An unsigned Rust integer of \<open>w\<close> bits is a \<open>w\<close>-bit word, so
  \<open>wrapping_add\<close> and its relatives are the word operations. A signed value is an
  \<open>int\<close> in its range; a cast to an unsigned type is \<open>word_of_int\<close>.
  \<open>Result<T, E>\<close> is the sum type, \<open>Inl\<close> being \<open>Err\<close> and \<open>Inr\<close>
  being \<open>Ok\<close>. A panic is an error value of the component's error type.
\<close>

section \<open>Types\<close>

type_synonym u8 = "8 word"
type_synonym u16 = "16 word"
type_synonym u32 = "32 word"
type_synonym u64 = "64 word"
type_synonym u128 = "128 word"

type_synonym ('e, 'a) result = "'e + 'a"

section \<open>Results\<close>

text \<open>Rust's \<open>?\<close>: an error returns at once, a value goes on.\<close>

definition rbind :: "('e, 'a) result \<Rightarrow> ('a \<Rightarrow> ('e, 'b) result) \<Rightarrow> ('e, 'b) result" where
  "rbind r f = (case r of Inl e \<Rightarrow> Inl e | Inr x \<Rightarrow> f x)"

lemma rbind_simps [simp]:
  "rbind (Inl e) f = Inl e"
  "rbind (Inr x) f = f x"
  by (simp_all add: rbind_def)

lemma rbind_eq_Inr: "rbind r f = Inr y \<longleftrightarrow> (\<exists>x. r = Inr x \<and> f x = Inr y)"
  by (cases r) auto

lemma rbind_InrE [elim!]:
  assumes "rbind r f = Inr y"
  obtains x where "r = Inr x" and "f x = Inr y"
  using assms by (auto simp: rbind_eq_Inr)

text \<open>\<open>Option::ok_or\<close> and \<open>Option::expect\<close>: a missing value is an error.\<close>

definition ok_or :: "'a option \<Rightarrow> 'e \<Rightarrow> ('e, 'a) result" where
  "ok_or x e = (case x of None \<Rightarrow> Inl e | Some v \<Rightarrow> Inr v)"

lemma ok_or_simps [simp]:
  "ok_or None e = Inl e"
  "ok_or (Some v) e = Inr v"
  by (simp_all add: ok_or_def)

section \<open>Words\<close>

lemma sint_push_bit_div:
  fixes v :: "'a::len word"
  assumes "0 < w" "w \<le> LENGTH('a)"
  shows "sint (push_bit (LENGTH('a) - w) v) div 2 ^ (LENGTH('a) - w) = signed_take_bit (w - 1) (uint v)"
proof -
  have "drop_bit (LENGTH('a) - w) (signed_take_bit (LENGTH('a) - 1) (push_bit (LENGTH('a) - w) (uint v)))
      = signed_take_bit (w - 1) (uint v)"
    using assms by (intro bit_eqI) (auto simp: bit_simps not_le min_def)
  moreover have "sint (push_bit (LENGTH('a) - w) v) =
      signed_take_bit (LENGTH('a) - 1) (push_bit (LENGTH('a) - w) (uint v))"
    by (rule bit_eqI) (auto simp: bit_simps min_def)
  ultimately show ?thesis by (simp add: drop_bit_eq_div)
qed

lemma xor_drop_bit_inj:
  fixes x y :: "'a::len word"
  assumes "0 < k" and "x XOR drop_bit k x = y XOR drop_bit k y"
  shows "x = y"
proof (rule bit_word_eqI)
  fix n assume "n < LENGTH('a)"
  then show "bit x n = bit y n"
  proof (induction "LENGTH('a) - n" arbitrary: n rule: less_induct)
    case less
    have "bit (x XOR drop_bit k x) n = bit (y XOR drop_bit k y) n" using assms(2) by simp
    then have *: "(bit x n \<noteq> bit x (k + n)) = (bit y n \<noteq> bit y (k + n))"
      by (simp add: bit_simps)
    show ?case
    proof (cases "k + n < LENGTH('a)")
      case True
      then have "bit x (k + n) = bit y (k + n)" using less assms(1) by auto
      with * show ?thesis by auto
    next
      case False
      then have "\<not> bit x (k + n)" "\<not> bit y (k + n)" by (auto dest: bit_imp_le_length)
      with * show ?thesis by auto
    qed
  qed
qed

lemma mult_odd_inj:
  fixes x y c d :: "'a::len word"
  assumes "c * d = 1" "x * c = y * c" shows "x = y"
proof -
  have "x * c * d = y * c * d" using assms by simp
  then show ?thesis using assms(1) by (simp add: mult.assoc)
qed

lemma ucast_take_bit_word: "ucast (take_bit n v) = take_bit n (ucast v)"
  by (rule bit_word_eqI) (auto simp: bit_simps dest: bit_imp_le_length)

end
