(* ===== verification/Smt_Expr.thy ===== *)
theory Smt_Expr
  imports Prelude "HOL-Library.List_Lexorder" "HOL-Library.Char_ord"
begin

text \<open>
  The expression language of \<open>trust-cg-verify/src/smt.rs\<close>: sorts, errors, the
  bit-vector, Boolean, array, uninterpreted-function and bounded-quantifier nodes of
  \<open>SmtExpr\<close>, the width and sort queries, and the builder functions. The
  floating-point nodes of the enum are not part of the model.

  Widths (\<open>u32\<close>) are \<open>nat\<close>. A panic of the source (an \<open>expect\<close> that
  fails, an arithmetic underflow) is the error \<open>SmtPanic\<close>; \<open>String\<close> payloads
  carry the constant part of the message.
\<close>

section \<open>Sorts, errors, expressions\<close>

datatype smt_error =
    UnsupportedType string
  | BoolHasNoWidth
  | InvalidArrayIndexSort
  | NotAnArraySort
  | UndefinedVariable string
  | EvalError string
  | SmtPanic string

datatype smt_sort =
    BitVec nat
  | SBool
  | SArray smt_sort smt_sort
  | FloatingPoint nat nat

datatype (plugins only: size code) smt_expr =
    Var string nat
  | BvConst u64 nat
  | BoolConst bool
  | BvAdd smt_expr smt_expr nat
  | BvSub smt_expr smt_expr nat
  | BvMul smt_expr smt_expr nat
  | BvSDiv smt_expr smt_expr nat
  | BvUDiv smt_expr smt_expr nat
  | BvURem smt_expr smt_expr nat
  | TrapIfZero smt_expr smt_expr nat  \<comment> \<open>guard, value, width\<close>
  | BvNeg smt_expr nat
  | SmtEq smt_expr smt_expr
  | SmtNot smt_expr
  | BvSlt smt_expr smt_expr nat
  | BvSge smt_expr smt_expr nat
  | BvUge smt_expr smt_expr nat
  | SmtAnd smt_expr smt_expr
  | SmtOr smt_expr smt_expr
  | BvSgt smt_expr smt_expr nat
  | BvSle smt_expr smt_expr nat
  | BvUlt smt_expr smt_expr nat
  | BvUgt smt_expr smt_expr nat
  | BvUle smt_expr smt_expr nat
  | Ite smt_expr smt_expr smt_expr
  | Extract nat nat smt_expr nat  \<comment> \<open>high, low, operand, width\<close>
  | BvAnd smt_expr smt_expr nat
  | BvOr smt_expr smt_expr nat
  | BvXor smt_expr smt_expr nat
  | BvShl smt_expr smt_expr nat
  | BvLshr smt_expr smt_expr nat
  | BvAshr smt_expr smt_expr nat
  | Concat smt_expr smt_expr nat  \<comment> \<open>hi, lo, width\<close>
  | ZeroExtend smt_expr nat nat  \<comment> \<open>operand, extra bits, width\<close>
  | SignExtend smt_expr nat nat
  | Select smt_expr smt_expr  \<comment> \<open>array, index\<close>
  | Store smt_expr smt_expr smt_expr  \<comment> \<open>array, index, value\<close>
  | ConstArray smt_sort smt_expr
  | MemLoad smt_expr nat bool nat  \<comment> \<open>address, load bits, signed, result width\<close>
  | UF string "smt_expr list" smt_sort
  | UFDecl string "smt_sort list" smt_sort
  | ForAll string nat smt_expr smt_expr smt_expr  \<comment> \<open>variable, its width, lower, upper, body\<close>
  | Exists string nat smt_expr smt_expr smt_expr

section \<open>Widths and sorts\<close>

definition bv_array :: "nat \<Rightarrow> nat \<Rightarrow> smt_sort" where
  "bv_array index_width element_width = SArray (BitVec index_width) (BitVec element_width)"

fun sort_bv_width :: "smt_sort \<Rightarrow> nat option" where
  "sort_bv_width (BitVec w) = Some w"
| "sort_bv_width _ = None"

text \<open>
  \<open>try_bv_width\<close> and \<open>sort\<close> call each other: the width of a \<open>Select\<close> is read
  off the sort of its array, and the sort of every bit-vector node is \<open>BitVec\<close> of
  its width, where a missing width is the panic of \<open>bv_width\<close>.
\<close>

definition expect_width :: "(smt_error, nat) result \<Rightarrow> (smt_error, nat) result" where
  "expect_width r = (case r of Inr w \<Rightarrow> Inr w
     | Inl _ \<Rightarrow> Inl (SmtPanic ''bv_width called on Bool-sorted expression''))"

lemma expect_width_simps [simp]:
  "expect_width (Inr w) = Inr w"
  "expect_width (Inl e) = Inl (SmtPanic ''bv_width called on Bool-sorted expression'')"
  by (simp_all add: expect_width_def)

function (sequential) try_bv_width :: "smt_expr \<Rightarrow> (smt_error, nat) result"
  and smt_sort_of :: "smt_expr \<Rightarrow> (smt_error, smt_sort) result" where
  "try_bv_width (Var n w) = Inr w"
| "try_bv_width (BvConst v w) = Inr w"
| "try_bv_width (BvAdd a b w) = Inr w"
| "try_bv_width (BvSub a b w) = Inr w"
| "try_bv_width (BvMul a b w) = Inr w"
| "try_bv_width (BvSDiv a b w) = Inr w"
| "try_bv_width (BvUDiv a b w) = Inr w"
| "try_bv_width (BvURem a b w) = Inr w"
| "try_bv_width (TrapIfZero g v w) = Inr w"
| "try_bv_width (BvNeg a w) = Inr w"
| "try_bv_width (Extract h l a w) = Inr w"
| "try_bv_width (BvAnd a b w) = Inr w"
| "try_bv_width (BvOr a b w) = Inr w"
| "try_bv_width (BvXor a b w) = Inr w"
| "try_bv_width (BvShl a b w) = Inr w"
| "try_bv_width (BvLshr a b w) = Inr w"
| "try_bv_width (BvAshr a b w) = Inr w"
| "try_bv_width (Concat a b w) = Inr w"
| "try_bv_width (ZeroExtend a x w) = Inr w"
| "try_bv_width (SignExtend a x w) = Inr w"
| "try_bv_width (Ite c t e) = try_bv_width t"
| "try_bv_width (Select a i) =
     rbind (smt_sort_of a) (\<lambda>s. case s of
         SArray _ es \<Rightarrow> ok_or (sort_bv_width es) BoolHasNoWidth
       | _ \<Rightarrow> Inl BoolHasNoWidth)"
| "try_bv_width (UF n as s) = ok_or (sort_bv_width s) BoolHasNoWidth"
| "try_bv_width (MemLoad a lb s rw) = Inr rw"
| "try_bv_width _ = Inl BoolHasNoWidth"
| "smt_sort_of (BoolConst b) = Inr SBool"
| "smt_sort_of (SmtEq a b) = Inr SBool"
| "smt_sort_of (SmtNot a) = Inr SBool"
| "smt_sort_of (BvSlt a b w) = Inr SBool"
| "smt_sort_of (BvSge a b w) = Inr SBool"
| "smt_sort_of (BvSgt a b w) = Inr SBool"
| "smt_sort_of (BvSle a b w) = Inr SBool"
| "smt_sort_of (BvUlt a b w) = Inr SBool"
| "smt_sort_of (BvUge a b w) = Inr SBool"
| "smt_sort_of (BvUgt a b w) = Inr SBool"
| "smt_sort_of (BvUle a b w) = Inr SBool"
| "smt_sort_of (SmtAnd a b) = Inr SBool"
| "smt_sort_of (SmtOr a b) = Inr SBool"
| "smt_sort_of (ForAll v w lo hi b) = Inr SBool"
| "smt_sort_of (Exists v w lo hi b) = Inr SBool"
| "smt_sort_of (Store a i v) = smt_sort_of a"
| "smt_sort_of (ConstArray s v) = rbind (smt_sort_of v) (\<lambda>es. Inr (SArray s es))"
| "smt_sort_of (Select a i) =
     rbind (smt_sort_of a) (\<lambda>s. case s of SArray _ es \<Rightarrow> Inr es | _ \<Rightarrow> Inr SBool)"
| "smt_sort_of (UF n as s) = Inr s"
| "smt_sort_of (UFDecl n as s) = Inr s"
| "smt_sort_of e = rbind (expect_width (try_bv_width e)) (\<lambda>w. Inr (BitVec w))"
  by pat_completeness auto
termination
  by (relation "measure (case_sum (\<lambda>e. 2 * size e) (\<lambda>e. 2 * size e + 1))") auto

definition bv_width :: "smt_expr \<Rightarrow> (smt_error, nat) result" where
  "bv_width e = expect_width (try_bv_width e)"

section \<open>Traversals\<close>

text \<open>\<open>collect_vars\<close> pushes the names in the order it meets them; \<open>free_vars\<close>
  sorts and removes duplicates.\<close>

primrec collect_vars :: "smt_expr \<Rightarrow> string list" where
  "collect_vars (Var n w) = [n]"
| "collect_vars (BvConst v w) = []"
| "collect_vars (BoolConst b) = []"
| "collect_vars (BvAdd a b w) = collect_vars a @ collect_vars b"
| "collect_vars (BvSub a b w) = collect_vars a @ collect_vars b"
| "collect_vars (BvMul a b w) = collect_vars a @ collect_vars b"
| "collect_vars (BvSDiv a b w) = collect_vars a @ collect_vars b"
| "collect_vars (BvUDiv a b w) = collect_vars a @ collect_vars b"
| "collect_vars (BvURem a b w) = collect_vars a @ collect_vars b"
| "collect_vars (TrapIfZero g v w) = collect_vars g @ collect_vars v"
| "collect_vars (BvNeg a w) = collect_vars a"
| "collect_vars (SmtEq a b) = collect_vars a @ collect_vars b"
| "collect_vars (SmtNot a) = collect_vars a"
| "collect_vars (BvSlt a b w) = collect_vars a @ collect_vars b"
| "collect_vars (BvSge a b w) = collect_vars a @ collect_vars b"
| "collect_vars (BvUge a b w) = collect_vars a @ collect_vars b"
| "collect_vars (SmtAnd a b) = collect_vars a @ collect_vars b"
| "collect_vars (SmtOr a b) = collect_vars a @ collect_vars b"
| "collect_vars (BvSgt a b w) = collect_vars a @ collect_vars b"
| "collect_vars (BvSle a b w) = collect_vars a @ collect_vars b"
| "collect_vars (BvUlt a b w) = collect_vars a @ collect_vars b"
| "collect_vars (BvUgt a b w) = collect_vars a @ collect_vars b"
| "collect_vars (BvUle a b w) = collect_vars a @ collect_vars b"
| "collect_vars (Ite c t e) = collect_vars c @ collect_vars t @ collect_vars e"
| "collect_vars (Extract h l a w) = collect_vars a"
| "collect_vars (BvAnd a b w) = collect_vars a @ collect_vars b"
| "collect_vars (BvOr a b w) = collect_vars a @ collect_vars b"
| "collect_vars (BvXor a b w) = collect_vars a @ collect_vars b"
| "collect_vars (BvShl a b w) = collect_vars a @ collect_vars b"
| "collect_vars (BvLshr a b w) = collect_vars a @ collect_vars b"
| "collect_vars (BvAshr a b w) = collect_vars a @ collect_vars b"
| "collect_vars (Concat a b w) = collect_vars a @ collect_vars b"
| "collect_vars (ZeroExtend a x w) = collect_vars a"
| "collect_vars (SignExtend a x w) = collect_vars a"
| "collect_vars (Select a i) = collect_vars a @ collect_vars i"
| "collect_vars (Store a i v) = collect_vars a @ collect_vars i @ collect_vars v"
| "collect_vars (ConstArray s v) = collect_vars v"
| "collect_vars (MemLoad a lb s rw) = collect_vars a"
| "collect_vars (UF n as s) = concat (map collect_vars as)"
| "collect_vars (UFDecl n as s) = []"
| "collect_vars (ForAll v vw lo hi b) = collect_vars lo @ collect_vars hi @ filter (\<lambda>x. x \<noteq> v) (collect_vars b)"
| "collect_vars (Exists v vw lo hi b) = collect_vars lo @ collect_vars hi @ filter (\<lambda>x. x \<noteq> v) (collect_vars b)"

definition free_vars :: "smt_expr \<Rightarrow> string list" where
  "free_vars e = remdups_adj (sort (collect_vars e))"

lemma set_free_vars [simp]: "set (free_vars e) = set (collect_vars e)"
  by (simp add: free_vars_def)

text \<open>The immediate sub-expressions, in the order \<open>for_each_child\<close> visits them.\<close>

primrec children :: "smt_expr \<Rightarrow> smt_expr list" where
  "children (Var n w) = []"
| "children (BvConst v w) = []"
| "children (BoolConst b) = []"
| "children (BvAdd a b w) = [a, b]"
| "children (BvSub a b w) = [a, b]"
| "children (BvMul a b w) = [a, b]"
| "children (BvSDiv a b w) = [a, b]"
| "children (BvUDiv a b w) = [a, b]"
| "children (BvURem a b w) = [a, b]"
| "children (TrapIfZero g v w) = [g, v]"
| "children (BvNeg a w) = [a]"
| "children (SmtEq a b) = [a, b]"
| "children (SmtNot a) = [a]"
| "children (BvSlt a b w) = [a, b]"
| "children (BvSge a b w) = [a, b]"
| "children (BvUge a b w) = [a, b]"
| "children (SmtAnd a b) = [a, b]"
| "children (SmtOr a b) = [a, b]"
| "children (BvSgt a b w) = [a, b]"
| "children (BvSle a b w) = [a, b]"
| "children (BvUlt a b w) = [a, b]"
| "children (BvUgt a b w) = [a, b]"
| "children (BvUle a b w) = [a, b]"
| "children (Ite c t e) = [c, t, e]"
| "children (Extract h l a w) = [a]"
| "children (BvAnd a b w) = [a, b]"
| "children (BvOr a b w) = [a, b]"
| "children (BvXor a b w) = [a, b]"
| "children (BvShl a b w) = [a, b]"
| "children (BvLshr a b w) = [a, b]"
| "children (BvAshr a b w) = [a, b]"
| "children (Concat a b w) = [a, b]"
| "children (ZeroExtend a x w) = [a]"
| "children (SignExtend a x w) = [a]"
| "children (Select a i) = [a, i]"
| "children (Store a i v) = [a, i, v]"
| "children (ConstArray s v) = [v]"
| "children (MemLoad a lb s rw) = [a]"
| "children (UF n as s) = as"
| "children (UFDecl n as s) = []"
| "children (ForAll v vw lo hi b) = [lo, hi, b]"
| "children (Exists v vw lo hi b) = [lo, hi, b]"

lemma children_size: "x \<in> set (children e) \<Longrightarrow> size x < size e"
proof (induction e)
  case (UF n as s)
  then show ?case by (auto dest: size_list_estimation'[where f = size, OF _ order_refl])
qed auto

text \<open>\<open>expr_contains_division\<close>: a division, remainder or trap node occurs.\<close>

fun is_division :: "smt_expr \<Rightarrow> bool" where
  "is_division (BvSDiv _ _ _) = True"
| "is_division (BvUDiv _ _ _) = True"
| "is_division (BvURem _ _ _) = True"
| "is_division (TrapIfZero _ _ _) = True"
| "is_division _ = False"

function expr_contains_division :: "smt_expr \<Rightarrow> bool" where
  "expr_contains_division e = (is_division e \<or> list_ex expr_contains_division (children e))"
  by pat_completeness auto
termination
  by (relation "measure size") (auto dest: children_size)

declare expr_contains_division.simps [simp del]

text \<open>\<open>validate_array_sort\<close>: reject an operand whose sort is known not to be an array.\<close>

definition validate_array_sort :: "smt_expr \<Rightarrow> (smt_error, unit) result" where
  "validate_array_sort e = (case e of
       ConstArray _ _ \<Rightarrow> Inr ()
     | Store _ _ _ \<Rightarrow> Inr ()
     | Var _ _ \<Rightarrow> Inr ()
     | Ite _ _ _ \<Rightarrow> Inr ()
     | Select _ _ \<Rightarrow> Inr ()
     | UF _ _ _ \<Rightarrow> Inr ()
     | _ \<Rightarrow> rbind (smt_sort_of e) (\<lambda>s. case s of
            SArray _ _ \<Rightarrow> Inr () | _ \<Rightarrow> Inl NotAnArraySort))"

section \<open>Builders\<close>

text \<open>\<open>mask\<close>: the low \<open>width\<close> bits of a \<open>u64\<close>.\<close>

definition mask64 :: "u64 \<Rightarrow> nat \<Rightarrow> u64" where
  "mask64 v w = (if 64 \<le> w then v else v AND (push_bit w 1 - 1))"

definition var :: "string \<Rightarrow> nat \<Rightarrow> smt_expr" where
  "var n w = Var n w"

definition bv_const :: "u64 \<Rightarrow> nat \<Rightarrow> smt_expr" where
  "bv_const v w = BvConst (mask64 v w) w"

definition bool_const :: "bool \<Rightarrow> smt_expr" where
  "bool_const b = BoolConst b"

text \<open>
  The builders of binary bit-vector nodes share one shape: the node's width is the width
  of the left operand, and a left operand without a width panics.
\<close>

definition with_width :: "smt_expr \<Rightarrow> (nat \<Rightarrow> smt_expr) \<Rightarrow> (smt_error, smt_expr) result" where
  "with_width a node = rbind (bv_width a) (\<lambda>w. Inr (node w))"

definition bvadd :: "smt_expr \<Rightarrow> smt_expr \<Rightarrow> (smt_error, smt_expr) result" where
  "bvadd a b = with_width a (BvAdd a b)"

definition bvsub :: "smt_expr \<Rightarrow> smt_expr \<Rightarrow> (smt_error, smt_expr) result" where
  "bvsub a b = with_width a (BvSub a b)"

definition bvmul :: "smt_expr \<Rightarrow> smt_expr \<Rightarrow> (smt_error, smt_expr) result" where
  "bvmul a b = with_width a (BvMul a b)"

definition bvsdiv :: "smt_expr \<Rightarrow> smt_expr \<Rightarrow> (smt_error, smt_expr) result" where
  "bvsdiv a b = with_width a (BvSDiv a b)"

definition bvudiv :: "smt_expr \<Rightarrow> smt_expr \<Rightarrow> (smt_error, smt_expr) result" where
  "bvudiv a b = with_width a (BvUDiv a b)"

definition bvurem :: "smt_expr \<Rightarrow> smt_expr \<Rightarrow> (smt_error, smt_expr) result" where
  "bvurem a b = with_width a (BvURem a b)"

definition trap_if_zero :: "smt_expr \<Rightarrow> smt_expr \<Rightarrow> (smt_error, smt_expr) result" where
  "trap_if_zero v guard = with_width v (TrapIfZero guard v)"

definition bvneg :: "smt_expr \<Rightarrow> (smt_error, smt_expr) result" where
  "bvneg a = with_width a (BvNeg a)"

definition eq_expr :: "smt_expr \<Rightarrow> smt_expr \<Rightarrow> smt_expr" where
  "eq_expr a b = SmtEq a b"

definition not_expr :: "smt_expr \<Rightarrow> smt_expr" where
  "not_expr a = SmtNot a"

definition and_expr :: "smt_expr \<Rightarrow> smt_expr \<Rightarrow> smt_expr" where
  "and_expr a b = SmtAnd a b"

definition or_expr :: "smt_expr \<Rightarrow> smt_expr \<Rightarrow> smt_expr" where
  "or_expr a b = SmtOr a b"

definition ite :: "smt_expr \<Rightarrow> smt_expr \<Rightarrow> smt_expr \<Rightarrow> smt_expr" where
  "ite c t e = Ite c t e"

definition bvslt :: "smt_expr \<Rightarrow> smt_expr \<Rightarrow> (smt_error, smt_expr) result" where
  "bvslt a b = with_width a (BvSlt a b)"

definition bvsge :: "smt_expr \<Rightarrow> smt_expr \<Rightarrow> (smt_error, smt_expr) result" where
  "bvsge a b = with_width a (BvSge a b)"

definition bvuge :: "smt_expr \<Rightarrow> smt_expr \<Rightarrow> (smt_error, smt_expr) result" where
  "bvuge a b = with_width a (BvUge a b)"

definition bvsgt :: "smt_expr \<Rightarrow> smt_expr \<Rightarrow> (smt_error, smt_expr) result" where
  "bvsgt a b = with_width a (BvSgt a b)"

definition bvsle :: "smt_expr \<Rightarrow> smt_expr \<Rightarrow> (smt_error, smt_expr) result" where
  "bvsle a b = with_width a (BvSle a b)"

definition bvult :: "smt_expr \<Rightarrow> smt_expr \<Rightarrow> (smt_error, smt_expr) result" where
  "bvult a b = with_width a (BvUlt a b)"

definition bvugt :: "smt_expr \<Rightarrow> smt_expr \<Rightarrow> (smt_error, smt_expr) result" where
  "bvugt a b = with_width a (BvUgt a b)"

definition bvule :: "smt_expr \<Rightarrow> smt_expr \<Rightarrow> (smt_error, smt_expr) result" where
  "bvule a b = with_width a (BvUle a b)"

definition bvand :: "smt_expr \<Rightarrow> smt_expr \<Rightarrow> (smt_error, smt_expr) result" where
  "bvand a b = with_width a (BvAnd a b)"

definition bvor :: "smt_expr \<Rightarrow> smt_expr \<Rightarrow> (smt_error, smt_expr) result" where
  "bvor a b = with_width a (BvOr a b)"

definition bvxor :: "smt_expr \<Rightarrow> smt_expr \<Rightarrow> (smt_error, smt_expr) result" where
  "bvxor a b = with_width a (BvXor a b)"

definition bvshl :: "smt_expr \<Rightarrow> smt_expr \<Rightarrow> (smt_error, smt_expr) result" where
  "bvshl a b = with_width a (BvShl a b)"

definition bvlshr :: "smt_expr \<Rightarrow> smt_expr \<Rightarrow> (smt_error, smt_expr) result" where
  "bvlshr a b = with_width a (BvLshr a b)"

definition bvashr :: "smt_expr \<Rightarrow> smt_expr \<Rightarrow> (smt_error, smt_expr) result" where
  "bvashr a b = with_width a (BvAshr a b)"

text \<open>\<open>high - low + 1\<close> underflows when \<open>high < low\<close>.\<close>

definition extract_expr :: "smt_expr \<Rightarrow> nat \<Rightarrow> nat \<Rightarrow> (smt_error, smt_expr) result" where
  "extract_expr a high low = (if high < low then Inl (SmtPanic ''attempt to subtract with overflow'')
     else Inr (Extract high low a (high - low + 1)))"

definition concat_expr :: "smt_expr \<Rightarrow> smt_expr \<Rightarrow> (smt_error, smt_expr) result" where
  "concat_expr hi lo = rbind (bv_width hi) (\<lambda>wh. rbind (bv_width lo) (\<lambda>wl.
     Inr (Concat hi lo (wh + wl))))"

definition zero_ext :: "smt_expr \<Rightarrow> nat \<Rightarrow> (smt_error, smt_expr) result" where
  "zero_ext a extra = rbind (bv_width a) (\<lambda>w. Inr (ZeroExtend a extra (w + extra)))"

definition sign_ext :: "smt_expr \<Rightarrow> nat \<Rightarrow> (smt_error, smt_expr) result" where
  "sign_ext a extra = rbind (bv_width a) (\<lambda>w. Inr (SignExtend a extra (w + extra)))"

definition try_select :: "smt_expr \<Rightarrow> smt_expr \<Rightarrow> (smt_error, smt_expr) result" where
  "try_select a i = rbind (validate_array_sort a) (\<lambda>_. Inr (Select a i))"

definition try_store :: "smt_expr \<Rightarrow> smt_expr \<Rightarrow> smt_expr \<Rightarrow> (smt_error, smt_expr) result" where
  "try_store a i v = rbind (validate_array_sort a) (\<lambda>_. Inr (Store a i v))"

definition try_const_array :: "smt_sort \<Rightarrow> smt_expr \<Rightarrow> (smt_error, smt_expr) result" where
  "try_const_array s v = (case s of BitVec _ \<Rightarrow> Inr (ConstArray s v)
     | _ \<Rightarrow> Inl InvalidArrayIndexSort)"

text \<open>The infallible array builders panic where their \<open>try_\<close> forms fail.\<close>

definition select_expr :: "smt_expr \<Rightarrow> smt_expr \<Rightarrow> (smt_error, smt_expr) result" where
  "select_expr a i = (case try_select a i of Inr e \<Rightarrow> Inr e
     | Inl _ \<Rightarrow> Inl (SmtPanic ''select: first argument must have Array sort''))"

definition store_expr :: "smt_expr \<Rightarrow> smt_expr \<Rightarrow> smt_expr \<Rightarrow> (smt_error, smt_expr) result" where
  "store_expr a i v = (case try_store a i v of Inr e \<Rightarrow> Inr e
     | Inl _ \<Rightarrow> Inl (SmtPanic ''store: first argument must have Array sort''))"

definition const_array :: "smt_sort \<Rightarrow> smt_expr \<Rightarrow> (smt_error, smt_expr) result" where
  "const_array s v = (case try_const_array s v of Inr e \<Rightarrow> Inr e
     | Inl _ \<Rightarrow> Inl (SmtPanic ''const_array: index_sort must be BitVec''))"

definition uf :: "string \<Rightarrow> smt_expr list \<Rightarrow> smt_sort \<Rightarrow> smt_expr" where
  "uf n as s = UF n as s"

definition uf_decl :: "string \<Rightarrow> smt_sort list \<Rightarrow> smt_sort \<Rightarrow> smt_expr" where
  "uf_decl n as s = UFDecl n as s"

definition forall_expr :: "string \<Rightarrow> nat \<Rightarrow> smt_expr \<Rightarrow> smt_expr \<Rightarrow> smt_expr \<Rightarrow> smt_expr" where
  "forall_expr v w lower upper body = ForAll v w lower upper body"

definition exists_expr :: "string \<Rightarrow> nat \<Rightarrow> smt_expr \<Rightarrow> smt_expr \<Rightarrow> smt_expr \<Rightarrow> smt_expr" where
  "exists_expr v w lower upper body = Exists v w lower upper body"

definition mem_load :: "smt_expr \<Rightarrow> nat \<Rightarrow> bool \<Rightarrow> nat \<Rightarrow> (smt_error, smt_expr) result" where
  "mem_load addr load_bits is_signed result_width =
     (if 0 < load_bits \<and> load_bits \<le> result_width
      then Inr (MemLoad addr load_bits is_signed result_width)
      else Inl (SmtPanic ''mem_load: load_bits must be in (0, result_width]''))"

lemmas builder_defs =
  bvadd_def bvsub_def bvmul_def bvsdiv_def bvudiv_def bvurem_def trap_if_zero_def bvneg_def
  eq_expr_def not_expr_def and_expr_def or_expr_def ite_def
  bvslt_def bvsge_def bvuge_def bvsgt_def bvsle_def bvult_def bvugt_def bvule_def
  bvand_def bvor_def bvxor_def bvshl_def bvlshr_def bvashr_def
  extract_expr_def concat_expr_def zero_ext_def sign_ext_def
  try_select_def try_store_def try_const_array_def mem_load_def select_expr_def store_expr_def
  const_array_def uf_def uf_decl_def forall_expr_def exists_expr_def bv_array_def
  var_def bv_const_def bool_const_def with_width_def

end
