(* ===== verification/Smt_Eval.thy ===== *)
theory Smt_Eval
  imports Smt_Expr "HOL-Library.Finite_Map"
begin

text \<open>
  The concrete evaluator of \<open>trust-cg-verify/src/smt.rs\<close>: \<open>EvalResult\<close> and its
  projections, the masking and sign-extension helpers, the variable environments
  \<open>EvalEnv\<close> (a vector scanned linearly) and \<open>HashMap\<close> behind the trait
  \<open>EnvOps\<close>, and \<open>SmtExpr::try_eval\<close>. The trait is the locale
  \<open>env_ops\<close>; both environments interpret it, and evaluation depends on an
  environment only through the map it denotes.
\<close>

section \<open>Values\<close>

text \<open>
  \<open>EvalResult\<close> without the variant \<open>Float\<close>, which only floating-point nodes
  produce. The entries of an array value are a finite map, so equality of array values is
  equality of the maps, as \<open>HashMap\<close>'s \<open>PartialEq\<close>.
\<close>

datatype eval_result =
    Bv u64
  | Bv128 u128
  | BoolV bool
  | ArrayV "(u64, eval_result) fmap" eval_result
  | Poison

definition b2u64 :: "bool \<Rightarrow> u64" where
  "b2u64 b = (if b then 1 else 0)"

definition b2u128 :: "bool \<Rightarrow> u128" where
  "b2u128 b = (if b then 1 else 0)"

fun as_u64 :: "eval_result \<Rightarrow> u64" where
  "as_u64 (Bv v) = v"
| "as_u64 (Bv128 v) = ucast v"
| "as_u64 (BoolV b) = b2u64 b"
| "as_u64 (ArrayV _ _) = 0"
| "as_u64 Poison = - 1"

fun as_u128 :: "eval_result \<Rightarrow> u128" where
  "as_u128 (Bv v) = ucast v"
| "as_u128 (Bv128 v) = v"
| "as_u128 (BoolV b) = b2u128 b"
| "as_u128 (ArrayV _ _) = 0"
| "as_u128 Poison = - 1"

fun as_bool :: "eval_result \<Rightarrow> bool" where
  "as_bool (BoolV b) = b"
| "as_bool (Bv v) = (v \<noteq> 0)"
| "as_bool (Bv128 v) = (v \<noteq> 0)"
| "as_bool (ArrayV _ _) = False"
| "as_bool Poison = False"

fun semantically_equal :: "eval_result \<Rightarrow> eval_result \<Rightarrow> bool" where
  "semantically_equal Poison _ = False"
| "semantically_equal _ Poison = False"
| "semantically_equal a b = (a = b)"

section \<open>Masks and extensions\<close>

definition mask128 :: "u128 \<Rightarrow> nat \<Rightarrow> u128" where
  "mask128 v w = (if 128 \<le> w then v else v AND (push_bit w 1 - 1))"

text \<open>The result of \<open>sign_extend\<close> is an \<open>i64\<close>, here the integer it stands for.\<close>

definition sign_extend :: "u64 \<Rightarrow> nat \<Rightarrow> int" where
  "sign_extend v w = (if w = 0 then 0
     else if 64 \<le> w then sint v
     else let shift = 64 - w in sint (push_bit shift v) div 2 ^ shift)"

definition sign_extend128 :: "u128 \<Rightarrow> nat \<Rightarrow> int" where
  "sign_extend128 v w = (if w = 0 then 0
     else if 128 \<le> w then sint v
     else let shift = 128 - w in sint (push_bit shift v) div 2 ^ shift)"

text \<open>The finalizer of splitmix64: the concrete memory contents read by \<open>MemLoad\<close>.\<close>

definition mem_load_mix :: "u64 \<Rightarrow> u64" where
  "mem_load_mix addr = (
     let z = addr + 0x9e3779b97f4a7c15;
         z = (z XOR drop_bit 30 z) * 0xbf58476d1ce4e5b9;
         z = (z XOR drop_bit 27 z) * 0x94d049bb133111eb
     in z XOR drop_bit 31 z)"

section \<open>Environments\<close>

text \<open>\<open>EvalEnv\<close>: a vector of bindings, scanned linearly.\<close>

record eval_env =
  vars :: "(string \<times> u64) list"

fun insert_vars :: "(string \<times> u64) list \<Rightarrow> string \<Rightarrow> u64 \<Rightarrow> (string \<times> u64) list \<times> u64 option" where
  "insert_vars [] key v = ([(key, v)], None)"
| "insert_vars ((name, slot) # rest) key v =
     (if name = key then ((name, v) # rest, Some slot)
      else let (rest', old) = insert_vars rest key v in ((name, slot) # rest', old))"

definition env_insert :: "eval_env \<Rightarrow> string \<Rightarrow> u64 \<Rightarrow> eval_env \<times> u64 option" where
  "env_insert env key v = (let (vs, old) = insert_vars (vars env) key v in (env\<lparr>vars := vs\<rparr>, old))"

definition env_get :: "eval_env \<Rightarrow> string \<Rightarrow> u64 option" where
  "env_get env key = map_option snd (find (\<lambda>(name, _). name = key) (vars env))"

definition contains_key :: "eval_env \<Rightarrow> string \<Rightarrow> bool" where
  "contains_key env key = list_ex (\<lambda>(name, _). name = key) (vars env)"

text \<open>Indexing past the end panics: \<open>None\<close>.\<close>

definition value_at :: "eval_env \<Rightarrow> nat \<Rightarrow> u64 option" where
  "value_at env slot = (if slot < length (vars env) then Some (snd (vars env ! slot)) else None)"

definition set_at :: "eval_env \<Rightarrow> nat \<Rightarrow> u64 \<Rightarrow> eval_env option" where
  "set_at env slot v = (if slot < length (vars env)
     then Some (env\<lparr>vars := (vars env)[slot := (fst (vars env ! slot), v)]\<rparr>) else None)"

text \<open>\<open>EnvOps\<close> for \<open>EvalEnv\<close> and for \<open>HashMap<String, u64>\<close>, a map.\<close>

definition vec_get_var :: "eval_env \<Rightarrow> string \<Rightarrow> u64 option" where
  "vec_get_var env name = env_get env name"

definition vec_set_var :: "eval_env \<Rightarrow> string \<Rightarrow> u64 \<Rightarrow> eval_env" where
  "vec_set_var env name v = fst (env_insert env name v)"

type_synonym hash_env = "string \<rightharpoonup> u64"

definition map_get_var :: "hash_env \<Rightarrow> string \<Rightarrow> u64 option" where
  "map_get_var m name = m name"

definition map_set_var :: "hash_env \<Rightarrow> string \<Rightarrow> u64 \<Rightarrow> hash_env" where
  "map_set_var m name v = m(name \<mapsto> v)"

section \<open>The operations of \<open>try_eval\<close>\<close>

text \<open>
  One definition per shape of a match arm. Wide nodes (more than 64 bits) compute in
  \<open>u128\<close> and give \<open>Bv128\<close>; the others compute in \<open>u64\<close>.
\<close>

definition bv_op :: "(u64 \<Rightarrow> u64 \<Rightarrow> u64) \<Rightarrow> (u128 \<Rightarrow> u128 \<Rightarrow> u128) \<Rightarrow> nat \<Rightarrow>
    eval_result \<Rightarrow> eval_result \<Rightarrow> (smt_error, eval_result) result" where
  "bv_op f g w x y = Inr (if 64 < w then Bv128 (mask128 (g (as_u128 x) (as_u128 y)) w)
     else Bv (mask64 (f (as_u64 x) (as_u64 y)) w))"

definition sdiv_op :: "nat \<Rightarrow> eval_result \<Rightarrow> eval_result \<Rightarrow> (smt_error, eval_result) result" where
  "sdiv_op w x y = Inr (if 64 < w then
       let a = sign_extend128 (as_u128 x) w; b = sign_extend128 (as_u128 y) w in
       if b = 0 then Bv128 0
       else if a = - (2 ^ 127) \<and> b = - 1 \<and> 128 \<le> w then Bv128 (mask128 (word_of_int a) w)
       else Bv128 (mask128 (word_of_int (a sdiv b)) w)
     else
       let a = sign_extend (as_u64 x) w; b = sign_extend (as_u64 y) w in
       if b = 0 then Bv 0
       else if a = - (2 ^ 63) \<and> b = - 1 \<and> w = 64 then Bv (mask64 (word_of_int a) w)
       else Bv (mask64 (word_of_int (a sdiv b)) w))"

definition udiv_op :: "nat \<Rightarrow> eval_result \<Rightarrow> eval_result \<Rightarrow> (smt_error, eval_result) result" where
  "udiv_op w x y = Inr (if 64 < w then
       let a = as_u128 x; b = as_u128 y in
       Bv128 (if b = 0 then 0 else mask128 (a div b) w)
     else
       let a = as_u64 x; b = as_u64 y in
       Bv (if b = 0 then 0 else mask64 (a div b) w))"

definition urem_op :: "nat \<Rightarrow> eval_result \<Rightarrow> eval_result \<Rightarrow> (smt_error, eval_result) result" where
  "urem_op w x y = (let a = as_u64 x; b = as_u64 y in
     Inr (if b = 0 then Bv (mask64 a w) else Bv (mask64 (a mod b) w)))"

text \<open>
  Shifts. In the wide arm the amount is only known to be below \<open>width\<close>, so a node of
  more than 128 bits can reach a shift of a \<open>u128\<close> by 128 or more, which panics.
\<close>

definition shl_overflow :: smt_error where
  "shl_overflow = SmtPanic ''attempt to shift left with overflow''"

definition shr_overflow :: smt_error where
  "shr_overflow = SmtPanic ''attempt to shift right with overflow''"

definition shl_op :: "nat \<Rightarrow> eval_result \<Rightarrow> eval_result \<Rightarrow> (smt_error, eval_result) result" where
  "shl_op w x y = (if 64 < w then
       let a = as_u128 x; b = as_u128 y in
       if w \<le> unat b then Inr (Bv128 0)
       else if 128 \<le> unat b then Inl shl_overflow
       else Inr (Bv128 (mask128 (push_bit (unat b) a) w))
     else
       let a = as_u64 x; b = as_u64 y in
       if w \<le> unat b then Inr (Bv 0)
       else Inr (Bv (mask64 (push_bit (unat b) a) w)))"

definition lshr_op :: "nat \<Rightarrow> eval_result \<Rightarrow> eval_result \<Rightarrow> (smt_error, eval_result) result" where
  "lshr_op w x y = (if 64 < w then
       let a = as_u128 x; b = as_u128 y in
       if w \<le> unat b then Inr (Bv128 0)
       else if 128 \<le> unat b then Inl shr_overflow
       else Inr (Bv128 (mask128 (drop_bit (unat b) a) w))
     else
       let a = as_u64 x; b = as_u64 y in
       if w \<le> unat b then Inr (Bv 0)
       else Inr (Bv (mask64 (drop_bit (unat b) a) w)))"

definition ashr_op :: "nat \<Rightarrow> eval_result \<Rightarrow> eval_result \<Rightarrow> (smt_error, eval_result) result" where
  "ashr_op w x y = (if 64 < w then
       let a = sign_extend128 (as_u128 x) w; b = as_u128 y in
       if w \<le> unat b then Inr (Bv128 (if a < 0 then mask128 (- 1) w else 0))
       else if 128 \<le> unat b then Inl shr_overflow
       else Inr (Bv128 (mask128 (word_of_int (a div 2 ^ unat b)) w))
     else
       let a = sign_extend (as_u64 x) w; b = as_u64 y in
       if w \<le> unat b then Inr (Bv (if a < 0 then mask64 (- 1) w else 0))
       else Inr (Bv (mask64 (word_of_int (a div 2 ^ unat b)) w)))"

definition neg_op :: "nat \<Rightarrow> eval_result \<Rightarrow> (smt_error, eval_result) result" where
  "neg_op w x = Inr (if 64 < w then Bv128 (mask128 (NOT (as_u128 x) + 1) w)
     else Bv (mask64 (NOT (as_u64 x) + 1) w))"

definition scmp_op :: "(int \<Rightarrow> int \<Rightarrow> bool) \<Rightarrow> nat \<Rightarrow> eval_result \<Rightarrow> eval_result \<Rightarrow>
    (smt_error, eval_result) result" where
  "scmp_op r w x y = Inr (BoolV (r (sign_extend (as_u64 x) w) (sign_extend (as_u64 y) w)))"

definition ucmp_op :: "(u64 \<Rightarrow> u64 \<Rightarrow> bool) \<Rightarrow> eval_result \<Rightarrow> eval_result \<Rightarrow>
    (smt_error, eval_result) result" where
  "ucmp_op r x y = Inr (BoolV (r (as_u64 x) (as_u64 y)))"

definition extract_op :: "nat \<Rightarrow> nat \<Rightarrow> eval_result \<Rightarrow> (smt_error, eval_result) result" where
  "extract_op low w x = (let v = as_u128 x in
     if 128 \<le> low then Inl shr_overflow
     else Inr (Bv (ucast (drop_bit low v AND mask128 (- 1) w))))"

definition concat_op :: "nat \<Rightarrow> nat \<Rightarrow> eval_result \<Rightarrow> eval_result \<Rightarrow>
    (smt_error, eval_result) result" where
  "concat_op lo_width w x y =
     (if 128 \<le> lo_width then Inl shl_overflow
      else let r = mask128 (push_bit lo_width (as_u128 x) OR as_u128 y) w in
        Inr (if w \<le> 64 then Bv (ucast r) else Bv128 r))"

definition zext_op :: "nat \<Rightarrow> eval_result \<Rightarrow> (smt_error, eval_result) result" where
  "zext_op w x = (let v = as_u128 x in
     Inr (if 64 < w then Bv128 (mask128 v w) else Bv (mask64 (ucast v) w)))"

definition sext_op :: "nat \<Rightarrow> nat \<Rightarrow> eval_result \<Rightarrow> (smt_error, eval_result) result" where
  "sext_op src_width w x = Inr (if 64 < w
     then Bv128 (mask128 (word_of_int (sign_extend128 (as_u128 x) src_width)) w)
     else Bv (mask64 (word_of_int (sign_extend (as_u64 x) src_width)) w))"

definition select_op :: "eval_result \<Rightarrow> eval_result \<Rightarrow> (smt_error, eval_result) result" where
  "select_op arr i = (case arr of
       ArrayV entries dflt \<Rightarrow> Inr (case fmlookup entries (as_u64 i) of Some v \<Rightarrow> v | None \<Rightarrow> dflt)
     | _ \<Rightarrow> Inl (EvalError ''select on non-array value''))"

definition store_op :: "eval_result \<Rightarrow> eval_result \<Rightarrow> eval_result \<Rightarrow> (smt_error, eval_result) result" where
  "store_op arr i v = (case arr of
       ArrayV entries dflt \<Rightarrow> Inr (ArrayV (fmupd (as_u64 i) v entries) dflt)
     | _ \<Rightarrow> Inl (EvalError ''store on non-array value''))"

definition mem_load_op :: "nat \<Rightarrow> bool \<Rightarrow> nat \<Rightarrow> eval_result \<Rightarrow> (smt_error, eval_result) result" where
  "mem_load_op load_bits is_signed result_width x =
     (let raw = mask64 (mem_load_mix (as_u64 x)) load_bits in
      Inr (Bv (if is_signed then mask64 (word_of_int (sign_extend raw load_bits)) result_width
               else mask64 raw result_width)))"

text \<open>
  The unrolled body of a bounded quantifier: \<open>for i in lo..hi\<close>, leaving the loop with
  \<open>stop\<close> as soon as the body is \<open>stop\<close> (\<open>false\<close> for \<open>ForAll\<close>,
  \<open>true\<close> for \<open>Exists\<close>). \<open>n\<close> counts the iterations left.
\<close>

fun quant_loop :: "bool \<Rightarrow> ('e \<Rightarrow> u64 \<Rightarrow> 'e) \<Rightarrow> nat \<Rightarrow> ('e \<Rightarrow> (smt_error, eval_result) result) \<Rightarrow>
    nat \<Rightarrow> u64 \<Rightarrow> 'e \<Rightarrow> (smt_error, eval_result) result" where
  "quant_loop stop bind_var vw body 0 i env = Inr (BoolV (\<not> stop))"
| "quant_loop stop bind_var vw body (Suc n) i env =
     (let env' = bind_var env (mask64 i vw) in
      rbind (body env') (\<lambda>r. if as_bool r = stop then Inr (BoolV stop)
        else quant_loop stop bind_var vw body n (i + 1) env'))"

definition quant_op :: "bool \<Rightarrow> ('e \<Rightarrow> u64 \<Rightarrow> 'e) \<Rightarrow> nat \<Rightarrow> ('e \<Rightarrow> (smt_error, eval_result) result) \<Rightarrow>
    'e \<Rightarrow> eval_result \<Rightarrow> eval_result \<Rightarrow> (smt_error, eval_result) result" where
  "quant_op stop bind_var vw body env l h = (let lo = as_u64 l; hi = as_u64 h in
     if hi \<le> lo then Inr (BoolV (\<not> stop))
     else if 256 < hi - lo then Inl (EvalError ''range too large for unrolling (max 256)'')
     else quant_loop stop bind_var vw body (unat (hi - lo)) lo env)"

section \<open>\<open>try_eval\<close>\<close>

text \<open>
  The evaluator is generic in the environment, as the source is: \<open>gv\<close> and \<open>sv\<close>
  are the two methods of \<open>EnvOps\<close>. \<open>then2\<close> evaluates two operands from
  left to right, the first error returning.
\<close>

abbreviation then2 :: "(smt_error, eval_result) result \<Rightarrow> (smt_error, eval_result) result \<Rightarrow>
    (eval_result \<Rightarrow> eval_result \<Rightarrow> (smt_error, eval_result) result) \<Rightarrow> (smt_error, eval_result) result" where
  "then2 a b f \<equiv> rbind a (\<lambda>x. rbind b (\<lambda>y. f x y))"

primrec try_eval :: "('e \<Rightarrow> string \<Rightarrow> u64 option) \<Rightarrow> ('e \<Rightarrow> string \<Rightarrow> u64 \<Rightarrow> 'e) \<Rightarrow>
    smt_expr \<Rightarrow> 'e \<Rightarrow> (smt_error, eval_result) result" where
  "try_eval gv sv (Var n w) env =
     rbind (ok_or (gv env n) (UndefinedVariable n)) (\<lambda>v. Inr (Bv (mask64 v w)))"
| "try_eval gv sv (BvConst v w) env =
     Inr (if 64 < w then Bv128 (ucast v) else Bv (mask64 v w))"
| "try_eval gv sv (BoolConst b) env =
     Inr (BoolV b)"
| "try_eval gv sv (BvAdd a b w) env =
     then2 (try_eval gv sv a env) (try_eval gv sv b env) (bv_op (+) (+) w)"
| "try_eval gv sv (BvSub a b w) env =
     then2 (try_eval gv sv a env) (try_eval gv sv b env) (bv_op (-) (-) w)"
| "try_eval gv sv (BvMul a b w) env =
     then2 (try_eval gv sv a env) (try_eval gv sv b env) (bv_op (*) (*) w)"
| "try_eval gv sv (BvSDiv a b w) env =
     then2 (try_eval gv sv a env) (try_eval gv sv b env) (sdiv_op w)"
| "try_eval gv sv (BvUDiv a b w) env =
     then2 (try_eval gv sv a env) (try_eval gv sv b env) (udiv_op w)"
| "try_eval gv sv (BvURem a b w) env =
     then2 (try_eval gv sv a env) (try_eval gv sv b env) (urem_op w)"
| "try_eval gv sv (TrapIfZero g v w) env =
     rbind (try_eval gv sv g env) (\<lambda>x.
       if x = Poison \<or> as_u128 x = 0 then Inr Poison else try_eval gv sv v env)"
| "try_eval gv sv (BvNeg a w) env =
     rbind (try_eval gv sv a env) (neg_op w)"
| "try_eval gv sv (SmtEq a b) env =
     then2 (try_eval gv sv a env) (try_eval gv sv b env) (\<lambda>x y. Inr (BoolV (x = y)))"
| "try_eval gv sv (SmtNot a) env =
     rbind (try_eval gv sv a env) (\<lambda>x. Inr (BoolV (\<not> as_bool x)))"
| "try_eval gv sv (BvSlt a b w) env =
     then2 (try_eval gv sv a env) (try_eval gv sv b env) (scmp_op (<) w)"
| "try_eval gv sv (BvSge a b w) env =
     then2 (try_eval gv sv a env) (try_eval gv sv b env) (scmp_op (\<ge>) w)"
| "try_eval gv sv (BvUge a b w) env =
     then2 (try_eval gv sv a env) (try_eval gv sv b env) (ucmp_op (\<ge>))"
| "try_eval gv sv (SmtAnd a b) env =
     rbind (try_eval gv sv a env) (\<lambda>x. if as_bool x
       then rbind (try_eval gv sv b env) (\<lambda>y. Inr (BoolV (as_bool y)))
       else Inr (BoolV False))"
| "try_eval gv sv (SmtOr a b) env =
     rbind (try_eval gv sv a env) (\<lambda>x. if as_bool x then Inr (BoolV True)
       else rbind (try_eval gv sv b env) (\<lambda>y. Inr (BoolV (as_bool y))))"
| "try_eval gv sv (BvSgt a b w) env =
     then2 (try_eval gv sv a env) (try_eval gv sv b env) (scmp_op (>) w)"
| "try_eval gv sv (BvSle a b w) env =
     then2 (try_eval gv sv a env) (try_eval gv sv b env) (scmp_op (\<le>) w)"
| "try_eval gv sv (BvUlt a b w) env =
     then2 (try_eval gv sv a env) (try_eval gv sv b env) (ucmp_op (<))"
| "try_eval gv sv (BvUgt a b w) env =
     then2 (try_eval gv sv a env) (try_eval gv sv b env) (ucmp_op (>))"
| "try_eval gv sv (BvUle a b w) env =
     then2 (try_eval gv sv a env) (try_eval gv sv b env) (ucmp_op (\<le>))"
| "try_eval gv sv (Ite c t e) env =
     rbind (try_eval gv sv c env) (\<lambda>x. if as_bool x
       then try_eval gv sv t env else try_eval gv sv e env)"
| "try_eval gv sv (Extract h l a w) env =
     rbind (try_eval gv sv a env) (extract_op l w)"
| "try_eval gv sv (BvAnd a b w) env =
     then2 (try_eval gv sv a env) (try_eval gv sv b env) (bv_op (AND) (AND) w)"
| "try_eval gv sv (BvOr a b w) env =
     then2 (try_eval gv sv a env) (try_eval gv sv b env) (bv_op (OR) (OR) w)"
| "try_eval gv sv (BvXor a b w) env =
     then2 (try_eval gv sv a env) (try_eval gv sv b env) (bv_op (XOR) (XOR) w)"
| "try_eval gv sv (BvShl a b w) env =
     then2 (try_eval gv sv a env) (try_eval gv sv b env) (shl_op w)"
| "try_eval gv sv (BvLshr a b w) env =
     then2 (try_eval gv sv a env) (try_eval gv sv b env) (lshr_op w)"
| "try_eval gv sv (BvAshr a b w) env =
     then2 (try_eval gv sv a env) (try_eval gv sv b env) (ashr_op w)"
| "try_eval gv sv (Concat a b w) env =
     then2 (try_eval gv sv a env) (try_eval gv sv b env) (\<lambda>x y.
       rbind (bv_width b) (\<lambda>lw. concat_op lw w x y))"
| "try_eval gv sv (ZeroExtend a x w) env =
     rbind (try_eval gv sv a env) (zext_op w)"
| "try_eval gv sv (SignExtend a x w) env =
     (if w < x then Inl (SmtPanic ''attempt to subtract with overflow'')
      else rbind (try_eval gv sv a env) (sext_op (w - x) w))"
| "try_eval gv sv (Select a i) env =
     then2 (try_eval gv sv a env) (try_eval gv sv i env) select_op"
| "try_eval gv sv (Store a i v) env =
     then2 (try_eval gv sv a env) (try_eval gv sv i env) (\<lambda>x y.
       rbind (try_eval gv sv v env) (store_op x y))"
| "try_eval gv sv (ConstArray s v) env =
     rbind (try_eval gv sv v env) (\<lambda>x. Inr (ArrayV fmempty x))"
| "try_eval gv sv (MemLoad a lb s rw) env =
     rbind (try_eval gv sv a env) (mem_load_op lb s rw)"
| "try_eval gv sv (UF n as s) env =
     Inl (EvalError ''cannot concretely evaluate uninterpreted function'')"
| "try_eval gv sv (UFDecl n as s) env =
     Inl (EvalError ''cannot evaluate UF declaration'')"
| "try_eval gv sv (ForAll v vw lo hi b) env =
     then2 (try_eval gv sv lo env) (try_eval gv sv hi env)
       (quant_op False (\<lambda>e x. sv e v x) vw (\<lambda>e. try_eval gv sv b e) env)"
| "try_eval gv sv (Exists v vw lo hi b) env =
     then2 (try_eval gv sv lo env) (try_eval gv sv hi env)
       (quant_op True (\<lambda>e x. sv e v x) vw (\<lambda>e. try_eval gv sv b e) env)"

section \<open>Sorts of values\<close>

definition range_error :: smt_error where
  "range_error = EvalError ''range too large for unrolling (max 256)''"

text \<open>
  \<open>val_sort s v\<close>: the value \<open>v\<close> has sort \<open>s\<close>. A bit-vector of at most 64
  bits is a masked \<open>Bv\<close>, a wider one a masked \<open>Bv128\<close>, and a trap is possible at
  every bit-vector sort.
\<close>

fun val_sort :: "smt_sort \<Rightarrow> eval_result \<Rightarrow> bool" where
  "val_sort (BitVec w) r = (case r of
       Bv v \<Rightarrow> w \<le> 64 \<and> take_bit w v = v
     | Bv128 v \<Rightarrow> 64 < w \<and> w \<le> 128 \<and> take_bit w v = v
     | Poison \<Rightarrow> True
     | _ \<Rightarrow> False)"
| "val_sort SBool r = (case r of BoolV _ \<Rightarrow> True | _ \<Rightarrow> False)"
| "val_sort (SArray _ s) r = (case r of
       ArrayV entries dflt \<Rightarrow> fmpred (\<lambda>_. val_sort s) entries \<and> val_sort s dflt
     | _ \<Rightarrow> False)"
| "val_sort (FloatingPoint _ _) r = False"

definition res_sort :: "smt_sort \<Rightarrow> (smt_error, eval_result) result \<Rightarrow> bool" where
  "res_sort s r = (case r of Inr v \<Rightarrow> val_sort s v | Inl err \<Rightarrow> err = range_error)"

text \<open>
  \<open>well_sorted e s\<close>: the operands of every node of \<open>e\<close> have the sorts and widths
  the node's arm of \<open>try_eval\<close> relies on.
\<close>

inductive well_sorted :: "smt_expr \<Rightarrow> smt_sort \<Rightarrow> bool" where
  ws_Var: "w \<le> 64 \<Longrightarrow> well_sorted (Var n w) (BitVec w)"
| ws_BvConst: "w \<le> 128 \<Longrightarrow> well_sorted (BvConst v w) (BitVec w)"
| ws_BoolConst: "well_sorted (BoolConst b) SBool"
| ws_bin: "\<lbrakk>c \<in> {BvAdd, BvSub, BvMul, BvSDiv, BvUDiv, BvAnd, BvOr, BvXor, BvShl, BvLshr, BvAshr};
     w \<le> 128; well_sorted a (BitVec w); well_sorted b (BitVec w)\<rbrakk> \<Longrightarrow> well_sorted (c a b w) (BitVec w)"
| ws_BvURem: "\<lbrakk>w \<le> 64; well_sorted a (BitVec w); well_sorted b (BitVec w)\<rbrakk>
     \<Longrightarrow> well_sorted (BvURem a b w) (BitVec w)"
| ws_TrapIfZero: "\<lbrakk>well_sorted g (BitVec n); well_sorted v (BitVec w)\<rbrakk>
     \<Longrightarrow> well_sorted (TrapIfZero g v w) (BitVec w)"
| ws_BvNeg: "\<lbrakk>w \<le> 128; well_sorted a (BitVec w)\<rbrakk> \<Longrightarrow> well_sorted (BvNeg a w) (BitVec w)"
| ws_SmtEq: "\<lbrakk>well_sorted a s; well_sorted b s\<rbrakk> \<Longrightarrow> well_sorted (SmtEq a b) SBool"
| ws_SmtNot: "well_sorted a SBool \<Longrightarrow> well_sorted (SmtNot a) SBool"
| ws_cmp: "\<lbrakk>c \<in> {BvSlt, BvSge, BvSgt, BvSle, BvUlt, BvUge, BvUgt, BvUle}; w \<le> 64;
     well_sorted a (BitVec w); well_sorted b (BitVec w)\<rbrakk> \<Longrightarrow> well_sorted (c a b w) SBool"
| ws_logic: "\<lbrakk>c \<in> {SmtAnd, SmtOr}; well_sorted a SBool; well_sorted b SBool\<rbrakk>
     \<Longrightarrow> well_sorted (c a b) SBool"
| ws_Ite: "\<lbrakk>well_sorted c SBool; well_sorted t s; well_sorted e s\<rbrakk> \<Longrightarrow> well_sorted (Ite c t e) s"
| ws_Extract: "\<lbrakk>well_sorted a (BitVec n); l \<le> h; h < n; n \<le> 128; w = h - l + 1; w \<le> 64\<rbrakk>
     \<Longrightarrow> well_sorted (Extract h l a w) (BitVec w)"
| ws_Concat: "\<lbrakk>well_sorted a (BitVec m); well_sorted b (BitVec n); bv_width b = Inr n;
     w = m + n; n < 128; w \<le> 128\<rbrakk> \<Longrightarrow> well_sorted (Concat a b w) (BitVec w)"
| ws_ZeroExtend: "\<lbrakk>well_sorted a (BitVec n); w = n + x; w \<le> 128\<rbrakk>
     \<Longrightarrow> well_sorted (ZeroExtend a x w) (BitVec w)"
| ws_SignExtend: "\<lbrakk>well_sorted a (BitVec n); w = n + x; w \<le> 128\<rbrakk>
     \<Longrightarrow> well_sorted (SignExtend a x w) (BitVec w)"
| ws_ConstArray: "well_sorted v s \<Longrightarrow> well_sorted (ConstArray (BitVec n) v) (SArray (BitVec n) s)"
| ws_Select: "\<lbrakk>well_sorted a (SArray (BitVec n) s); well_sorted i (BitVec n); n \<le> 64\<rbrakk>
     \<Longrightarrow> well_sorted (Select a i) s"
| ws_Store: "\<lbrakk>well_sorted a (SArray (BitVec n) s); well_sorted i (BitVec n); n \<le> 64; well_sorted v s\<rbrakk>
     \<Longrightarrow> well_sorted (Store a i v) (SArray (BitVec n) s)"
| ws_MemLoad: "\<lbrakk>well_sorted a (BitVec n); n \<le> 64; 0 < lb; lb \<le> rw; rw \<le> 64\<rbrakk>
     \<Longrightarrow> well_sorted (MemLoad a lb sg rw) (BitVec rw)"
| ws_quant: "\<lbrakk>c \<in> {ForAll, Exists}; well_sorted lo (BitVec n); well_sorted hi (BitVec n); n \<le> 64;
     well_sorted b SBool\<rbrakk> \<Longrightarrow> well_sorted (c v vw lo hi b) SBool"

section \<open>Masks, extensions, memory contents\<close>

lemma mask64_take_bit: "mask64 v w = take_bit w v"
  by (cases "64 \<le> w") (simp add: mask64_def take_bit_word_eq_self,
    simp add: mask64_def take_bit_eq_mask mask_eq_exp_minus_1)

lemma mask128_take_bit: "mask128 v w = take_bit w v"
  by (cases "128 \<le> w") (simp add: mask128_def take_bit_word_eq_self,
    simp add: mask128_def take_bit_eq_mask mask_eq_exp_minus_1)

lemma sign_extend_eq: "0 < w \<Longrightarrow> sign_extend v w = signed_take_bit (min w 64 - 1) (uint v)"
  using sint_push_bit_div[of w v] by (auto simp: sign_extend_def Let_def sint_uint min_def)

lemma sign_extend128_eq: "0 < w \<Longrightarrow> sign_extend128 v w = signed_take_bit (min w 128 - 1) (uint v)"
  using sint_push_bit_div[of w v] by (auto simp: sign_extend128_def Let_def sint_uint min_def)

lemma mix_inverses:
  "(0xbf58476d1ce4e5b9 :: u64) * 0x96de1b173f119089 = 1"
  "(0x94d049bb133111eb :: u64) * 0x319642b2d24d8ec3 = 1"
  by simp_all

lemma mem_load_mix_inj: "mem_load_mix a = mem_load_mix b \<Longrightarrow> a = b"
proof -
  define f where "f = (\<lambda>z::u64. (z XOR drop_bit 30 z) * 0xbf58476d1ce4e5b9)"
  define g where "g = (\<lambda>z::u64. (z XOR drop_bit 27 z) * 0x94d049bb133111eb)"
  have f_inj: "f x = f y \<Longrightarrow> x = y" for x y
    unfolding f_def
    by (rule xor_drop_bit_inj[where k = 30], simp, rule mult_odd_inj[OF mix_inverses(1)])
  have g_inj: "g x = g y \<Longrightarrow> x = y" for x y
    unfolding g_def
    by (rule xor_drop_bit_inj[where k = 27], simp, rule mult_odd_inj[OF mix_inverses(2)])
  assume "mem_load_mix a = mem_load_mix b"
  then have "g (f (a + 0x9e3779b97f4a7c15)) = g (f (b + 0x9e3779b97f4a7c15))"
    unfolding mem_load_mix_def Let_def f_def g_def by (rule xor_drop_bit_inj[rotated]) simp
  then have "f (a + 0x9e3779b97f4a7c15) = f (b + 0x9e3779b97f4a7c15)" by (rule g_inj)
  then have "a + 0x9e3779b97f4a7c15 = b + 0x9e3779b97f4a7c15" by (rule f_inj)
  then show "a = b" by (simp only: add_right_cancel)
qed

lemma mem_load_mix_bij: "bij mem_load_mix"
  by (intro bijI finite_UNIV_inj_surj injI) (auto intro: mem_load_mix_inj simp: inj_on_def)

subsection \<open>\<open>EvalEnv\<close> is a map\<close>

lemma env_get_insert_vars:
  "map_option snd (find (\<lambda>(name, _). name = k) (fst (insert_vars vs n v))) =
     (if k = n then Some v else map_option snd (find (\<lambda>(name, _). name = k) vs))"
  by (induction vs n v rule: insert_vars.induct) (auto split: prod.splits)

lemma env_get_insert: "env_get (fst (env_insert env n v)) k = (if k = n then Some v else env_get env k)"
  using env_get_insert_vars[of k "vars env" n v] by (auto simp: env_get_def env_insert_def split: prod.splits)

lemma env_insert_old: "snd (env_insert env n v) = env_get env n"
proof -
  have "snd (insert_vars vs n v) = map_option snd (find (\<lambda>(name, _). name = n) vs)" for vs
    by (induction vs n v rule: insert_vars.induct) (auto split: prod.splits)
  then show ?thesis by (simp add: env_get_def env_insert_def split: prod.splits) (metis snd_conv)
qed

lemma insert_vars_keys:
  "map fst (fst (insert_vars vs n v)) = (if n \<in> fst ` set vs then map fst vs else map fst vs @ [n])"
  by (induction vs n v rule: insert_vars.induct) (force split: prod.splits if_splits)+

lemma contains_key_iff: "contains_key env k \<longleftrightarrow> env_get env k \<noteq> None"
  by (auto simp: contains_key_def env_get_def list_ex_iff find_None_iff)

lemma env_insert_distinct:
  "distinct (map fst (vars env)) \<Longrightarrow> distinct (map fst (vars (fst (env_insert env n v))))"
  using insert_vars_keys[of "vars env" n v]
  by (auto simp: env_insert_def split: prod.splits if_splits)

subsection \<open>\<open>EnvOps\<close>\<close>

lemma quant_op_sim:
  assumes "\<And>x e e'. R e e' \<Longrightarrow> f (b1 e x) = g (b2 e' x)"
    and "\<And>x e e'. R e e' \<Longrightarrow> R (b1 e x) (b2 e' x)" and "R e e'"
  shows "quant_op st b1 vw f e x y = quant_op st b2 vw g e' x y"
proof -
  have "quant_loop st b1 vw f n i e = quant_loop st b2 vw g n i e'" for n i
    using assms(3)
  proof (induction n arbitrary: i e e')
    case (Suc n)
    have "f (b1 e (mask64 i vw)) = g (b2 e' (mask64 i vw))" "R (b1 e (mask64 i vw)) (b2 e' (mask64 i vw))"
      using assms(1,2) Suc.prems by blast+
    with Suc.IH show ?case by (cases "g (b2 e' (mask64 i vw))") (auto simp: Let_def)
  qed simp
  then show ?thesis by (simp add: quant_op_def Let_def)
qed

abbreviation eval_m :: "smt_expr \<Rightarrow> hash_env \<Rightarrow> (smt_error, eval_result) result" where
  "eval_m \<equiv> try_eval map_get_var map_set_var"

locale env_ops =
  fixes get_var :: "'e \<Rightarrow> string \<Rightarrow> u64 option"
    and set_var :: "'e \<Rightarrow> string \<Rightarrow> u64 \<Rightarrow> 'e"
  assumes get_set: "get_var (set_var e n v) m = (if m = n then Some v else get_var e m)"
begin

text \<open>\<open>denotes V e m\<close>: on the variables \<open>V\<close>, the environment \<open>e\<close> is the map
  \<open>m\<close>.\<close>

definition denotes :: "string set \<Rightarrow> 'e \<Rightarrow> hash_env \<Rightarrow> bool" where
  "denotes V e m \<longleftrightarrow> (\<forall>n \<in> V. get_var e n = m n)"

lemma denotes_Un: "denotes (V \<union> W) e m \<longleftrightarrow> denotes V e m \<and> denotes W e m"
  by (auto simp: denotes_def)

lemma denotes_set:
  "denotes (V - {n}) e m \<Longrightarrow> denotes V (set_var e n v) (map_set_var m n v)"
  "denotes V e m \<Longrightarrow> denotes V (set_var e n v) (map_set_var m n v)"
  by (auto simp: denotes_def map_set_var_def get_set)

lemma quant_denotes:
  assumes "\<And>env m. denotes (set (collect_vars b)) env m \<Longrightarrow> try_eval get_var set_var b env = eval_m b m"
    and "denotes (set (collect_vars b) - {v}) env m"
  shows "quant_op st (\<lambda>e x. set_var e v x) vw (try_eval get_var set_var b) env x y =
      quant_op st (\<lambda>e x. map_set_var e v x) vw (eval_m b) m x y"
  by (rule quant_op_sim[where R = "denotes (set (collect_vars b) - {v})"])
     (use assms denotes_set in auto)

lemma try_eval_denotes:
  "denotes (set (collect_vars e)) env m \<Longrightarrow> try_eval get_var set_var e env = eval_m e m"
proof (induction e arbitrary: env m)
  case (Var n w)
  then show ?case by (simp add: denotes_def map_get_var_def)
next
  case (ForAll v vw lo hi b)
  from ForAll.prems have "denotes (set (collect_vars b) - {v}) env m"
    and "denotes (set (collect_vars lo)) env m" and "denotes (set (collect_vars hi)) env m"
    by (auto simp: denotes_def)
  with quant_denotes[OF ForAll.IH(3)] ForAll.IH(1,2) show ?case by simp
next
  case (Exists v vw lo hi b)
  from Exists.prems have "denotes (set (collect_vars b) - {v}) env m"
    and "denotes (set (collect_vars lo)) env m" and "denotes (set (collect_vars hi)) env m"
    by (auto simp: denotes_def)
  with quant_denotes[OF Exists.IH(3)] Exists.IH(1,2) show ?case by simp
qed (auto simp: denotes_Un cong: if_cong)

lemma try_eval_abs: "try_eval get_var set_var e env = eval_m e (get_var env)"
  by (rule try_eval_denotes) (simp add: denotes_def)

end

interpretation vec_env: env_ops vec_get_var vec_set_var
  by unfold_locales (simp add: vec_get_var_def vec_set_var_def env_get_insert)

interpretation hash_env: env_ops map_get_var map_set_var
  by unfold_locales (simp add: map_get_var_def map_set_var_def)

section \<open>Evaluation respects sorts\<close>

lemma res_sort_rbind:
  assumes "res_sort s r" and "\<And>v. val_sort s v \<Longrightarrow> res_sort t (f v)"
  shows "res_sort t (rbind r f)"
  using assms by (cases r) (auto simp: res_sort_def)

lemma mask64_idem [simp]: "take_bit w (mask64 v w) = mask64 v w"
  by (simp add: mask64_take_bit)

lemma mask128_idem [simp]: "take_bit w (mask128 v w) = mask128 v w"
  by (simp add: mask128_take_bit)

named_theorems op_defs
declare bv_op_def [op_defs] sdiv_op_def [op_defs] udiv_op_def [op_defs] urem_op_def [op_defs]
  shl_op_def [op_defs] lshr_op_def [op_defs] ashr_op_def [op_defs] neg_op_def [op_defs]
  scmp_op_def [op_defs] ucmp_op_def [op_defs] extract_op_def [op_defs] concat_op_def [op_defs]
  zext_op_def [op_defs] sext_op_def [op_defs] select_op_def [op_defs] store_op_def [op_defs]
  mem_load_op_def [op_defs]

lemma ucast_mask128 [simp]: "take_bit w (ucast (mask128 v w)) = ucast (mask128 v w)"
  by (simp only: mask128_take_bit ucast_take_bit_word) simp

lemma and_mask128 [simp]: "v AND mask128 (- 1) w = mask128 v w"
  unfolding mask128_take_bit by (rule bit_word_eqI) (auto simp: bit_simps)

lemma take_bit_ucast64: "64 \<le> w \<Longrightarrow> take_bit w (ucast (v :: u64) :: 'a::len word) = ucast v"
  by (simp add: ucast_take_bit_word[symmetric] take_bit_word_eq_self)

text \<open>\<open>ok_sort\<close>: the arm returns a value of the sort.\<close>

definition ok_sort :: "smt_sort \<Rightarrow> (smt_error, eval_result) result \<Rightarrow> bool" where
  "ok_sort s r = (case r of Inr v \<Rightarrow> val_sort s v | Inl _ \<Rightarrow> False)"

lemma ok_sortE:
  assumes "ok_sort s r"
  obtains v where "r = Inr v" and "val_sort s v"
  using assms by (cases r) (auto simp: ok_sort_def)

lemma ok_res_sort: "ok_sort s r \<Longrightarrow> res_sort s r"
  by (auto simp: ok_sort_def res_sort_def split: sum.splits)

lemma op_sorts:
  assumes "w \<le> 128"
  shows "ok_sort (BitVec w) (bv_op f g w x y)"
    and "ok_sort (BitVec w) (sdiv_op w x y)"
    and "ok_sort (BitVec w) (udiv_op w x y)"
    and "ok_sort (BitVec w) (shl_op w x y)"
    and "ok_sort (BitVec w) (lshr_op w x y)"
    and "ok_sort (BitVec w) (ashr_op w x y)"
    and "ok_sort (BitVec w) (neg_op w x)"
    and "ok_sort (BitVec w) (zext_op w x)"
    and "ok_sort (BitVec w) (sext_op n w x)"
    and "w \<le> 64 \<Longrightarrow> ok_sort (BitVec w) (urem_op w x y)"
    and "w \<le> 64 \<Longrightarrow> ok_sort (BitVec w) (mem_load_op lb sg w x)"
    and "n < 128 \<Longrightarrow> ok_sort (BitVec w) (concat_op n w x y)"
    and "l < 128 \<Longrightarrow> w \<le> 64 \<Longrightarrow> ok_sort (BitVec w) (extract_op l w x)"
  using assms
  by (auto simp: op_defs ok_sort_def Let_def)

lemma quant_loop_sort:
  assumes "\<And>e x. P e \<Longrightarrow> res_sort SBool (f (b e x))" and "\<And>e x. P e \<Longrightarrow> P (b e x)" and "P e"
  shows "res_sort SBool (quant_loop st b vw f n i e)"
  using assms(3)
proof (induction n arbitrary: i e)
  case (Suc n)
  have "P (b e (mask64 i vw))" "res_sort SBool (f (b e (mask64 i vw)))"
    using assms(1,2) Suc.prems by blast+
  then show ?case using Suc.IH
    by (auto simp: Let_def res_sort_def[of SBool "Inr _"] intro!: res_sort_rbind)
qed (simp add: res_sort_def)

lemma select_sort:
  "\<lbrakk>val_sort (SArray i s) x\<rbrakk> \<Longrightarrow> res_sort s (select_op x y)"
  by (auto simp: select_op_def res_sort_def split: eval_result.splits option.splits dest: fmpredD)

lemma store_sort:
  "\<lbrakk>val_sort (SArray i s) x; val_sort s v\<rbrakk> \<Longrightarrow> res_sort (SArray i s) (store_op x y v)"
  by (auto simp: store_op_def res_sort_def split: eval_result.splits intro: fmpred_upd)

lemma quant_op_sort:
  assumes "\<And>e x. P e \<Longrightarrow> res_sort SBool (f (b e x))" and "\<And>e x. P e \<Longrightarrow> P (b e x)" and "P (e :: 'e)"
  shows "res_sort SBool (quant_op st b vw f e x y)"
  using quant_loop_sort[where P = P and f = f and b = b, OF assms]
  by (auto simp: quant_op_def Let_def res_sort_def[of SBool "Inr _"] res_sort_def[of SBool "Inl _"] range_error_def)

lemma eval_sorted:
  "well_sorted e s \<Longrightarrow> set (free_vars e) \<subseteq> dom m \<Longrightarrow> res_sort s (eval_m e m)"
proof (induction arbitrary: m rule: well_sorted.induct)
  case (ws_Var w n)
  then show ?case by (auto simp: map_get_var_def res_sort_def)
next
  case (ws_BvConst w v)
  then show ?case
    by (auto simp: res_sort_def take_bit_ucast64)
next
  case (ws_TrapIfZero g n v w)
  then show ?case by (auto intro!: res_sort_rbind simp: res_sort_def[of _ "Inr _"])
next
  case (ws_Ite c t s e)
  then show ?case by (auto intro!: res_sort_rbind[of SBool])
next
  case (ws_Select a n s i)
  then show ?case by (auto intro!: res_sort_rbind select_sort)
next
  case (ws_Store a n s i v)
  then show ?case by (auto intro!: res_sort_rbind store_sort)
next
  case (ws_quant c lo n hi b v vw)
  have "res_sort SBool (quant_op st (\<lambda>e. map_set_var e v) vw (eval_m b) m x y)" for st x y
  proof (rule quant_op_sort[where P = "\<lambda>m. set (free_vars b) - {v} \<subseteq> dom m"])
    show "res_sort SBool (eval_m b (map_set_var e v x))" if "set (free_vars b) - {v} \<subseteq> dom e" for e x
      using that by (intro ws_quant.IH(3)) (auto simp: map_set_var_def)
  qed (use ws_quant in \<open>auto simp: map_set_var_def\<close>)
  with ws_quant show ?case by (auto intro!: res_sort_rbind)
next
  case (ws_Extract a n l h w)
  then show ?case by (auto intro!: res_sort_rbind op_sorts[THEN ok_res_sort])
qed (auto intro!: res_sort_rbind op_sorts[THEN ok_res_sort] simp: res_sort_def[of _ "Inr _"] scmp_op_def ucmp_op_def)

lemma sort_agreement:
  "well_sorted e s \<Longrightarrow> (\<forall>s'. smt_sort_of e = Inr s' \<longrightarrow> s' = s) \<and>
     (\<forall>w. try_bv_width e = Inr w \<longrightarrow> s = BitVec w)"
proof (induction rule: well_sorted.induct)
  case (ws_Ite c t s e)
  then show ?case by (cases "try_bv_width t") auto
next
  case (ws_Select a n s i)
  then show ?case
    by (cases "smt_sort_of a") (auto split: smt_sort.splits elim!: sort_bv_width.elims simp: ok_or_def split: option.splits)
next
  case (ws_ConstArray v s n)
  then show ?case by (cases "smt_sort_of v") auto
qed auto

section \<open>Builders\<close>

lemma with_width_ok: "try_bv_width a = Inr w \<Longrightarrow> with_width a node = Inr (node w)"
  by (simp add: with_width_def bv_width_def)

lemma ws_bins:
  assumes "well_sorted a (BitVec w)" and "well_sorted b (BitVec w)" and "w \<le> 64"
  shows "well_sorted (BvAdd a b w) (BitVec w)" "well_sorted (BvSub a b w) (BitVec w)"
    "well_sorted (BvMul a b w) (BitVec w)" "well_sorted (BvSDiv a b w) (BitVec w)"
    "well_sorted (BvUDiv a b w) (BitVec w)" "well_sorted (BvURem a b w) (BitVec w)"
    "well_sorted (BvAnd a b w) (BitVec w)" "well_sorted (BvOr a b w) (BitVec w)"
    "well_sorted (BvXor a b w) (BitVec w)" "well_sorted (BvShl a b w) (BitVec w)"
    "well_sorted (BvLshr a b w) (BitVec w)" "well_sorted (BvAshr a b w) (BitVec w)"
    "well_sorted (TrapIfZero b a w) (BitVec w)"
  using assms ws_bin[OF _ _ assms(1,2)] ws_BvURem[OF assms(3,1,2)] ws_TrapIfZero[OF assms(2,1)]
  by simp_all

lemma ws_cmps:
  assumes "well_sorted a (BitVec w)" and "well_sorted b (BitVec w)" and "w \<le> 64"
  shows "well_sorted (BvSlt a b w) SBool" "well_sorted (BvSge a b w) SBool"
    "well_sorted (BvSgt a b w) SBool" "well_sorted (BvSle a b w) SBool"
    "well_sorted (BvUlt a b w) SBool" "well_sorted (BvUge a b w) SBool"
    "well_sorted (BvUgt a b w) SBool" "well_sorted (BvUle a b w) SBool"
  using ws_cmp[OF _ assms(3,1,2)] by simp_all

lemmas width_builder_defs =
  bvadd_def bvsub_def bvmul_def bvsdiv_def bvudiv_def bvurem_def trap_if_zero_def
  bvslt_def bvsge_def bvuge_def bvsgt_def bvsle_def bvult_def bvugt_def bvule_def
  bvand_def bvor_def bvxor_def bvshl_def bvlshr_def bvashr_def

section \<open>Properties\<close>

text \<open>C30. An expression's value depends on its free variables only, where
  \<open>free_vars\<close> is the list the code computes, bound variables left out.\<close>

theorem try_eval_free_vars:
  assumes "\<And>n. n \<in> set (free_vars e) \<Longrightarrow> m n = m' n"
  shows "try_eval map_get_var map_set_var e m = try_eval map_get_var map_set_var e m'"
  by (rule hash_env.try_eval_denotes) (use assms in \<open>auto simp: hash_env.denotes_def map_get_var_def\<close>)

theorem try_eval_free_vars_witness:
  "try_eval map_get_var map_set_var (ForAll ''i'' 8 (BvConst 0 8) (BvConst 3 8) (BvUge (Var ''a'' 8) (Var ''i'' 8) 8))
     [''a'' \<mapsto> 2, ''i'' \<mapsto> 77]
   = try_eval map_get_var map_set_var (ForAll ''i'' 8 (BvConst 0 8) (BvConst 3 8) (BvUge (Var ''a'' 8) (Var ''i'' 8) 8))
     [''a'' \<mapsto> 2]"
  by (rule try_eval_free_vars) auto

text \<open>C29. The linear-scan environment is interchangeable with the hash map: evaluating any
  expression in an \<open>EvalEnv\<close> gives, error or value, what evaluating it in the map
  the environment denotes gives.\<close>

theorem try_eval_vec_env_eq_hash_env:
  "try_eval vec_get_var vec_set_var e env = try_eval map_get_var map_set_var e (env_get env)"
  using vec_env.try_eval_abs[of e env] by (simp add: vec_get_var_def[abs_def])



text \<open>C27. Where \<open>sort\<close> and \<open>try_bv_width\<close> return, they return the sort and the
  width of the expression.\<close>

theorem sort_query_sound:
  assumes "well_sorted e s"
  shows "(smt_sort_of e = Inr s' \<longrightarrow> s' = s) \<and> (try_bv_width e = Inr w \<longrightarrow> s = BitVec w)"
  using sort_agreement[OF assms] by blast

theorem sort_query_sound_witness:
  "\<exists>s' w. smt_sort_of (ZeroExtend (Var ''a'' 8) 8 16) = Inr s' \<and> s' = BitVec 16 \<and>
     try_bv_width (ZeroExtend (Var ''a'' 8) 8 16) = Inr w \<and> BitVec 16 = BitVec w"
proof -
  have "well_sorted (ZeroExtend (Var ''a'' 8) 8 16) (BitVec 16)"
    by (auto intro!: well_sorted.intros ws_ZeroExtend[of _ 8])
  moreover obtain s' w where "smt_sort_of (ZeroExtend (Var ''a'' 8) 8 16) = Inr s'"
    "try_bv_width (ZeroExtend (Var ''a'' 8) 8 16) = Inr w" by simp
  ultimately show ?thesis using sort_query_sound by blast
qed



text \<open>C32. The memory contents function of \<open>MemLoad\<close> is a bijection of the addresses:
  two loads of 64 bits agree exactly when their effective addresses do.\<close>

theorem mem_load_mix_bijection:
  "bij mem_load_mix \<and>
   (mem_load_op 64 sg 64 x = mem_load_op 64 sg' 64 y \<longleftrightarrow> as_u64 x = as_u64 y)"
  using mem_load_mix_bij
  by (auto simp: mem_load_op_def Let_def mask64_def sign_extend_def dest: mem_load_mix_inj)

end
