(* ===== verification/Smt_Compiled.thy ===== *)
theory Smt_Compiled
  imports Smt_Eval
begin

text \<open>
  \<open>CExpr\<close> of \<open>trust-cg-verify/src/smt.rs\<close>: the tree of the scalar fragment of at most
  64 bits in which every variable is a slot of the environment. \<open>ccompile\<close> is
  \<open>CExpr::compile\<close> and \<open>ceval\<close> is \<open>CExpr::eval\<close>; the theorem is that
  a compiled expression evaluates, panics included, to what \<open>try_eval\<close> gives.
\<close>

section \<open>Compilation\<close>

text \<open>
  A compilation that does not succeed either falls back to the interpreter (the
  source's \<open>None\<close>) or panics.
\<close>

datatype stop = Fallback | Panicked smt_error

definition or_panic :: "(smt_error, 'a) result \<Rightarrow> (stop, 'a) result" where
  "or_panic r = (case r of Inl e \<Rightarrow> Inl (Panicked e) | Inr x \<Rightarrow> Inr x)"

lemma or_panic_Inr [simp]: "or_panic r = Inr x \<longleftrightarrow> r = Inr x"
  by (auto simp: or_panic_def split: sum.splits)

text \<open>\<open>inputs.iter().position(|(n, _)| n == name)\<close>.\<close>

fun position :: "(string \<times> 'a) list \<Rightarrow> string \<Rightarrow> nat option" where
  "position [] name = None"
| "position ((n, _) # rest) name = (if n = name then Some 0 else map_option Suc (position rest name))"

datatype (plugins only: size code) cexpr =
    CConst u64
  | CBoolConst bool
  | CVar nat nat
  | CAdd cexpr cexpr nat
  | CSub cexpr cexpr nat
  | CMul cexpr cexpr nat
  | CAnd cexpr cexpr nat
  | COr cexpr cexpr nat
  | CXor cexpr cexpr nat
  | CShl cexpr cexpr nat
  | CLshr cexpr cexpr nat
  | CAshr cexpr cexpr nat
  | CNeg cexpr nat
  | CEq cexpr cexpr
  | CLogicalNot cexpr
  | CSlt cexpr cexpr nat
  | CSge cexpr cexpr nat
  | CUge cexpr cexpr
  | CSgt cexpr cexpr nat
  | CSle cexpr cexpr nat
  | CUlt cexpr cexpr
  | CUgt cexpr cexpr
  | CUle cexpr cexpr
  | CLogicalAnd cexpr cexpr
  | CLogicalOr cexpr cexpr
  | CIte cexpr cexpr cexpr
  | CExtract cexpr nat nat  \<comment> \<open>operand, low, width\<close>
  | CConcat cexpr cexpr nat nat  \<comment> \<open>hi, lo, width of lo, width\<close>
  | CZExt cexpr nat
  | CSExt cexpr nat nat  \<comment> \<open>operand, source width, width\<close>

text \<open>The guard \<open>if *width <= 64\<close> of a match arm.\<close>

definition narrow :: "nat \<Rightarrow> (stop, 'a) result \<Rightarrow> (stop, 'a) result" where
  "narrow w r = (if w \<le> 64 then r else Inl Fallback)"

lemma narrow_Inr [simp]: "narrow w r = Inr x \<longleftrightarrow> w \<le> 64 \<and> r = Inr x"
  by (simp add: narrow_def)

abbreviation both :: "(stop, 'a) result \<Rightarrow> (stop, 'a) result \<Rightarrow> ('a \<Rightarrow> 'a \<Rightarrow> 'a) \<Rightarrow> (stop, 'a) result" where
  "both a b f \<equiv> rbind a (\<lambda>x. rbind b (\<lambda>y. Inr (f x y)))"

primrec ccompile :: "(string \<times> nat) list \<Rightarrow> smt_expr \<Rightarrow> (stop, cexpr) result" where
  "ccompile inputs (Var n w) = narrow w (rbind (ok_or (position inputs n) Fallback) (\<lambda>slot. Inr (CVar slot w)))"
| "ccompile inputs (BvConst v w) = narrow w (Inr (CConst (mask64 v w)))"
| "ccompile inputs (BoolConst b) = Inr (CBoolConst b)"
| "ccompile inputs (BvAdd a b w) = narrow w (both (ccompile inputs a) (ccompile inputs b) (\<lambda>x y. CAdd x y w))"
| "ccompile inputs (BvSub a b w) = narrow w (both (ccompile inputs a) (ccompile inputs b) (\<lambda>x y. CSub x y w))"
| "ccompile inputs (BvMul a b w) = narrow w (both (ccompile inputs a) (ccompile inputs b) (\<lambda>x y. CMul x y w))"
| "ccompile inputs (BvAnd a b w) = narrow w (both (ccompile inputs a) (ccompile inputs b) (\<lambda>x y. CAnd x y w))"
| "ccompile inputs (BvOr a b w) = narrow w (both (ccompile inputs a) (ccompile inputs b) (\<lambda>x y. COr x y w))"
| "ccompile inputs (BvXor a b w) = narrow w (both (ccompile inputs a) (ccompile inputs b) (\<lambda>x y. CXor x y w))"
| "ccompile inputs (BvShl a b w) = narrow w (both (ccompile inputs a) (ccompile inputs b) (\<lambda>x y. CShl x y w))"
| "ccompile inputs (BvLshr a b w) = narrow w (both (ccompile inputs a) (ccompile inputs b) (\<lambda>x y. CLshr x y w))"
| "ccompile inputs (BvAshr a b w) = narrow w (both (ccompile inputs a) (ccompile inputs b) (\<lambda>x y. CAshr x y w))"
| "ccompile inputs (BvNeg a w) = narrow w (rbind (ccompile inputs a) (\<lambda>x. Inr (CNeg x w)))"
| "ccompile inputs (SmtEq a b) = both (ccompile inputs a) (ccompile inputs b) CEq"
| "ccompile inputs (SmtNot a) = rbind (ccompile inputs a) (\<lambda>x. Inr (CLogicalNot x))"
| "ccompile inputs (BvSlt a b w) = narrow w (both (ccompile inputs a) (ccompile inputs b) (\<lambda>x y. CSlt x y w))"
| "ccompile inputs (BvSge a b w) = narrow w (both (ccompile inputs a) (ccompile inputs b) (\<lambda>x y. CSge x y w))"
| "ccompile inputs (BvUge a b w) = both (ccompile inputs a) (ccompile inputs b) CUge"
| "ccompile inputs (BvSgt a b w) = narrow w (both (ccompile inputs a) (ccompile inputs b) (\<lambda>x y. CSgt x y w))"
| "ccompile inputs (BvSle a b w) = narrow w (both (ccompile inputs a) (ccompile inputs b) (\<lambda>x y. CSle x y w))"
| "ccompile inputs (BvUlt a b w) = both (ccompile inputs a) (ccompile inputs b) CUlt"
| "ccompile inputs (BvUgt a b w) = both (ccompile inputs a) (ccompile inputs b) CUgt"
| "ccompile inputs (BvUle a b w) = both (ccompile inputs a) (ccompile inputs b) CUle"
| "ccompile inputs (SmtAnd a b) = both (ccompile inputs a) (ccompile inputs b) CLogicalAnd"
| "ccompile inputs (SmtOr a b) = both (ccompile inputs a) (ccompile inputs b) CLogicalOr"
| "ccompile inputs (Ite c t e) = 
     rbind (ccompile inputs c) (\<lambda>x. both (ccompile inputs t) (ccompile inputs e) (CIte x))"
| "ccompile inputs (Extract h l a w) = narrow w (rbind (ccompile inputs a) (\<lambda>x. Inr (CExtract x l w)))"
| "ccompile inputs (Concat a b w) = narrow w (rbind (ccompile inputs a) (\<lambda>x. rbind (ccompile inputs b) (\<lambda>y.
     rbind (or_panic (bv_width b)) (\<lambda>lw. Inr (CConcat x y lw w)))))"
| "ccompile inputs (ZeroExtend a x w) = narrow w (rbind (ccompile inputs a) (\<lambda>y. Inr (CZExt y w)))"
| "ccompile inputs (SignExtend a x w) = narrow w (rbind (ccompile inputs a) (\<lambda>y.
     if w < x then Inl (Panicked (SmtPanic ''attempt to subtract with overflow''))
     else Inr (CSExt y (w - x) w)))"
| "ccompile inputs (BvSDiv a b w) = Inl Fallback"
| "ccompile inputs (BvUDiv a b w) = Inl Fallback"
| "ccompile inputs (BvURem a b w) = Inl Fallback"
| "ccompile inputs (TrapIfZero a b w) = Inl Fallback"
| "ccompile inputs (Select a i) = Inl Fallback"
| "ccompile inputs (Store a i v) = Inl Fallback"
| "ccompile inputs (ConstArray s v) = Inl Fallback"
| "ccompile inputs (MemLoad a lb s rw) = Inl Fallback"
| "ccompile inputs (UF n as s) = Inl Fallback"
| "ccompile inputs (UFDecl n as s) = Inl Fallback"
| "ccompile inputs (ForAll v vw lo hi b) = Inl Fallback"
| "ccompile inputs (Exists v vw lo hi b) = Inl Fallback"

section \<open>Evaluation\<close>

definition index_panic :: smt_error where
  "index_panic = SmtPanic ''index out of bounds''"

primrec ceval :: "cexpr \<Rightarrow> eval_env \<Rightarrow> (smt_error, eval_result) result" where
  "ceval (CConst v) env = Inr (Bv v)"
| "ceval (CBoolConst b) env = Inr (BoolV b)"
| "ceval (CVar slot w) env = rbind (ok_or (value_at env slot) index_panic) (\<lambda>v. Inr (Bv (mask64 v w)))"
| "ceval (CAdd a b w) env = then2 (ceval a env) (ceval b env) (\<lambda>x y. Inr (Bv (mask64 (as_u64 x + as_u64 y) w)))"
| "ceval (CSub a b w) env = then2 (ceval a env) (ceval b env) (\<lambda>x y. Inr (Bv (mask64 (as_u64 x - as_u64 y) w)))"
| "ceval (CMul a b w) env = then2 (ceval a env) (ceval b env) (\<lambda>x y. Inr (Bv (mask64 (as_u64 x * as_u64 y) w)))"
| "ceval (CAnd a b w) env = then2 (ceval a env) (ceval b env) (\<lambda>x y. Inr (Bv (mask64 (as_u64 x AND as_u64 y) w)))"
| "ceval (COr a b w) env = then2 (ceval a env) (ceval b env) (\<lambda>x y. Inr (Bv (mask64 (as_u64 x OR as_u64 y) w)))"
| "ceval (CXor a b w) env = then2 (ceval a env) (ceval b env) (\<lambda>x y. Inr (Bv (mask64 (as_u64 x XOR as_u64 y) w)))"
| "ceval (CShl a b w) env = then2 (ceval a env) (ceval b env) (\<lambda>x y. 
     if w \<le> unat (as_u64 y) then Inr (Bv 0)
     else Inr (Bv (mask64 (push_bit (unat (as_u64 y)) (as_u64 x)) w)))"
| "ceval (CLshr a b w) env = then2 (ceval a env) (ceval b env) (\<lambda>x y. 
     if w \<le> unat (as_u64 y) then Inr (Bv 0)
     else Inr (Bv (mask64 (drop_bit (unat (as_u64 y)) (as_u64 x)) w)))"
| "ceval (CAshr a b w) env = then2 (ceval a env) (ceval b env) (\<lambda>x y. let av = sign_extend (as_u64 x) w in
     if w \<le> unat (as_u64 y) then (if av < 0 then Inr (Bv (mask64 (- 1) w)) else Inr (Bv 0))
     else Inr (Bv (mask64 (word_of_int (av div 2 ^ unat (as_u64 y))) w)))"
| "ceval (CNeg a w) env = rbind (ceval a env) (\<lambda>x. Inr (Bv (mask64 (NOT (as_u64 x) + 1) w)))"
| "ceval (CEq a b) env = then2 (ceval a env) (ceval b env) (\<lambda>x y. Inr (BoolV (x = y)))"
| "ceval (CLogicalNot a) env = rbind (ceval a env) (\<lambda>x. Inr (BoolV (\<not> as_bool x)))"
| "ceval (CSlt a b w) env = then2 (ceval a env) (ceval b env) (\<lambda>x y. Inr (BoolV (sign_extend (as_u64 x) w < sign_extend (as_u64 y) w)))"
| "ceval (CSge a b w) env = then2 (ceval a env) (ceval b env) (\<lambda>x y. Inr (BoolV (sign_extend (as_u64 x) w \<ge> sign_extend (as_u64 y) w)))"
| "ceval (CUge a b) env = then2 (ceval a env) (ceval b env) (\<lambda>x y. Inr (BoolV (as_u64 x \<ge> as_u64 y)))"
| "ceval (CSgt a b w) env = then2 (ceval a env) (ceval b env) (\<lambda>x y. Inr (BoolV (sign_extend (as_u64 x) w > sign_extend (as_u64 y) w)))"
| "ceval (CSle a b w) env = then2 (ceval a env) (ceval b env) (\<lambda>x y. Inr (BoolV (sign_extend (as_u64 x) w \<le> sign_extend (as_u64 y) w)))"
| "ceval (CUlt a b) env = then2 (ceval a env) (ceval b env) (\<lambda>x y. Inr (BoolV (as_u64 x < as_u64 y)))"
| "ceval (CUgt a b) env = then2 (ceval a env) (ceval b env) (\<lambda>x y. Inr (BoolV (as_u64 x > as_u64 y)))"
| "ceval (CUle a b) env = then2 (ceval a env) (ceval b env) (\<lambda>x y. Inr (BoolV (as_u64 x \<le> as_u64 y)))"
| "ceval (CLogicalAnd a b) env = rbind (ceval a env) (\<lambda>x. if as_bool x
     then rbind (ceval b env) (\<lambda>y. Inr (BoolV (as_bool y))) else Inr (BoolV False))"
| "ceval (CLogicalOr a b) env = rbind (ceval a env) (\<lambda>x. if as_bool x then Inr (BoolV True)
     else rbind (ceval b env) (\<lambda>y. Inr (BoolV (as_bool y))))"
| "ceval (CIte p t e) env = rbind (ceval p env) (\<lambda>x. if as_bool x then ceval t env else ceval e env)"
| "ceval (CExtract a low w) env = rbind (ceval a env) (\<lambda>x. let v = ucast (as_u64 x) :: u128 in
     if 128 \<le> low then Inl shr_overflow else Inr (Bv (ucast (drop_bit low v AND mask128 (- 1) w))))"
| "ceval (CConcat a b lo_width w) env = then2 (ceval a env) (ceval b env) (\<lambda>x y.
     let hv = ucast (as_u64 x) :: u128; lv = ucast (as_u64 y) :: u128 in
     if 128 \<le> lo_width then Inl shl_overflow
     else Inr (Bv (ucast (mask128 (push_bit lo_width hv OR lv) w))))"
| "ceval (CZExt a w) env = rbind (ceval a env) (\<lambda>x. Inr (Bv (mask64 (as_u64 x) w)))"
| "ceval (CSExt a src_width w) env = rbind (ceval a env) (\<lambda>x.
     Inr (Bv (mask64 (word_of_int (sign_extend (as_u64 x) src_width)) w)))"

section \<open>Slots\<close>

text \<open>The environment binds the inputs in their order, as the sampling loop builds it.\<close>

definition aligned :: "(string \<times> nat) list \<Rightarrow> eval_env \<Rightarrow> bool" where
  "aligned inputs env \<longleftrightarrow> map fst (vars env) = map fst inputs"

lemma position_find:
  "map fst vs = map fst inputs \<Longrightarrow>
     (case position inputs n of
        None \<Rightarrow> map_option snd (find (\<lambda>(k, _). k = n) vs) = None
      | Some i \<Rightarrow> i < length vs \<and> map_option snd (find (\<lambda>(k, _). k = n) vs) = Some (snd (vs ! i)))"
proof (induction inputs n arbitrary: vs rule: position.induct)
  case (2 m a rest name)
  then obtain v vs' where [simp]: "vs = (m, v) # vs'" and "map fst vs' = map fst rest" by (cases vs) auto
  with 2 show ?case by (fastforce split: option.splits)
qed simp

lemma value_at_position:
  assumes "aligned inputs env"
  shows "position inputs n = Some i \<Longrightarrow> \<exists>v. env_get env n = Some v \<and> value_at env i = Some v"
    and "position inputs n = None \<Longrightarrow> env_get env n = None"
  using position_find[of "vars env" inputs n] assms
  by (auto simp: aligned_def env_get_def value_at_def)

section \<open>Correctness\<close>

definition scalar :: "(smt_error, eval_result) result \<Rightarrow> bool" where
  "scalar r = (case r of Inr (Bv _) \<Rightarrow> True | Inr (BoolV _) \<Rightarrow> True | Inr _ \<Rightarrow> False | Inl _ \<Rightarrow> True)"

definition agree :: "(smt_error, eval_result) result \<Rightarrow> (smt_error, eval_result) result \<Rightarrow> bool" where
  "agree r r' \<longleftrightarrow> r = r' \<and> scalar r'"

lemma agree_rbind:
  assumes "agree r r'" and "\<And>v. scalar (Inr v) \<Longrightarrow> agree (f v) (g v)"
  shows "agree (rbind r f) (rbind r' g)"
  using assms by (cases r') (auto simp: agree_def scalar_def)

lemma scalar_as_u128: "scalar (Inr v) \<Longrightarrow> as_u128 v = ucast (as_u64 v)"
  by (cases v) (auto simp: scalar_def b2u64_def b2u128_def)

lemma ucast_down_up: "ucast (ucast (v :: u64) :: u128) = v"
  by (rule bit_word_eqI) (simp add: bit_simps)

lemma agree_leaf [simp]:
  "agree (Inr (Bv v)) r \<longleftrightarrow> r = Inr (Bv v)"
  "agree (Inr (BoolV b)) r \<longleftrightarrow> r = Inr (BoolV b)"
  "agree (Inl err) r \<longleftrightarrow> r = Inl err"
  by (auto simp: agree_def scalar_def)

lemma ccompile_agree:
  assumes "aligned inputs env"
  shows "ccompile inputs e = Inr c \<Longrightarrow> agree (ceval c env) (try_eval vec_get_var vec_set_var e env)"
proof (induction e arbitrary: c)
  case (Var n w)
  then show ?case using value_at_position(1)[OF assms]
    by (fastforce simp: vec_get_var_def ok_or_def split: option.splits)
qed (auto simp: op_defs Let_def scalar_as_u128 ucast_down_up split: if_splits intro!: agree_rbind)

section \<open>Properties\<close>

text \<open>C7. The compiled evaluator is exact: where \<open>CExpr::compile\<close> succeeds, evaluating the
  compiled tree in an environment that binds the inputs in order is evaluating the source
  expression with \<open>try_eval\<close>, for every expression and every environment.\<close>

theorem ccompile_exact:
  assumes "ccompile inputs e = Inr c" and "aligned inputs env"
  shows "ceval c env = try_eval vec_get_var vec_set_var e env"
  using ccompile_agree[OF assms(2,1)] by (simp add: agree_def)

theorem ccompile_exact_witness:
  "ceval (CAdd (CVar 1 8) (CConst 1) 8) \<lparr>vars = [(''a'', 7), (''b'', 255)]\<rparr>
     = try_eval vec_get_var vec_set_var (BvAdd (Var ''b'' 8) (BvConst 1 8) 8)
         \<lparr>vars = [(''a'', 7), (''b'', 255)]\<rparr>"
  by (rule ccompile_exact[where inputs = "[(''a'', 8), (''b'', 8)]"])
     (simp_all add: aligned_def mask64_def narrow_def)

end
