(* ===== verification/Smt_Flat.thy ===== *)
theory Smt_Flat
  imports Smt_Compiled
begin

text \<open>
  \<open>FlatProg\<close> of \<open>trust-cg-verify/src/smt.rs\<close>: the hash-consed linear tape of the
  integer fragment, divisions, traps, wide nodes and reads from finite store chains
  included. \<open>go\<close> and \<open>go_select\<close> emit the tape, \<open>flat_eval\<close> runs it eagerly
  from front to back.
\<close>

section \<open>Tape values\<close>

datatype sval = SBv u64 | SBv128 u128 | SBoolV bool | SPoison

fun sv_as_u64 :: "sval \<Rightarrow> u64" where
  "sv_as_u64 (SBv v) = v"
| "sv_as_u64 (SBv128 v) = ucast v"
| "sv_as_u64 (SBoolV b) = b2u64 b"
| "sv_as_u64 SPoison = - 1"

fun sv_as_u128 :: "sval \<Rightarrow> u128" where
  "sv_as_u128 (SBv v) = ucast v"
| "sv_as_u128 (SBv128 v) = v"
| "sv_as_u128 (SBoolV b) = b2u128 b"
| "sv_as_u128 SPoison = - 1"

fun sv_as_bool :: "sval \<Rightarrow> bool" where
  "sv_as_bool (SBoolV b) = b"
| "sv_as_bool (SBv v) = (v \<noteq> 0)"
| "sv_as_bool (SBv128 v) = (v \<noteq> 0)"
| "sv_as_bool SPoison = False"

fun to_eval :: "sval \<Rightarrow> eval_result" where
  "to_eval (SBv v) = Bv v"
| "to_eval (SBv128 v) = Bv128 v"
| "to_eval (SBoolV b) = BoolV b"
| "to_eval SPoison = Poison"

section \<open>Tape operations\<close>

datatype (plugins only: size code) flat_op =
    FConst u64
  | FConst128 u128
  | FBoolConst bool
  | FVar nat nat
  | FAdd nat nat nat
  | FSub nat nat nat
  | FMul nat nat nat
  | FAnd nat nat nat
  | FOr nat nat nat
  | FXor nat nat nat
  | FShl nat nat nat
  | FLshr nat nat nat
  | FAshr nat nat nat
  | FSDiv nat nat nat
  | FUDiv nat nat nat
  | FURem nat nat nat
  | FNeg nat nat
  | FTrap nat nat  \<comment> \<open>guard, value\<close>
  | FEq nat nat
  | FNot nat
  | FSlt nat nat nat
  | FSge nat nat nat
  | FUge nat nat
  | FSgt nat nat nat
  | FSle nat nat nat
  | FUlt nat nat
  | FUgt nat nat
  | FUle nat nat
  | FBAnd nat nat
  | FBOr nat nat
  | FIte nat nat nat
  | FExtract nat nat nat  \<comment> \<open>operand, low, width\<close>
  | FConcat nat nat nat nat  \<comment> \<open>hi, lo, width of lo, width\<close>
  | FZExt nat nat
  | FSExt nat nat nat  \<comment> \<open>operand, source width, width\<close>
  | FMemLoad nat nat bool nat  \<comment> \<open>address, load bits, signed, result width\<close>

record flat_state =
  ops :: "flat_op list"
  dedup :: "flat_op \<rightharpoonup> nat"

record flat_prog =
  prog_ops :: "flat_op list"
  root :: nat

definition push_op :: "flat_op \<Rightarrow> flat_state \<Rightarrow> nat \<times> flat_state" where
  "push_op op st = (case dedup st op of
       Some i \<Rightarrow> (i, st)
     | None \<Rightarrow> let i = length (ops st) in
         (i, st\<lparr>ops := ops st @ [op], dedup := (dedup st)(op \<mapsto> i)\<rparr>))"

section \<open>Emission\<close>

text \<open>\<open>index.bv_width() > 64\<close> falls back; an index without a width panics.\<close>

definition index_width_ok :: "smt_expr \<Rightarrow> (stop, unit) result" where
  "index_width_ok i = rbind (or_panic (bv_width i)) (\<lambda>w. if 64 < w then Inl Fallback else Inr ())"

function (sequential) go :: "(string \<times> nat) list \<Rightarrow> smt_expr \<Rightarrow> flat_state \<Rightarrow>
    (stop, nat \<times> flat_state) result"
  and go_select :: "(string \<times> nat) list \<Rightarrow> smt_expr \<Rightarrow> nat \<Rightarrow> flat_state \<Rightarrow>
    (stop, nat \<times> flat_state) result" where
  "go inputs (Var n w) st = rbind (ok_or (position inputs n) Fallback) (\<lambda>slot. Inr (push_op (FVar slot w) st))"
| "go inputs (BvConst v w) st = 
     Inr (push_op (if 64 < w then FConst128 (ucast v) else FConst (mask64 v w)) st)"
| "go inputs (BoolConst b) st = Inr (push_op (FBoolConst b) st)"
| "go inputs (BvAdd a b w) st = 
     rbind (go inputs a st) (\<lambda>(x, st). rbind (go inputs b st) (\<lambda>(y, st). Inr (push_op (FAdd x y w) st)))"
| "go inputs (BvSub a b w) st = 
     rbind (go inputs a st) (\<lambda>(x, st). rbind (go inputs b st) (\<lambda>(y, st). Inr (push_op (FSub x y w) st)))"
| "go inputs (BvMul a b w) st = 
     rbind (go inputs a st) (\<lambda>(x, st). rbind (go inputs b st) (\<lambda>(y, st). Inr (push_op (FMul x y w) st)))"
| "go inputs (BvSDiv a b w) st = 
     rbind (go inputs a st) (\<lambda>(x, st). rbind (go inputs b st) (\<lambda>(y, st). Inr (push_op (FSDiv x y w) st)))"
| "go inputs (BvUDiv a b w) st = 
     rbind (go inputs a st) (\<lambda>(x, st). rbind (go inputs b st) (\<lambda>(y, st). Inr (push_op (FUDiv x y w) st)))"
| "go inputs (BvURem a b w) st = (if 64 < w then Inl Fallback else
     rbind (go inputs a st) (\<lambda>(x, st). rbind (go inputs b st) (\<lambda>(y, st). Inr (push_op (FURem x y w) st))))"
| "go inputs (TrapIfZero a b w) st = 
     rbind (go inputs a st) (\<lambda>(x, st). rbind (go inputs b st) (\<lambda>(y, st). Inr (push_op (FTrap x y) st)))"
| "go inputs (BvNeg a w) st = rbind (go inputs a st) (\<lambda>(x, st). Inr (push_op (FNeg x w) st))"
| "go inputs (SmtEq a b) st = 
     rbind (go inputs a st) (\<lambda>(x, st). rbind (go inputs b st) (\<lambda>(y, st). Inr (push_op (FEq x y) st)))"
| "go inputs (SmtNot a) st = rbind (go inputs a st) (\<lambda>(x, st). Inr (push_op (FNot x) st))"
| "go inputs (BvSlt a b w) st = 
     rbind (go inputs a st) (\<lambda>(x, st). rbind (go inputs b st) (\<lambda>(y, st). Inr (push_op (FSlt x y w) st)))"
| "go inputs (BvSge a b w) st = 
     rbind (go inputs a st) (\<lambda>(x, st). rbind (go inputs b st) (\<lambda>(y, st). Inr (push_op (FSge x y w) st)))"
| "go inputs (BvUge a b w) st = 
     rbind (go inputs a st) (\<lambda>(x, st). rbind (go inputs b st) (\<lambda>(y, st). Inr (push_op (FUge x y) st)))"
| "go inputs (SmtAnd a b) st = 
     rbind (go inputs a st) (\<lambda>(x, st). rbind (go inputs b st) (\<lambda>(y, st). Inr (push_op (FBAnd x y) st)))"
| "go inputs (SmtOr a b) st = 
     rbind (go inputs a st) (\<lambda>(x, st). rbind (go inputs b st) (\<lambda>(y, st). Inr (push_op (FBOr x y) st)))"
| "go inputs (BvSgt a b w) st = 
     rbind (go inputs a st) (\<lambda>(x, st). rbind (go inputs b st) (\<lambda>(y, st). Inr (push_op (FSgt x y w) st)))"
| "go inputs (BvSle a b w) st = 
     rbind (go inputs a st) (\<lambda>(x, st). rbind (go inputs b st) (\<lambda>(y, st). Inr (push_op (FSle x y w) st)))"
| "go inputs (BvUlt a b w) st = 
     rbind (go inputs a st) (\<lambda>(x, st). rbind (go inputs b st) (\<lambda>(y, st). Inr (push_op (FUlt x y) st)))"
| "go inputs (BvUgt a b w) st = 
     rbind (go inputs a st) (\<lambda>(x, st). rbind (go inputs b st) (\<lambda>(y, st). Inr (push_op (FUgt x y) st)))"
| "go inputs (BvUle a b w) st = 
     rbind (go inputs a st) (\<lambda>(x, st). rbind (go inputs b st) (\<lambda>(y, st). Inr (push_op (FUle x y) st)))"
| "go inputs (Ite c t e) st = 
     rbind (go inputs c st) (\<lambda>(x, st). rbind (go inputs t st) (\<lambda>(y, st). rbind (go inputs e st) (\<lambda>(z, st).
       Inr (push_op (FIte x y z) st))))"
| "go inputs (Extract h l a w) st = rbind (go inputs a st) (\<lambda>(x, st). Inr (push_op (FExtract x l w) st))"
| "go inputs (BvAnd a b w) st = 
     rbind (go inputs a st) (\<lambda>(x, st). rbind (go inputs b st) (\<lambda>(y, st). Inr (push_op (FAnd x y w) st)))"
| "go inputs (BvOr a b w) st = 
     rbind (go inputs a st) (\<lambda>(x, st). rbind (go inputs b st) (\<lambda>(y, st). Inr (push_op (FOr x y w) st)))"
| "go inputs (BvXor a b w) st = 
     rbind (go inputs a st) (\<lambda>(x, st). rbind (go inputs b st) (\<lambda>(y, st). Inr (push_op (FXor x y w) st)))"
| "go inputs (BvShl a b w) st = 
     rbind (go inputs a st) (\<lambda>(x, st). rbind (go inputs b st) (\<lambda>(y, st). Inr (push_op (FShl x y w) st)))"
| "go inputs (BvLshr a b w) st = 
     rbind (go inputs a st) (\<lambda>(x, st). rbind (go inputs b st) (\<lambda>(y, st). Inr (push_op (FLshr x y w) st)))"
| "go inputs (BvAshr a b w) st = 
     rbind (go inputs a st) (\<lambda>(x, st). rbind (go inputs b st) (\<lambda>(y, st). Inr (push_op (FAshr x y w) st)))"
| "go inputs (Concat a b w) st = rbind (or_panic (bv_width b)) (\<lambda>lw.
     rbind (go inputs a st) (\<lambda>(x, st). rbind (go inputs b st) (\<lambda>(y, st). Inr (push_op (FConcat x y lw w) st))))"
| "go inputs (ZeroExtend a n w) st = rbind (go inputs a st) (\<lambda>(x, st). Inr (push_op (FZExt x w) st))"
| "go inputs (SignExtend a n w) st = rbind (go inputs a st) (\<lambda>(x, st).
     if w < n then Inl (Panicked (SmtPanic ''attempt to subtract with overflow''))
     else Inr (push_op (FSExt x (w - n) w) st))"
| "go inputs (Select a i) st = rbind (index_width_ok i) (\<lambda>_.
     rbind (go inputs i st) (\<lambda>(x, st). go_select inputs a x st))"
| "go inputs (MemLoad a lb s rw) st = rbind (go inputs a st) (\<lambda>(x, st). Inr (push_op (FMemLoad x lb s rw) st))"
| "go inputs _ st = Inl Fallback"
| "go_select inputs (ConstArray s v) sel st = go inputs v st"
| "go_select inputs (Store a i v) sel st = rbind (index_width_ok i) (\<lambda>_.
     rbind (go inputs i st) (\<lambda>(x, st). rbind (go inputs v st) (\<lambda>(y, st).
       rbind (go_select inputs a sel st) (\<lambda>(z, st).
         let (same, st) = push_op (FEq x sel) st in Inr (push_op (FIte same y z) st)))))"
| "go_select inputs (Ite c t e) sel st =
     rbind (go inputs c st) (\<lambda>(x, st). rbind (go_select inputs t sel st) (\<lambda>(y, st).
       rbind (go_select inputs e sel st) (\<lambda>(z, st). Inr (push_op (FIte x y z) st))))"
| "go_select inputs _ sel st = Inl Fallback"
  by pat_completeness auto
termination
  by (relation "measure (case_sum (\<lambda>(_, e, _). size e) (\<lambda>(_, e, _). size e))") auto

definition flat_compile :: "(string \<times> nat) list \<Rightarrow> smt_expr \<Rightarrow> (stop, flat_prog) result" where
  "flat_compile inputs e = rbind (go inputs e \<lparr>ops = [], dedup = Map.empty\<rparr>) (\<lambda>(r, st).
     Inr \<lparr>prog_ops = ops st, root = r\<rparr>)"

section \<open>Execution\<close>

text \<open>The arms of \<open>FlatProg::eval\<close>, on tape values.\<close>

definition s_bv_op :: "(u64 \<Rightarrow> u64 \<Rightarrow> u64) \<Rightarrow> (u128 \<Rightarrow> u128 \<Rightarrow> u128) \<Rightarrow> nat \<Rightarrow>
    sval \<Rightarrow> sval \<Rightarrow> (smt_error, sval) result" where
  "s_bv_op f g w x y = Inr (if 64 < w then SBv128 (mask128 (g (sv_as_u128 x) (sv_as_u128 y)) w)
     else SBv (mask64 (f (sv_as_u64 x) (sv_as_u64 y)) w))"

definition s_sdiv_op :: "nat \<Rightarrow> sval \<Rightarrow> sval \<Rightarrow> (smt_error, sval) result" where
  "s_sdiv_op w x y = Inr (if 64 < w then
       let a = sign_extend128 (sv_as_u128 x) w; b = sign_extend128 (sv_as_u128 y) w in
       if b = 0 then SBv128 0
       else if a = - (2 ^ 127) \<and> b = - 1 \<and> 128 \<le> w then SBv128 (mask128 (word_of_int a) w)
       else SBv128 (mask128 (word_of_int (a sdiv b)) w)
     else
       let a = sign_extend (sv_as_u64 x) w; b = sign_extend (sv_as_u64 y) w in
       if b = 0 then SBv 0
       else if a = - (2 ^ 63) \<and> b = - 1 \<and> w = 64 then SBv (mask64 (word_of_int a) w)
       else SBv (mask64 (word_of_int (a sdiv b)) w))"

definition s_udiv_op :: "nat \<Rightarrow> sval \<Rightarrow> sval \<Rightarrow> (smt_error, sval) result" where
  "s_udiv_op w x y = Inr (if 64 < w then
       let a = sv_as_u128 x; b = sv_as_u128 y in
       SBv128 (if b = 0 then 0 else mask128 (a div b) w)
     else
       let a = sv_as_u64 x; b = sv_as_u64 y in
       SBv (if b = 0 then 0 else mask64 (a div b) w))"

definition s_urem_op :: "nat \<Rightarrow> sval \<Rightarrow> sval \<Rightarrow> (smt_error, sval) result" where
  "s_urem_op w x y = (let a = sv_as_u64 x; b = sv_as_u64 y in
     Inr (if b = 0 then SBv (mask64 a w) else SBv (mask64 (a mod b) w)))"

definition s_shl_op :: "nat \<Rightarrow> sval \<Rightarrow> sval \<Rightarrow> (smt_error, sval) result" where
  "s_shl_op w x y = (if 64 < w then
       let a = sv_as_u128 x; b = sv_as_u128 y in
       if w \<le> unat b then Inr (SBv128 0)
       else if 128 \<le> unat b then Inl shl_overflow
       else Inr (SBv128 (mask128 (push_bit (unat b) a) w))
     else
       let a = sv_as_u64 x; b = sv_as_u64 y in
       if w \<le> unat b then Inr (SBv 0)
       else Inr (SBv (mask64 (push_bit (unat b) a) w)))"

definition s_lshr_op :: "nat \<Rightarrow> sval \<Rightarrow> sval \<Rightarrow> (smt_error, sval) result" where
  "s_lshr_op w x y = (if 64 < w then
       let a = sv_as_u128 x; b = sv_as_u128 y in
       if w \<le> unat b then Inr (SBv128 0)
       else if 128 \<le> unat b then Inl shr_overflow
       else Inr (SBv128 (mask128 (drop_bit (unat b) a) w))
     else
       let a = sv_as_u64 x; b = sv_as_u64 y in
       if w \<le> unat b then Inr (SBv 0)
       else Inr (SBv (mask64 (drop_bit (unat b) a) w)))"

definition s_ashr_op :: "nat \<Rightarrow> sval \<Rightarrow> sval \<Rightarrow> (smt_error, sval) result" where
  "s_ashr_op w x y = (if 64 < w then
       let a = sign_extend128 (sv_as_u128 x) w; b = sv_as_u128 y in
       if w \<le> unat b then Inr (SBv128 (if a < 0 then mask128 (- 1) w else 0))
       else if 128 \<le> unat b then Inl shr_overflow
       else Inr (SBv128 (mask128 (word_of_int (a div 2 ^ unat b)) w))
     else
       let a = sign_extend (sv_as_u64 x) w; b = sv_as_u64 y in
       if w \<le> unat b then Inr (SBv (if a < 0 then mask64 (- 1) w else 0))
       else Inr (SBv (mask64 (word_of_int (a div 2 ^ unat b)) w)))"

definition s_neg_op :: "nat \<Rightarrow> sval \<Rightarrow> (smt_error, sval) result" where
  "s_neg_op w x = Inr (if 64 < w then SBv128 (mask128 (NOT (sv_as_u128 x) + 1) w)
     else SBv (mask64 (NOT (sv_as_u64 x) + 1) w))"

definition s_scmp_op :: "(int \<Rightarrow> int \<Rightarrow> bool) \<Rightarrow> nat \<Rightarrow> sval \<Rightarrow> sval \<Rightarrow>
    (smt_error, sval) result" where
  "s_scmp_op r w x y = Inr (SBoolV (r (sign_extend (sv_as_u64 x) w) (sign_extend (sv_as_u64 y) w)))"

definition s_ucmp_op :: "(u64 \<Rightarrow> u64 \<Rightarrow> bool) \<Rightarrow> sval \<Rightarrow> sval \<Rightarrow>
    (smt_error, sval) result" where
  "s_ucmp_op r x y = Inr (SBoolV (r (sv_as_u64 x) (sv_as_u64 y)))"

definition s_extract_op :: "nat \<Rightarrow> nat \<Rightarrow> sval \<Rightarrow> (smt_error, sval) result" where
  "s_extract_op low w x = (let v = sv_as_u128 x in
     if 128 \<le> low then Inl shr_overflow
     else Inr (SBv (ucast (drop_bit low v AND mask128 (- 1) w))))"

definition s_concat_op :: "nat \<Rightarrow> nat \<Rightarrow> sval \<Rightarrow> sval \<Rightarrow>
    (smt_error, sval) result" where
  "s_concat_op lo_width w x y =
     (if 128 \<le> lo_width then Inl shl_overflow
      else let r = mask128 (push_bit lo_width (sv_as_u128 x) OR sv_as_u128 y) w in
        Inr (if w \<le> 64 then SBv (ucast r) else SBv128 r))"

definition s_zext_op :: "nat \<Rightarrow> sval \<Rightarrow> (smt_error, sval) result" where
  "s_zext_op w x = (let v = sv_as_u128 x in
     Inr (if 64 < w then SBv128 (mask128 v w) else SBv (mask64 (ucast v) w)))"

definition s_sext_op :: "nat \<Rightarrow> nat \<Rightarrow> sval \<Rightarrow> (smt_error, sval) result" where
  "s_sext_op src_width w x = Inr (if 64 < w
     then SBv128 (mask128 (word_of_int (sign_extend128 (sv_as_u128 x) src_width)) w)
     else SBv (mask64 (word_of_int (sign_extend (sv_as_u64 x) src_width)) w))"

definition s_mem_load_op :: "nat \<Rightarrow> bool \<Rightarrow> nat \<Rightarrow> sval \<Rightarrow> (smt_error, sval) result" where
  "s_mem_load_op load_bits is_signed result_width x =
     (let raw = mask64 (mem_load_mix (sv_as_u64 x)) load_bits in
      Inr (SBv (if is_signed then mask64 (word_of_int (sign_extend raw load_bits)) result_width
               else mask64 raw result_width)))"

text \<open>\<open>scratch[i]\<close>, an index past the end being a panic.\<close>

definition slot :: "sval list \<Rightarrow> nat \<Rightarrow> (smt_error, sval) result" where
  "slot scratch i = (if i < length scratch then Inr (scratch ! i) else Inl index_panic)"

abbreviation slot2 :: "sval list \<Rightarrow> nat \<Rightarrow> nat \<Rightarrow> (sval \<Rightarrow> sval \<Rightarrow> (smt_error, sval) result) \<Rightarrow>
    (smt_error, sval) result" where
  "slot2 sc a b f \<equiv> rbind (slot sc a) (\<lambda>x. rbind (slot sc b) (\<lambda>y. f x y))"

primrec flat_step :: "eval_env \<Rightarrow> sval list \<Rightarrow> flat_op \<Rightarrow> (smt_error, sval) result" where
  "flat_step env sc (FConst v) = Inr (SBv v)"
| "flat_step env sc (FConst128 v) = Inr (SBv128 v)"
| "flat_step env sc (FBoolConst b) = Inr (SBoolV b)"
| "flat_step env sc (FVar i w) = rbind (ok_or (value_at env i) index_panic) (\<lambda>v. Inr (SBv (mask64 v w)))"
| "flat_step env sc (FAdd a b w) = slot2 sc a b (s_bv_op (+) (+) w)"
| "flat_step env sc (FSub a b w) = slot2 sc a b (s_bv_op (-) (-) w)"
| "flat_step env sc (FMul a b w) = slot2 sc a b (s_bv_op (*) (*) w)"
| "flat_step env sc (FAnd a b w) = slot2 sc a b (s_bv_op (AND) (AND) w)"
| "flat_step env sc (FOr a b w) = slot2 sc a b (s_bv_op (OR) (OR) w)"
| "flat_step env sc (FXor a b w) = slot2 sc a b (s_bv_op (XOR) (XOR) w)"
| "flat_step env sc (FShl a b w) = slot2 sc a b (s_shl_op w)"
| "flat_step env sc (FLshr a b w) = slot2 sc a b (s_lshr_op w)"
| "flat_step env sc (FAshr a b w) = slot2 sc a b (s_ashr_op w)"
| "flat_step env sc (FSDiv a b w) = slot2 sc a b (s_sdiv_op w)"
| "flat_step env sc (FUDiv a b w) = slot2 sc a b (s_udiv_op w)"
| "flat_step env sc (FURem a b w) = slot2 sc a b (s_urem_op w)"
| "flat_step env sc (FNeg a w) = rbind (slot sc a) (s_neg_op w)"
| "flat_step env sc (FTrap g v) = rbind (slot sc g) (\<lambda>x.
     if x = SPoison \<or> sv_as_u128 x = 0 then Inr SPoison else slot sc v)"
| "flat_step env sc (FEq a b) = slot2 sc a b (\<lambda>x y. Inr (SBoolV (x = y)))"
| "flat_step env sc (FNot a) = rbind (slot sc a) (\<lambda>x. Inr (SBoolV (\<not> sv_as_bool x)))"
| "flat_step env sc (FSlt a b w) = slot2 sc a b (s_scmp_op (<) w)"
| "flat_step env sc (FSge a b w) = slot2 sc a b (s_scmp_op (\<ge>) w)"
| "flat_step env sc (FUge a b) = slot2 sc a b (s_ucmp_op (\<ge>))"
| "flat_step env sc (FSgt a b w) = slot2 sc a b (s_scmp_op (>) w)"
| "flat_step env sc (FSle a b w) = slot2 sc a b (s_scmp_op (\<le>) w)"
| "flat_step env sc (FUlt a b) = slot2 sc a b (s_ucmp_op (<))"
| "flat_step env sc (FUgt a b) = slot2 sc a b (s_ucmp_op (>))"
| "flat_step env sc (FUle a b) = slot2 sc a b (s_ucmp_op (\<le>))"
| "flat_step env sc (FBAnd a b) = rbind (slot sc a) (\<lambda>x. if sv_as_bool x
     then rbind (slot sc b) (\<lambda>y. Inr (SBoolV (sv_as_bool y))) else Inr (SBoolV False))"
| "flat_step env sc (FBOr a b) = rbind (slot sc a) (\<lambda>x. if sv_as_bool x then Inr (SBoolV True)
     else rbind (slot sc b) (\<lambda>y. Inr (SBoolV (sv_as_bool y))))"
| "flat_step env sc (FIte c t e) = rbind (slot sc c) (\<lambda>x. if sv_as_bool x then slot sc t else slot sc e)"
| "flat_step env sc (FExtract a l w) = rbind (slot sc a) (s_extract_op l w)"
| "flat_step env sc (FConcat a b lw w) = slot2 sc a b (s_concat_op lw w)"
| "flat_step env sc (FZExt a w) = rbind (slot sc a) (s_zext_op w)"
| "flat_step env sc (FSExt a n w) = rbind (slot sc a) (s_sext_op n w)"
| "flat_step env sc (FMemLoad a lb s rw) = rbind (slot sc a) (s_mem_load_op lb s rw)"

primrec flat_run :: "eval_env \<Rightarrow> sval list \<Rightarrow> flat_op list \<Rightarrow> (smt_error, sval list) result" where
  "flat_run env sc [] = Inr sc"
| "flat_run env sc (op # rest) = rbind (flat_step env sc op) (\<lambda>v. flat_run env (sc @ [v]) rest)"

definition flat_eval :: "flat_prog \<Rightarrow> eval_env \<Rightarrow> (smt_error, eval_result) result" where
  "flat_eval p env = rbind (flat_run env [] (prog_ops p)) (\<lambda>sc.
     rbind (slot sc (root p)) (\<lambda>v. Inr (to_eval v)))"

end
