(* ===== verification/Smt_Flat_Correct.thy ===== *)
theory Smt_Flat_Correct
  imports Smt_Flat "HOL-Library.Sublist"
begin

text \<open>
  Correctness of \<open>FlatProg\<close>: the tape of a well-sorted expression runs without a
  panic and gives the value \<open>try_eval\<close> gives, provided no array index is a trap.
\<close>

section \<open>The index condition\<close>

text \<open>The indices of all reads and writes of an expression.\<close>

primrec index_exprs :: "smt_expr \<Rightarrow> smt_expr list" where
  "index_exprs (Var n w) = []"
| "index_exprs (BvConst v w) = []"
| "index_exprs (BoolConst b) = []"
| "index_exprs (BvAdd a b w) = index_exprs a @ index_exprs b"
| "index_exprs (BvSub a b w) = index_exprs a @ index_exprs b"
| "index_exprs (BvMul a b w) = index_exprs a @ index_exprs b"
| "index_exprs (BvSDiv a b w) = index_exprs a @ index_exprs b"
| "index_exprs (BvUDiv a b w) = index_exprs a @ index_exprs b"
| "index_exprs (BvURem a b w) = index_exprs a @ index_exprs b"
| "index_exprs (TrapIfZero g v w) = index_exprs g @ index_exprs v"
| "index_exprs (BvNeg a w) = index_exprs a"
| "index_exprs (SmtEq a b) = index_exprs a @ index_exprs b"
| "index_exprs (SmtNot a) = index_exprs a"
| "index_exprs (BvSlt a b w) = index_exprs a @ index_exprs b"
| "index_exprs (BvSge a b w) = index_exprs a @ index_exprs b"
| "index_exprs (BvUge a b w) = index_exprs a @ index_exprs b"
| "index_exprs (SmtAnd a b) = index_exprs a @ index_exprs b"
| "index_exprs (SmtOr a b) = index_exprs a @ index_exprs b"
| "index_exprs (BvSgt a b w) = index_exprs a @ index_exprs b"
| "index_exprs (BvSle a b w) = index_exprs a @ index_exprs b"
| "index_exprs (BvUlt a b w) = index_exprs a @ index_exprs b"
| "index_exprs (BvUgt a b w) = index_exprs a @ index_exprs b"
| "index_exprs (BvUle a b w) = index_exprs a @ index_exprs b"
| "index_exprs (Ite c t e) = index_exprs c @ index_exprs t @ index_exprs e"
| "index_exprs (Extract h l a w) = index_exprs a"
| "index_exprs (BvAnd a b w) = index_exprs a @ index_exprs b"
| "index_exprs (BvOr a b w) = index_exprs a @ index_exprs b"
| "index_exprs (BvXor a b w) = index_exprs a @ index_exprs b"
| "index_exprs (BvShl a b w) = index_exprs a @ index_exprs b"
| "index_exprs (BvLshr a b w) = index_exprs a @ index_exprs b"
| "index_exprs (BvAshr a b w) = index_exprs a @ index_exprs b"
| "index_exprs (Concat a b w) = index_exprs a @ index_exprs b"
| "index_exprs (ZeroExtend a x w) = index_exprs a"
| "index_exprs (SignExtend a x w) = index_exprs a"
| "index_exprs (Select a i) = i # index_exprs a @ index_exprs i"
| "index_exprs (Store a i v) = i # index_exprs a @ index_exprs i @ index_exprs v"
| "index_exprs (ConstArray s v) = index_exprs v"
| "index_exprs (MemLoad a lb s rw) = index_exprs a"
| "index_exprs (UF n as s) = concat (map index_exprs as)"
| "index_exprs (UFDecl n as s) = []"
| "index_exprs (ForAll v vw lo hi b) = index_exprs lo @ index_exprs hi @ index_exprs b"
| "index_exprs (Exists v vw lo hi b) = index_exprs lo @ index_exprs hi @ index_exprs b"

definition no_trap_index :: "smt_expr \<Rightarrow> eval_env \<Rightarrow> bool" where
  "no_trap_index e env =
     list_all (\<lambda>i. try_eval vec_get_var vec_set_var i env \<noteq> Inr Poison) (index_exprs e)"

section \<open>Running a tape\<close>

lemma flat_run_append: "flat_run env sc (xs @ ys) = rbind (flat_run env sc xs) (\<lambda>sc'. flat_run env sc' ys)"
proof (induction xs arbitrary: sc)
  case (Cons op xs)
  then show ?case by (cases "flat_step env sc op") auto
qed simp

lemma flat_run_length: "flat_run env sc xs = Inr sc' \<Longrightarrow> length sc' = length sc + length xs"
  by (induction xs arbitrary: sc) auto

lemma slot_prefix: "\<lbrakk>prefix sc sc'; slot sc i = Inr v\<rbrakk> \<Longrightarrow> slot sc' i = Inr v"
  by (auto simp: slot_def prefix_def nth_append split: if_splits)

lemma flat_step_prefix: "\<lbrakk>prefix sc sc'; flat_step env sc op = Inr v\<rbrakk> \<Longrightarrow> flat_step env sc' op = Inr v"
  by (cases op) (auto simp: slot_prefix split: if_splits)

lemma flat_run_nth:
  "\<lbrakk>flat_run env [] xs = Inr sc; i < length xs\<rbrakk> \<Longrightarrow> flat_step env (take i sc) (xs ! i) = Inr (sc ! i)"
proof (induction xs arbitrary: sc i rule: rev_induct)
  case (snoc op xs)
  then obtain sc0 v where run: "flat_run env [] xs = Inr sc0" and v: "flat_step env sc0 op = Inr v"
    and sc: "sc = sc0 @ [v]" by (auto simp: flat_run_append)
  have len: "length sc0 = length xs" using flat_run_length[OF run] by simp
  show ?case
  proof (cases "i < length xs")
    case True
    with snoc.IH[OF run True] len show ?thesis by (simp add: sc nth_append)
  next
    case False
    with snoc.prems(2) len v show ?thesis by (simp add: sc nth_append less_Suc_eq)
  qed
qed simp

section \<open>Emission appends a correct value\<close>

definition good :: "eval_env \<Rightarrow> flat_state \<Rightarrow> sval list \<Rightarrow> bool" where
  "good env st sc \<longleftrightarrow> (\<forall>op i. dedup st op = Some i \<longrightarrow> i < length (ops st) \<and> ops st ! i = op)
     \<and> flat_run env [] (ops st) = Inr sc"

definition emits :: "eval_env \<Rightarrow> sval list \<Rightarrow> (stop, nat \<times> flat_state) result \<Rightarrow>
    (smt_error, eval_result) result \<Rightarrow> smt_sort \<Rightarrow> bool" where
  "emits env sc r ev s \<longleftrightarrow> (\<forall>i st'. r = Inr (i, st') \<longrightarrow>
     (\<exists>sc' v. good env st' sc' \<and> prefix sc sc' \<and> slot sc' i = Inr v \<and> ev = Inr (to_eval v)
        \<and> val_sort s (to_eval v)))"

lemma emitsI:
  assumes "\<And>i st'. r = Inr (i, st') \<Longrightarrow>
    \<exists>sc' v. good env st' sc' \<and> prefix sc sc' \<and> slot sc' i = Inr v \<and> ev = Inr (to_eval v) \<and> val_sort s (to_eval v)"
  shows "emits env sc r ev s"
  using assms by (simp add: emits_def)

lemma emitsE:
  assumes "emits env sc r ev s" and "r = Inr (i, st')"
  obtains sc' v where "good env st' sc'" and "prefix sc sc'" and "slot sc' i = Inr v"
    and "ev = Inr (to_eval v)" and "val_sort s (to_eval v)"
  using assms by (auto simp: emits_def)

lemma emits_bind:
  assumes r: "emits env sc r evx sx"
    and f: "\<And>i st' sc' v. \<lbrakk>good env st' sc'; prefix sc sc'; slot sc' i = Inr v; evx = Inr (to_eval v);
      val_sort sx (to_eval v)\<rbrakk> \<Longrightarrow> emits env sc' (f (i, st')) ev s"
  shows "emits env sc (rbind r f) ev s"
proof (rule emitsI)
  fix j st2
  assume "rbind r f = Inr (j, st2)"
  then obtain i st' where ri: "r = Inr (i, st')" and fj: "f (i, st') = Inr (j, st2)" by auto
  from r ri obtain sc' v where sc': "good env st' sc'" "prefix sc sc'" "slot sc' i = Inr v"
    "evx = Inr (to_eval v)" "val_sort sx (to_eval v)" by (rule emitsE)
  from f[OF this] fj obtain sc2 u where "good env st2 sc2" "prefix sc' sc2" "slot sc2 j = Inr u"
    "ev = Inr (to_eval u)" "val_sort s (to_eval u)" by (rule emitsE)
  with sc'(2) show "\<exists>sc' v. good env st2 sc' \<and> prefix sc sc' \<and> slot sc' j = Inr v \<and> ev = Inr (to_eval v)
      \<and> val_sort s (to_eval v)"
    using prefix_order.trans by blast
qed

lemma good_push_op:
  assumes "good env st sc" and v: "flat_step env sc op = Inr v" and push: "push_op op st = (i, st')"
  shows "\<exists>sc'. good env st' sc' \<and> prefix sc sc' \<and> slot sc' i = Inr v"
proof -
  from assms(1) have run: "flat_run env [] (ops st) = Inr sc"
    and dd: "\<And>op i. dedup st op = Some i \<Longrightarrow> i < length (ops st) \<and> ops st ! i = op" by (auto simp: good_def)
  have len: "length sc = length (ops st)" using flat_run_length[OF run] by simp
  show ?thesis
  proof (cases "dedup st op")
    case None
    with push have st': "st' = st\<lparr>ops := ops st @ [op], dedup := (dedup st)(op \<mapsto> i)\<rparr>" "i = length (ops st)"
      by (auto simp: push_op_def Let_def)
    have "good env st' (sc @ [v])"
      using dd by (auto simp: good_def st' flat_run_append run v nth_append less_SucI)
    moreover have "slot (sc @ [v]) i = Inr v" by (simp add: slot_def st' len nth_append)
    ultimately show ?thesis by (intro exI[of _ "sc @ [v]"]) auto
  next
    case (Some j)
    with push have st': "st' = st" "i = j" by (auto simp: push_op_def)
    from dd[OF Some] flat_run_nth[OF run, of j] have "flat_step env (take j sc) op = Inr (sc ! j)" by simp
    from flat_step_prefix[OF take_is_prefix this] v have "sc ! j = v" by simp
    with assms(1) dd[OF Some] len show ?thesis by (auto simp: st' slot_def)
  qed
qed

lemma emits_push_op:
  assumes "good env st sc" and "ev = map_sum id to_eval (flat_step env sc op)" and "ok_sort s ev"
  shows "emits env sc (Inr (push_op op st)) ev s"
proof (rule emitsI)
  fix i st' assume "Inr (push_op op st) = (Inr (i, st') :: (stop, nat \<times> flat_state) result)"
  moreover from assms(2,3) obtain v where "flat_step env sc op = Inr v" "ev = Inr (to_eval v)"
    "val_sort s (to_eval v)" by (cases "flat_step env sc op") (auto simp: ok_sort_def)
  ultimately show "\<exists>sc' v. good env st' sc' \<and> prefix sc sc' \<and> slot sc' i = Inr v \<and> ev = Inr (to_eval v)
      \<and> val_sort s (to_eval v)"
    using good_push_op[OF assms(1)] by (metis Inr_inject)
qed

lemma to_eval_projections [simp]:
  "as_u64 (to_eval v) = sv_as_u64 v" "as_u128 (to_eval v) = sv_as_u128 v"
  "as_bool (to_eval v) = sv_as_bool v" "to_eval v = Poison \<longleftrightarrow> v = SPoison"
  "to_eval v = to_eval u \<longleftrightarrow> v = u"
  by (cases v; cases u; simp)+

lemma s_ops [simp]:
  "map_sum id to_eval (s_bv_op f g w x y) = bv_op f g w (to_eval x) (to_eval y)"
  "map_sum id to_eval (s_sdiv_op w x y) = sdiv_op w (to_eval x) (to_eval y)"
  "map_sum id to_eval (s_udiv_op w x y) = udiv_op w (to_eval x) (to_eval y)"
  "map_sum id to_eval (s_urem_op w x y) = urem_op w (to_eval x) (to_eval y)"
  "map_sum id to_eval (s_shl_op w x y) = shl_op w (to_eval x) (to_eval y)"
  "map_sum id to_eval (s_lshr_op w x y) = lshr_op w (to_eval x) (to_eval y)"
  "map_sum id to_eval (s_ashr_op w x y) = ashr_op w (to_eval x) (to_eval y)"
  "map_sum id to_eval (s_neg_op w x) = neg_op w (to_eval x)"
  "map_sum id to_eval (s_scmp_op r w x y) = scmp_op r w (to_eval x) (to_eval y)"
  "map_sum id to_eval (s_ucmp_op r' x y) = ucmp_op r' (to_eval x) (to_eval y)"
  "map_sum id to_eval (s_extract_op l w x) = extract_op l w (to_eval x)"
  "map_sum id to_eval (s_concat_op l w x y) = concat_op l w (to_eval x) (to_eval y)"
  "map_sum id to_eval (s_zext_op w x) = zext_op w (to_eval x)"
  "map_sum id to_eval (s_sext_op l w x) = sext_op l w (to_eval x)"
  "map_sum id to_eval (s_mem_load_op l sg w x) = mem_load_op l sg w (to_eval x)"
  by (auto simp: op_defs Let_def s_bv_op_def s_sdiv_op_def s_udiv_op_def s_urem_op_def s_shl_op_def
    s_lshr_op_def s_ashr_op_def s_neg_op_def s_scmp_op_def s_ucmp_op_def s_extract_op_def
    s_concat_op_def s_zext_op_def s_sext_op_def s_mem_load_op_def)

lemma ok_sort_leaf [simp]:
  "ok_sort s (Inr v) = val_sort s v"
  "ok_sort SBool (scmp_op r w x y)" "ok_sort SBool (ucmp_op r' x y)"
  by (simp_all add: ok_sort_def scmp_op_def ucmp_op_def)

lemma index_value:
  "\<lbrakk>val_sort (BitVec n) (to_eval v); n \<le> 64; v \<noteq> SPoison\<rbrakk> \<Longrightarrow> \<exists>k. v = SBv k"
  by (cases v) auto

text \<open>
  \<open>go_ok\<close>: \<open>go\<close> appends the value of \<open>e\<close> to every good state. The lemmas
  \<open>emits1\<close> to \<open>emits3\<close> run a node of one, two or three operands.
\<close>

abbreviation ev :: "smt_expr \<Rightarrow> eval_env \<Rightarrow> (smt_error, eval_result) result" where
  "ev \<equiv> try_eval vec_get_var vec_set_var"

definition go_ok :: "(string \<times> nat) list \<Rightarrow> eval_env \<Rightarrow> smt_expr \<Rightarrow> smt_sort \<Rightarrow> bool" where
  "go_ok inputs env e s \<longleftrightarrow>
     (\<forall>st sc. good env st sc \<longrightarrow> emits env sc (go inputs e st) (ev e env) s)"

definition sel_ok :: "(string \<times> nat) list \<Rightarrow> eval_env \<Rightarrow> smt_expr \<Rightarrow> smt_sort \<Rightarrow> bool" where
  "sel_ok inputs env e s \<longleftrightarrow> (\<forall>st sc n t sel k. s = SArray (BitVec n) t \<longrightarrow> good env st sc \<longrightarrow>
     slot sc sel = Inr (SBv k) \<longrightarrow>
     emits env sc (go_select inputs e sel st) (rbind (ev e env) (\<lambda>arr. select_op arr (Bv k))) t)"

lemma emits_go:
  assumes "go_ok inputs env a sa" and "good env st sc"
    and "\<And>x v st' sc'. \<lbrakk>good env st' sc'; prefix sc sc'; slot sc' x = Inr v; ev a env = Inr (to_eval v);
      val_sort sa (to_eval v)\<rbrakk> \<Longrightarrow> emits env sc' (f (x, st')) r s"
  shows "emits env sc (rbind (go inputs a st) f) r s"
  using assms(1,2) by (intro emits_bind[where sx = sa and evx = "ev a env"] assms(3)) (auto simp: go_ok_def)

lemma go_ok1:
  assumes a: "go_ok inputs env a sa"
    and go: "\<And>st. go inputs e st = rbind (go inputs a st) (\<lambda>(x, st). Inr (push_op (F x) st))"
    and op: "\<And>x v sc. \<lbrakk>slot sc x = Inr v; ev a env = Inr (to_eval v); val_sort sa (to_eval v)\<rbrakk>
      \<Longrightarrow> map_sum id to_eval (flat_step env sc (F x)) = ev e env \<and> ok_sort s (ev e env)"
  shows "go_ok inputs env e s"
  unfolding go_ok_def
proof (intro allI impI)
  fix st sc assume "good env st sc"
  then show "emits env sc (go inputs e st) (ev e env) s"
    unfolding go by (rule emits_go[OF a]) (simp, rule emits_push_op; simp add: op)
qed

lemma go_ok2:
  assumes a: "go_ok inputs env a sa" and b: "go_ok inputs env b sb"
    and go: "\<And>st. go inputs e st = rbind (go inputs a st) (\<lambda>(x, st). rbind (go inputs b st) (\<lambda>(y, st).
      Inr (push_op (F x y) st)))"
    and op: "\<And>x y v u sc. \<lbrakk>slot sc x = Inr v; slot sc y = Inr u; ev a env = Inr (to_eval v);
      ev b env = Inr (to_eval u); val_sort sa (to_eval v); val_sort sb (to_eval u)\<rbrakk>
      \<Longrightarrow> map_sum id to_eval (flat_step env sc (F x y)) = ev e env \<and> ok_sort s (ev e env)"
  shows "go_ok inputs env e s"
  unfolding go_ok_def
proof (intro allI impI)
  fix st sc assume "good env st sc"
  then show "emits env sc (go inputs e st) (ev e env) s"
    unfolding go
  proof (rule emits_go[OF a], clarsimp)
    fix x v st' sc'
    assume x: "slot sc' x = Inr v" "ev a env = Inr (to_eval v)" "val_sort sa (to_eval v)"
    assume "good env st' sc'"
    then show "emits env sc' (rbind (go inputs b st') (\<lambda>(y, st). Inr (push_op (F x y) st))) (ev e env) s"
      using op[OF slot_prefix[OF _ x(1)] _ x(2) _ x(3)]
      by (elim emits_go[OF b]) (simp, rule emits_push_op; simp)
  qed
qed

text \<open>The facts that run one tape operation next to its arm of \<open>try_eval\<close>.\<close>

lemmas tape_simps = flat_step.simps try_eval.simps rbind_simps s_ops to_eval_projections
  map_sum.simps to_eval.simps id_apply simp_thms ok_sort_leaf op_sorts val_sort.simps(2)
  eval_result.case

lemma sel_ok_scalar [simp]: "sel_ok inputs env e (BitVec w)" "sel_ok inputs env e SBool"
  by (simp_all add: sel_ok_def)

lemma go_ok_leaf:
  assumes "\<And>st. go inputs e st = Inr (push_op op st)"
    and "\<And>sc. map_sum id to_eval (flat_step env sc op) = ev e env" and "ok_sort s (ev e env)"
  shows "go_ok inputs env e s"
  unfolding go_ok_def assms(1) using assms(2,3) by (auto intro!: emits_push_op)

lemma go_ok_Var:
  assumes "aligned inputs env" and "w \<le> 64"
  shows "go_ok inputs env (Var n w) (BitVec w)"
proof (cases "position inputs n")
  case None
  then show ?thesis by (simp add: go_ok_def emits_def)
next
  case (Some i)
  with value_at_position(1)[OF assms(1)] obtain v where "env_get env n = Some v" "value_at env i = Some v"
    by blast
  with Some assms(2) show ?thesis
    by (intro go_ok_leaf[where op = "FVar i w"]) (simp_all add: vec_get_var_def)
qed

lemma go_ok_bin:
  assumes "go_ok inputs env a (BitVec w)" and "go_ok inputs env b (BitVec w)" and w: "w \<le> 128"
  shows "go_ok inputs env (BvAdd a b w) (BitVec w)"
    and "go_ok inputs env (BvSub a b w) (BitVec w)"
    and "go_ok inputs env (BvMul a b w) (BitVec w)"
    and "go_ok inputs env (BvSDiv a b w) (BitVec w)"
    and "go_ok inputs env (BvUDiv a b w) (BitVec w)"
    and "go_ok inputs env (BvAnd a b w) (BitVec w)"
    and "go_ok inputs env (BvOr a b w) (BitVec w)"
    and "go_ok inputs env (BvXor a b w) (BitVec w)"
    and "go_ok inputs env (BvShl a b w) (BitVec w)"
    and "go_ok inputs env (BvLshr a b w) (BitVec w)"
    and "go_ok inputs env (BvAshr a b w) (BitVec w)"
  by ((rule go_ok2[OF assms(1,2)], rule go.simps, simp only: tape_simps w)+)

lemma go_ok_cmp:
  assumes "go_ok inputs env a (BitVec w)" and "go_ok inputs env b (BitVec w)"
  shows "go_ok inputs env (BvSlt a b w) SBool"
    and "go_ok inputs env (BvSge a b w) SBool"
    and "go_ok inputs env (BvSgt a b w) SBool"
    and "go_ok inputs env (BvSle a b w) SBool"
    and "go_ok inputs env (BvUlt a b w) SBool"
    and "go_ok inputs env (BvUge a b w) SBool"
    and "go_ok inputs env (BvUgt a b w) SBool"
    and "go_ok inputs env (BvUle a b w) SBool"
  by ((rule go_ok2[OF assms], rule go.simps, simp only: tape_simps)+)

lemma go_ok_logic:
  assumes "go_ok inputs env a sa" and "go_ok inputs env b sb"
  shows "go_ok inputs env (SmtAnd a b) SBool" and "go_ok inputs env (SmtOr a b) SBool"
    and "go_ok inputs env (SmtEq a b) SBool"
    and "sb = BitVec w \<Longrightarrow> go_ok inputs env (TrapIfZero a b w) (BitVec w)"
  by ((rule go_ok2[OF assms], rule go.simps, simp only: tape_simps split: if_split; simp)+)

lemma go_ok_unary:
  assumes "go_ok inputs env a sa"
  shows "w \<le> 128 \<Longrightarrow> go_ok inputs env (BvNeg a w) (BitVec w)"
    and "w \<le> 128 \<Longrightarrow> go_ok inputs env (ZeroExtend a n w) (BitVec w)"
    and "go_ok inputs env (SmtNot a) SBool"
    and "l < 128 \<Longrightarrow> w \<le> 64 \<Longrightarrow> go_ok inputs env (Extract h l a w) (BitVec w)"
    and "w \<le> 64 \<Longrightarrow> go_ok inputs env (MemLoad a lb sg w) (BitVec w)"
  by ((rule go_ok1[OF assms], rule go.simps, simp only: tape_simps; simp)+)

lemma go_ok_wide:
  assumes "go_ok inputs env a sa" and "go_ok inputs env b sb"
  shows "w \<le> 64 \<Longrightarrow> go_ok inputs env (BvURem a b w) (BitVec w)"
    and "\<lbrakk>bv_width b = Inr n; n < 128; w \<le> 128\<rbrakk> \<Longrightarrow> go_ok inputs env (Concat a b w) (BitVec w)"
  by (rule go_ok2[OF assms, where F = "\<lambda>x y. FURem x y w"]; simp add: tape_simps)
     (rule go_ok2[OF assms, where F = "\<lambda>x y. FConcat x y n w"]; simp add: tape_simps or_panic_def)

lemma go_ok_SignExtend:
  assumes "go_ok inputs env a sa" and "w = n + x" and "w \<le> 128"
  shows "go_ok inputs env (SignExtend a x w) (BitVec w)"
  by (rule go_ok1[OF assms(1), where F = "\<lambda>y. FSExt y n w"]; use assms(2,3) in \<open>simp add: tape_simps\<close>)

lemma emits_sel:
  assumes "sel_ok inputs env a (SArray (BitVec n) t)" and "good env st sc" and "slot sc sel = Inr (SBv k)"
    and "\<And>x v arr st' sc'. \<lbrakk>good env st' sc'; prefix sc sc'; slot sc' x = Inr v; ev a env = Inr arr;
      select_op arr (Bv k) = Inr (to_eval v); val_sort t (to_eval v)\<rbrakk> \<Longrightarrow> emits env sc' (f (x, st')) r s"
  shows "emits env sc (rbind (go_select inputs a sel st) f) r s"
  using assms(1-3)
  by (intro emits_bind[where sx = t and evx = "rbind (ev a env) (\<lambda>arr. select_op arr (Bv k))"])
     (auto simp: sel_ok_def intro: assms(4))

lemma select_store:
  assumes "select_op arr (Bv k) = Inr z"
  shows "\<exists>arr'. store_op arr (Bv i) v = Inr arr' \<and> select_op arr' (Bv k) = Inr (if i = k then v else z)"
  using assms by (auto simp: select_op_def store_op_def split: eval_result.splits)

lemma go_ok_Ite:
  assumes c: "go_ok inputs env c SBool" and t: "go_ok inputs env t s" and e: "go_ok inputs env e s"
  shows "go_ok inputs env (Ite c t e) s"
  unfolding go_ok_def
proof (intro allI impI)
  fix st sc assume "good env st sc"
  then show "emits env sc (go inputs (Ite c t e) st) (ev (Ite c t e) env) s"
    unfolding go.simps
  proof (rule emits_go[OF c], simp only: prod.case)
    fix x v st1 sc1
    assume x: "slot sc1 x = Inr v" "ev c env = Inr (to_eval v)" and "good env st1 sc1"
    from this(3) show "emits env sc1 (rbind (go inputs t st1) (\<lambda>(y, st). rbind (go inputs e st) (\<lambda>(z, st).
        Inr (push_op (FIte x y z) st)))) (ev (Ite c t e) env) s"
    proof (rule emits_go[OF t], simp only: prod.case)
      fix y u st2 sc2
      assume y: "prefix sc1 sc2" "slot sc2 y = Inr u" "ev t env = Inr (to_eval u)" "val_sort s (to_eval u)"
        and "good env st2 sc2"
      from this(5) show "emits env sc2 (rbind (go inputs e st2) (\<lambda>(z, st).
          Inr (push_op (FIte x y z) st))) (ev (Ite c t e) env) s"
      proof (rule emits_go[OF e], simp only: prod.case)
        fix z q st3 sc3
        assume z: "prefix sc2 sc3" "slot sc3 z = Inr q" "ev e env = Inr (to_eval q)" "val_sort s (to_eval q)"
          and "good env st3 sc3"
        with x(2) y(3,4) slot_prefix[OF z(1) slot_prefix[OF y(1) x(1)]] slot_prefix[OF z(1) y(2)]
        show "emits env sc3 (Inr (push_op (FIte x y z) st3)) (ev (Ite c t e) env) s"
          by (intro emits_push_op) simp_all
      qed
    qed
  qed
qed

lemma sel_ok_Ite:
  assumes c: "go_ok inputs env c SBool" and t: "sel_ok inputs env t s" and e: "sel_ok inputs env e s"
  shows "sel_ok inputs env (Ite c t e) s"
  unfolding sel_ok_def
proof (intro allI impI)
  fix st sc n el sel k
  assume s: "s = SArray (BitVec n) el" and sel: "slot sc sel = Inr (SBv k)" and "good env st sc"
  let ?r = "rbind (ev (Ite c t e) env) (\<lambda>arr. select_op arr (Bv k))"
  from \<open>good env st sc\<close> show "emits env sc (go_select inputs (Ite c t e) sel st) ?r el"
    unfolding go_select.simps
  proof (rule emits_go[OF c], simp only: prod.case)
    fix x v st1 sc1
    assume x: "prefix sc sc1" "slot sc1 x = Inr v" "ev c env = Inr (to_eval v)" and "good env st1 sc1"
    from this(4) slot_prefix[OF x(1) sel]
    show "emits env sc1 (rbind (go_select inputs t sel st1) (\<lambda>(y, st). rbind (go_select inputs e sel st)
        (\<lambda>(z, st). Inr (push_op (FIte x y z) st)))) ?r el"
    proof (rule emits_sel[OF t[unfolded s]], simp only: prod.case)
      fix y u arr st2 sc2
      assume y: "prefix sc1 sc2" "slot sc2 y = Inr u" "ev t env = Inr arr" "select_op arr (Bv k) = Inr (to_eval u)"
          "val_sort el (to_eval u)" and "good env st2 sc2"
      from this(6) slot_prefix[OF y(1) slot_prefix[OF x(1) sel]]
      show "emits env sc2 (rbind (go_select inputs e sel st2) (\<lambda>(z, st). Inr (push_op (FIte x y z) st))) ?r el"
      proof (rule emits_sel[OF e[unfolded s]], simp only: prod.case)
        fix z q arr' st3 sc3
        assume z: "prefix sc2 sc3" "slot sc3 z = Inr q" "ev e env = Inr arr'"
          "select_op arr' (Bv k) = Inr (to_eval q)" "val_sort el (to_eval q)" and "good env st3 sc3"
        with x(3) y(3-5) slot_prefix[OF z(1) slot_prefix[OF y(1) x(2)]] slot_prefix[OF z(1) y(2)]
        show "emits env sc3 (Inr (push_op (FIte x y z) st3)) ?r el"
          by (intro emits_push_op) simp_all
      qed
    qed
  qed
qed

lemma trap_free_index:
  assumes "ev i env = Inr (to_eval v)" and "val_sort (BitVec n) (to_eval v)" and "n \<le> 64"
    and "ev i env \<noteq> Inr Poison"
  obtains k where "v = SBv k"
  using assms by (cases v) auto

lemma emits_width: "(\<And>st. emits env sc (f ()) r s) \<Longrightarrow> emits env sc (rbind (index_width_ok i) f) r s"
  by (cases "index_width_ok i") (auto simp: emits_def)

lemma go_ok_Select:
  assumes a: "sel_ok inputs env a (SArray (BitVec n) s)" and i: "go_ok inputs env i (BitVec n)"
    and n: "n \<le> 64" "ev i env \<noteq> Inr Poison"
  shows "go_ok inputs env (Select a i) s"
  unfolding go_ok_def
proof (intro allI impI)
  fix st sc assume "good env st sc"
  then show "emits env sc (go inputs (Select a i) st) (ev (Select a i) env) s"
    unfolding go.simps
  proof (intro emits_width, elim emits_go[OF i], simp only: prod.case)
    fix x v st1 sc1
    assume x: "slot sc1 x = Inr v" "ev i env = Inr (to_eval v)" "val_sort (BitVec n) (to_eval v)"
      and "good env st1 sc1"
    moreover from x(2,3) n obtain k where "v = SBv k" by (rule trap_free_index)
    ultimately show "emits env sc1 (go_select inputs a x st1) (ev (Select a i) env) s"
      using a by (simp add: sel_ok_def)
  qed
qed

lemma emits_store_read:
  assumes "good env st sc" and x: "slot sc x = Inr (SBv i)" and sel: "slot sc sel = Inr (SBv k)"
    and y: "slot sc y = Inr v" and z: "slot sc z = Inr u"
    and "val_sort t (to_eval v)" and "val_sort t (to_eval u)" and "r = Inr (to_eval (if i = k then v else u))"
  shows "emits env sc (let (same, st) = push_op (FEq x sel) st in Inr (push_op (FIte same y z) st)) r t"
proof (rule emitsI)
  fix j st2
  obtain same st1 where p1: "push_op (FEq x sel) st = (same, st1)" by force
  assume "(let (same, st) = push_op (FEq x sel) st in Inr (push_op (FIte same y z) st)) =
      (Inr (j, st2) :: (stop, nat \<times> flat_state) result)"
  with p1 have p2: "push_op (FIte same y z) st1 = (j, st2)" by simp
  have "flat_step env sc (FEq x sel) = Inr (SBoolV (i = k))" using x sel by simp
  from good_push_op[OF assms(1) this p1] obtain sc1 where sc1: "good env st1 sc1" "prefix sc sc1"
    "slot sc1 same = Inr (SBoolV (i = k))" by blast
  have "flat_step env sc1 (FIte same y z) = Inr (if i = k then v else u)"
    using sc1(3) slot_prefix[OF sc1(2) y] slot_prefix[OF sc1(2) z] by simp
  from good_push_op[OF sc1(1) this p2] obtain sc2 where "good env st2 sc2" "prefix sc1 sc2"
    "slot sc2 j = Inr (if i = k then v else u)" by blast
  with sc1(2) assms(6-8) show "\<exists>sc' v. good env st2 sc' \<and> prefix sc sc' \<and> slot sc' j = Inr v
      \<and> r = Inr (to_eval v) \<and> val_sort t (to_eval v)"
    by (intro exI[of _ sc2] exI[of _ "if i = k then v else u"]) (auto intro: prefix_order.trans)
qed

lemma sel_ok_Store:
  assumes a: "sel_ok inputs env a (SArray (BitVec n) t)" and i: "go_ok inputs env i (BitVec n)"
    and v: "go_ok inputs env v t" and n: "n \<le> 64" "ev i env \<noteq> Inr Poison"
  shows "sel_ok inputs env (Store a i v) (SArray (BitVec n) t)"
  unfolding sel_ok_def
proof (intro allI impI, elim smt_sort.inject(2)[THEN iffD1, elim_format] conjE)
  fix st sc n' t' sel k
  assume t': "t = t'" and sel: "slot sc sel = Inr (SBv k)" and "good env st sc"
  let ?r = "rbind (ev (Store a i v) env) (\<lambda>arr. select_op arr (Bv k))"
  from \<open>good env st sc\<close> show "emits env sc (go_select inputs (Store a i v) sel st) ?r t'"
    unfolding go_select.simps
  proof (intro emits_width, elim emits_go[OF i], simp only: prod.case)
    fix x iv st1 sc1
    assume x: "prefix sc sc1" "slot sc1 x = Inr iv" "ev i env = Inr (to_eval iv)" "val_sort (BitVec n) (to_eval iv)"
      and "good env st1 sc1"
    from x(3,4) n obtain ki where iv: "iv = SBv ki" by (rule trap_free_index)
    from \<open>good env st1 sc1\<close> show "emits env sc1 (rbind (go inputs v st1) (\<lambda>(y, st).
        rbind (go_select inputs a sel st) (\<lambda>(z, st).
          let (same, st) = push_op (FEq x sel) st in Inr (push_op (FIte same y z) st)))) ?r t'"
    proof (rule emits_go[OF v], simp only: prod.case)
      fix y u st2 sc2
      assume y: "prefix sc1 sc2" "slot sc2 y = Inr u" "ev v env = Inr (to_eval u)" "val_sort t (to_eval u)"
        and "good env st2 sc2"
      from this(5) slot_prefix[OF y(1) slot_prefix[OF x(1) sel]]
      show "emits env sc2 (rbind (go_select inputs a sel st2) (\<lambda>(z, st).
          let (same, st) = push_op (FEq x sel) st in Inr (push_op (FIte same y z) st))) ?r t'"
      proof (rule emits_sel[OF a], simp only: prod.case)
        fix z q arr st3 sc3
        assume z: "prefix sc2 sc3" "slot sc3 z = Inr q" "ev a env = Inr arr"
          "select_op arr (Bv k) = Inr (to_eval q)" "val_sort t (to_eval q)" and good: "good env st3 sc3"
        note up = slot_prefix[OF z(1)] slot_prefix[OF z(1) slot_prefix[OF y(1)]]
        from select_store[OF z(4), of ki "to_eval u"] x(3) y(3) z(3)
        have "?r = Inr (to_eval (if ki = k then u else q))" by (auto simp: iv)
        with good up(2)[OF x(2)[unfolded iv]] up(2)[OF slot_prefix[OF x(1) sel]] up(1)[OF y(2)] z(2) y(4) z(5)
        show "emits env sc3 (let (same, st) = push_op (FEq x sel) st3 in Inr (push_op (FIte same y z) st)) ?r t'"
          unfolding t' by (rule emits_store_read)
      qed
    qed
  qed
qed

lemma ok_ConstArray:
  assumes "go_ok inputs env v s"
  shows "sel_ok inputs env (ConstArray ix v) (SArray (BitVec n) s)"
proof -
  have "rbind (ev (ConstArray ix v) env) (\<lambda>arr. select_op arr (Bv k)) = ev v env" for k
    by (cases "ev v env") (simp_all add: select_op_def)
  with assms show ?thesis by (simp add: sel_ok_def go_ok_def)
qed

lemma go_correct:
  assumes "aligned inputs env"
  shows "well_sorted e s \<Longrightarrow> no_trap_index e env \<Longrightarrow> go_ok inputs env e s \<and> sel_ok inputs env e s"
proof (induction rule: well_sorted.induct)
  case (ws_Select a n s i)
  then have "go_ok inputs env (Select a i) s" by (intro go_ok_Select[of _ _ a n]) (simp_all add: no_trap_index_def)
  then show ?case by (simp add: sel_ok_def emits_def)
next
  case (ws_Store a n s i v)
  then have "sel_ok inputs env (Store a i v) (SArray (BitVec n) s)"
    by (intro sel_ok_Store) (simp_all add: no_trap_index_def)
  then show ?case by (simp add: go_ok_def emits_def)
next
  case (ws_ConstArray v s n)
  then have "sel_ok inputs env (ConstArray (BitVec n) v) (SArray (BitVec n) s)"
    by (intro ok_ConstArray) (simp_all add: no_trap_index_def)
  then show ?case by (simp add: go_ok_def emits_def)
next
  case (ws_Var w n)
  then show ?case by (simp add: go_ok_Var[OF assms])
next
  case (ws_BvConst w v)
  then have "go_ok inputs env (BvConst v w) (BitVec w)"
    by (intro go_ok_leaf[OF go.simps(2)]) (auto simp: take_bit_ucast64)
  then show ?case by simp
next
  case (ws_BoolConst b)
  have "go_ok inputs env (BoolConst b) SBool" by (rule go_ok_leaf[OF go.simps(3)]) auto
  then show ?case by simp
next
  case (ws_quant c lo n hi b v vw)
  then show ?case by (auto simp: go_ok_def emits_def)
qed (auto simp: no_trap_index_def
  intro: go_ok_bin go_ok_cmp go_ok_logic go_ok_unary go_ok_wide go_ok_SignExtend go_ok_Ite sel_ok_Ite)

section \<open>Properties\<close>

text \<open>C6. The linear tape is exact: for a well-sorted expression that \<open>FlatProg::compile\<close>
  accepts, in an environment that binds the inputs in order and where no array index
  traps, running the tape panics nowhere, eager evaluation included, and its root
  is the value \<open>try_eval\<close> gives. Hash-consing, the division and trap arms, nodes of up
  to 128 bits and the read-over-write expansion of \<open>select\<close> are all covered.\<close>

theorem flat_compile_exact:
  assumes "flat_compile inputs e = Inr p" and "aligned inputs env"
    and "well_sorted e s" and "no_trap_index e env"
  shows "\<exists>v. flat_eval p env = Inr v \<and> try_eval vec_get_var vec_set_var e env = Inr v \<and> val_sort s v"
proof -
  have "good env \<lparr>ops = [], dedup = Map.empty\<rparr> []" by (simp add: good_def)
  with go_correct[OF assms(2-4)]
  have "emits env [] (go inputs e \<lparr>ops = [], dedup = Map.empty\<rparr>) (ev e env) s" by (simp add: go_ok_def)
  moreover from assms(1) obtain r st where "go inputs e \<lparr>ops = [], dedup = Map.empty\<rparr> = Inr (r, st)"
    and p: "p = \<lparr>prog_ops = ops st, root = r\<rparr>" by (auto simp: flat_compile_def)
  ultimately obtain sc v where "good env st sc" "slot sc r = Inr v" "ev e env = Inr (to_eval v)"
    "val_sort s (to_eval v)" by (auto elim: emitsE)
  then show ?thesis by (simp add: flat_eval_def p good_def)
qed

text \<open>An expression with a store, a read and a division, its inputs and an environment.\<close>

definition read_div :: smt_expr where
  "read_div = BvUDiv (Select (Store (ConstArray (BitVec 8) (BvConst 7 8)) (Var ''a'' 8) (Var ''b'' 8)) (BvConst 3 8))
     (Var ''a'' 8) 8"

definition read_div_inputs :: "(string \<times> nat) list" where
  "read_div_inputs = [(''a'', 8), (''b'', 8)]"

definition read_div_env :: eval_env where
  "read_div_env = \<lparr>vars = [(''a'', 3), (''b'', 9)]\<rparr>"

theorem flat_compile_exact_witness:
  "\<exists>p v. flat_compile read_div_inputs read_div = Inr p \<and> flat_eval p read_div_env = Inr v
    \<and> try_eval vec_get_var vec_set_var read_div read_div_env = Inr v \<and> val_sort (BitVec 8) v"
proof -
  have "\<exists>p. flat_compile read_div_inputs read_div = Inr p"
    by (simp add: flat_compile_def read_div_def read_div_inputs_def push_op_def index_width_ok_def
      bv_width_def or_panic_def Let_def)
  then obtain p where p: "flat_compile read_div_inputs read_div = Inr p" by blast
  have "well_sorted read_div (BitVec 8)" unfolding read_div_def
    by (intro ws_bin[of BvUDiv] ws_Select[of _ 8] ws_Store ws_ConstArray ws_Var ws_BvConst) simp_all
  moreover have "aligned read_div_inputs read_div_env" "no_trap_index read_div read_div_env"
    by (simp_all add: aligned_def read_div_inputs_def read_div_env_def read_div_def no_trap_index_def
      vec_get_var_def env_get_def)
  ultimately show ?thesis using flat_compile_exact[OF p] p by blast
qed

text \<open>C31. The condition on indices is needed. A store whose index traps is read back by the
  interpreter at index \<open>u64::MAX\<close>, the number a trap projects to, while the tape compares
  the trap with the index and reads the array below: the two evaluators disagree.\<close>

theorem flat_trap_index_diverges:
  "\<exists>e p env. flat_compile [(''a'', 64)] e = Inr p \<and> aligned [(''a'', 64)] env \<and> well_sorted e (BitVec 64)
     \<and> flat_eval p env = Inr (Bv 0) \<and> try_eval vec_get_var vec_set_var e env = Inr (Bv 5)"
proof (intro exI conjI)
  let ?e = "Select (Store (ConstArray (BitVec 64) (BvConst 0 64)) (TrapIfZero (Var ''a'' 64) (BvConst 1 64) 64)
    (BvConst 5 64)) (BvConst (- 1) 64)"
  let ?env = "\<lparr>vars = [(''a'', 0)]\<rparr>"
  let ?p = "\<lparr>prog_ops = [FConst (- 1), FVar 0 64, FConst 1, FTrap 1 2, FConst 5, FConst 0, FEq 3 0, FIte 6 4 5],
    root = 7\<rparr>"
  show "flat_compile [(''a'', 64)] ?e = Inr ?p"
    by (simp add: flat_compile_def push_op_def index_width_ok_def bv_width_def or_panic_def mask64_def Let_def)
  show "aligned [(''a'', 64)] ?env" by (simp add: aligned_def)
  show "well_sorted ?e (BitVec 64)"
    by (intro ws_Select[of _ 64] ws_Store ws_ConstArray ws_Var ws_BvConst ws_TrapIfZero[of _ 64]) simp_all
  show "flat_eval ?p ?env = Inr (Bv 0)"
    by (simp add: flat_eval_def value_at_def slot_def mask64_def nth_append)
  show "try_eval vec_get_var vec_set_var ?e ?env = Inr (Bv 5)"
    by (simp add: vec_get_var_def env_get_def mask64_def store_op_def select_op_def)
qed

end
