(* ===== verification/Sat_Blast.thy ===== *)
theory Sat_Blast
  imports Smt_Eval
begin

text \<open>
  The bit-blaster of \<open>trust-cg-verify/src/sat_blast.rs\<close>: gates and their canonical
  clauses, the entailment check of a clause by a gate, the Tseitin builder
  \<open>Blaster\<close> with its constant folding, \<open>blast_expr\<close>, the equivalence miter
  and the provenance check. Literals are signed DIMACS numbers (\<open>int\<close>), the variable
  counter is a \<open>nat\<close>; the source keeps both in 32 bits. The functions that mutate the
  builder return the new state.
\<close>

section \<open>Errors, gates, provenance\<close>

datatype blast_error =
    UnsupportedObligation string
  | UnsupportedExpr
  | WidthMismatch string
  | ProvenanceMismatch string
  | BlastPanic string

datatype miter_side = Ir | Machine | Diff

datatype gate_kind = Xor2 | Xor3 | And2 | Maj3

fun arity :: "gate_kind \<Rightarrow> nat" where
  "arity Xor2 = 2"
| "arity And2 = 2"
| "arity Xor3 = 3"
| "arity Maj3 = 3"

text \<open>\<open>GateKind::eval\<close>; \<open>ins\<close> has as many elements as the gate's arity.\<close>

fun gate_eval :: "gate_kind \<Rightarrow> bool list \<Rightarrow> bool" where
  "gate_eval Xor2 ins = (ins ! 0 \<noteq> ins ! 1)"
| "gate_eval Xor3 ins = ((ins ! 0 \<noteq> ins ! 1) \<noteq> ins ! 2)"
| "gate_eval And2 ins = (ins ! 0 \<and> ins ! 1)"
| "gate_eval Maj3 ins = ((ins ! 0 \<and> ins ! 1) \<or> (ins ! 0 \<and> ins ! 2) \<or> (ins ! 1 \<and> ins ! 2))"

record gate_record =
  g_side :: miter_side
  g_kind :: gate_kind
  g_out :: int
  g_ins :: "int list"

record miter_provenance =
  p_rule_name :: string
  p_width :: nat
  p_num_vars :: nat
  p_inputs :: "(string \<times> int list) list"
  p_gates :: "gate_record list"
  p_ir_out :: "int list"
  p_machine_out :: "int list"
  p_diff :: "int list"

record miter_cnf =
  m_num_vars :: nat
  m_clauses :: "int list list"
  m_clause_tags :: "nat option list"
  m_inputs :: "(string \<times> int list) list"
  m_rule_name :: string
  m_provenance :: miter_provenance

text \<open>
  \<open>canonical_gate_clauses\<close>. The \<open>assert_eq!\<close> on the number of inputs holds at
  every call: the builder passes as many literals as the gate takes, and
  \<open>check_provenance\<close> tests the number first.
\<close>

definition canonical_gate_clauses :: "gate_kind \<Rightarrow> int \<Rightarrow> int list \<Rightarrow> int list list" where
  "canonical_gate_clauses kind out ins = (let o' = out in case kind of
       Xor2 \<Rightarrow> let a = ins ! 0; b = ins ! 1 in
         [[- a, - b, - o'], [a, b, - o'], [- a, b, o'], [a, - b, o']]
     | Xor3 \<Rightarrow> let a = ins ! 0; b = ins ! 1; c = ins ! 2 in
         concat (map (\<lambda>sa. concat (map (\<lambda>sb. map (\<lambda>sc.
           let parity = ((sa < 0) \<noteq> (sb < 0)) \<noteq> (sc < 0);
               so = (if parity then - 1 else 1)
           in [- sa * a, - sb * b, - sc * c, so * o']) [1, - 1]) [1, - 1])) [1, - 1])
     | And2 \<Rightarrow> let a = ins ! 0; b = ins ! 1 in
         [[- a, - b, o'], [a, - o'], [b, - o']]
     | Maj3 \<Rightarrow> let a = ins ! 0; b = ins ! 1; c = ins ! 2 in
         [[- a, - b, o'], [- a, - c, o'], [- b, - c, o'], [a, b, - o'], [a, c, - o'], [b, c, - o']])"

text \<open>\<open>clause_entailed_by_gate\<close>: enumerate the assignments of the gate's own variables.\<close>

fun distinct_vars :: "int list \<Rightarrow> int list \<Rightarrow> int list" where
  "distinct_vars vs [] = vs"
| "distinct_vars vs (l # ls) =
     (let v = \<bar>l\<bar> in if v \<in> set vs then distinct_vars vs ls else distinct_vars (vs @ [v]) ls)"

fun var_position :: "int list \<Rightarrow> int \<Rightarrow> nat" where
  "var_position [] v = 0"
| "var_position (x # xs) v = (if x = v then 0 else Suc (var_position xs v))"

definition mask_val :: "int list \<Rightarrow> nat \<Rightarrow> int \<Rightarrow> bool" where
  "mask_val vs assignment l = (let b = bit assignment (var_position vs \<bar>l\<bar>) in if 0 < l then b else \<not> b)"

definition clause_entailed_by_gate :: "int list \<Rightarrow> gate_kind \<Rightarrow> int \<Rightarrow> int list \<Rightarrow> bool" where
  "clause_entailed_by_gate clause kind out ins =
     (if length ins \<noteq> arity kind then False
      else let vs = distinct_vars [] (out # ins) in
        if list_ex (\<lambda>l. \<bar>l\<bar> \<notin> set vs) clause then False
        else list_all (\<lambda>assignment.
          mask_val vs assignment out = gate_eval kind (map (mask_val vs assignment) ins) \<longrightarrow>
            list_ex (mask_val vs assignment) clause) [0 ..< 2 ^ length vs])"

section \<open>The builder\<close>

datatype blast_bit = BConst bool | BLit int

fun negate :: "blast_bit \<Rightarrow> blast_bit" where
  "negate (BConst b) = BConst (\<not> b)"
| "negate (BLit l) = BLit (- l)"

record blaster =
  next_var :: nat
  clauses :: "int list list"
  clause_tags :: "nat option list"
  gates :: "gate_record list"
  side :: miter_side

definition blaster_new :: blaster where
  "blaster_new = \<lparr>next_var = 0, clauses = [], clause_tags = [], gates = [], side = Ir\<rparr>"

definition fresh :: "blaster \<Rightarrow> int \<times> blaster" where
  "fresh st = (let v = next_var st + 1 in (int v, st\<lparr>next_var := v\<rparr>))"

definition emit_gate :: "gate_kind \<Rightarrow> int list \<Rightarrow> blaster \<Rightarrow> int \<times> blaster" where
  "emit_gate kind ins st = (let (out, st) = fresh st;
       gate_idx = length (gates st);
       cs = canonical_gate_clauses kind out ins
     in (out, st\<lparr>gates := gates st @ [\<lparr>g_side = side st, g_kind = kind, g_out = out, g_ins = ins\<rparr>],
                 clauses := clauses st @ cs,
                 clause_tags := clause_tags st @ map (\<lambda>_. Some gate_idx) cs\<rparr>))"

definition lit_gate :: "gate_kind \<Rightarrow> int list \<Rightarrow> blaster \<Rightarrow> blast_bit \<times> blaster" where
  "lit_gate kind ins st = (let (out, st) = emit_gate kind ins st in (BLit out, st))"

fun xor2 :: "blast_bit \<Rightarrow> blast_bit \<Rightarrow> blaster \<Rightarrow> blast_bit \<times> blaster" where
  "xor2 (BConst a) (BConst b) st = (BConst (a \<noteq> b), st)"
| "xor2 (BConst False) l st = (l, st)"
| "xor2 l (BConst False) st = (l, st)"
| "xor2 (BConst True) l st = (negate l, st)"
| "xor2 l (BConst True) st = (negate l, st)"
| "xor2 (BLit a) (BLit b) st = lit_gate Xor2 [a, b] st"

fun xor3 :: "blast_bit \<Rightarrow> blast_bit \<Rightarrow> blast_bit \<Rightarrow> blaster \<Rightarrow> blast_bit \<times> blaster" where
  "xor3 (BConst a) y z st = (let (r, st) = xor2 y z st in (if a then negate r else r, st))"
| "xor3 x (BConst b) z st = (let (r, st) = xor2 x z st in (if b then negate r else r, st))"
| "xor3 x y (BConst c) st = (let (r, st) = xor2 x y st in (if c then negate r else r, st))"
| "xor3 (BLit a) (BLit b) (BLit c) st = lit_gate Xor3 [a, b, c] st"

fun and2 :: "blast_bit \<Rightarrow> blast_bit \<Rightarrow> blaster \<Rightarrow> blast_bit \<times> blaster" where
  "and2 (BConst False) _ st = (BConst False, st)"
| "and2 _ (BConst False) st = (BConst False, st)"
| "and2 (BConst True) l st = (l, st)"
| "and2 l (BConst True) st = (l, st)"
| "and2 (BLit a) (BLit b) st = lit_gate And2 [a, b] st"

definition or2 :: "blast_bit \<Rightarrow> blast_bit \<Rightarrow> blaster \<Rightarrow> blast_bit \<times> blaster" where
  "or2 x y st = (let (r, st) = and2 (negate x) (negate y) st in (negate r, st))"

fun maj3 :: "blast_bit \<Rightarrow> blast_bit \<Rightarrow> blast_bit \<Rightarrow> blaster \<Rightarrow> blast_bit \<times> blaster" where
  "maj3 (BConst False) y z st = and2 y z st"
| "maj3 y (BConst False) z st = and2 y z st"
| "maj3 y z (BConst False) st = and2 y z st"
| "maj3 (BConst True) y z st = or2 y z st"
| "maj3 y (BConst True) z st = or2 y z st"
| "maj3 y z (BConst True) st = or2 y z st"
| "maj3 (BLit a) (BLit b) (BLit c) st = lit_gate Maj3 [a, b, c] st"

text \<open>
  \<open>ripple_add\<close>: the loop over the bit positions, least significant first; the carry
  of the last position is not built. The two operands have the same length
  (\<open>debug_assert_eq!\<close>, checked by the callers).
\<close>

fun ripple_add :: "blast_bit list \<Rightarrow> blast_bit list \<Rightarrow> blast_bit \<Rightarrow> blaster \<Rightarrow> blast_bit list \<times> blaster" where
  "ripple_add (x # xs) (y # ys) carry st =
     (let (s, st) = xor3 x y carry st;
          (carry, st) = (if xs \<noteq> [] then maj3 x y carry st else (carry, st));
          (ss, st) = ripple_add xs ys carry st
      in (s # ss, st))"
| "ripple_add _ _ carry st = ([], st)"

fun bitwise :: "gate_kind \<Rightarrow> blast_bit list \<Rightarrow> blast_bit list \<Rightarrow> blaster \<Rightarrow> blast_bit list \<times> blaster" where
  "bitwise k (x # xs) (y # ys) st =
     (let (b, st) = (case k of And2 \<Rightarrow> and2 x y st | Xor2 \<Rightarrow> xor2 x y st | _ \<Rightarrow> or2 x y st);
          (bs, st) = bitwise k xs ys st
      in (b # bs, st))"
| "bitwise k _ _ st = ([], st)"

section \<open>Blasting expressions\<close>

type_synonym bit_env = "string \<rightharpoonup> blast_bit list"

text \<open>The check of \<open>blast_binop_operands\<close> after both operands are blasted.\<close>

definition binop_operands :: "(blast_error, blast_bit list \<times> blaster) result \<Rightarrow>
    (blaster \<Rightarrow> (blast_error, blast_bit list \<times> blaster) result) \<Rightarrow>
    (blast_bit list \<Rightarrow> blast_bit list \<Rightarrow> blaster \<Rightarrow> blast_bit list \<times> blaster) \<Rightarrow>
    (blast_error, blast_bit list \<times> blaster) result" where
  "binop_operands lhs rhs f = rbind lhs (\<lambda>(a, st). rbind (rhs st) (\<lambda>(b, st).
     if length a \<noteq> length b \<or> a = [] then Inl (WidthMismatch ''operands'')
     else Inr (f a b st)))"

fun blast_expr :: "smt_expr \<Rightarrow> bit_env \<Rightarrow> blaster \<Rightarrow> (blast_error, blast_bit list \<times> blaster) result" where
  "blast_expr (Var n w) env st = (case env n of
       None \<Rightarrow> Inl (UnsupportedObligation ''expression references undeclared input'')
     | Some bits \<Rightarrow> if length bits \<noteq> w then Inl (WidthMismatch ''input'') else Inr (bits, st))"
| "blast_expr (BvConst v w) env st =
     (if 64 < w then Inl (BlastPanic ''attempt to shift right with overflow'')
      else Inr (map (\<lambda>i. BConst (drop_bit i v AND 1 = 1)) [0 ..< w], st))"
| "blast_expr (BvAdd a b w) env st = binop_operands (blast_expr a env st) (blast_expr b env)
     (\<lambda>x y. ripple_add x y (BConst False))"
| "blast_expr (BvSub a b w) env st = binop_operands (blast_expr a env st) (blast_expr b env)
     (\<lambda>x y. ripple_add x (map negate y) (BConst True))"
| "blast_expr (BvNeg a w) env st = rbind (blast_expr a env st) (\<lambda>(x, st).
     if length x \<noteq> w then Inl (WidthMismatch ''bvneg'')
     else let na = map negate x; zero = replicate (length na) (BConst False) in
       Inr (ripple_add na zero (BConst True) st))"
| "blast_expr (BvAnd a b w) env st = binop_operands (blast_expr a env st) (blast_expr b env) (bitwise And2)"
| "blast_expr (BvOr a b w) env st = binop_operands (blast_expr a env st) (blast_expr b env) (bitwise Maj3)"
| "blast_expr (BvXor a b w) env st = binop_operands (blast_expr a env st) (blast_expr b env) (bitwise Xor2)"
| "blast_expr _ env st = Inl UnsupportedExpr"

text \<open>\<open>bit_lit\<close>: a constant output bit becomes one of two sentinels.\<close>

definition bit_lit :: "blast_bit \<Rightarrow> int" where
  "bit_lit b = (case b of BLit l \<Rightarrow> l | BConst v \<Rightarrow> if v then 2 ^ 31 - 1 else - (2 ^ 31))"

section \<open>The provenance check\<close>

definition canon :: "int list \<Rightarrow> int list" where
  "canon c = sort c"

text \<open>The loop that distributes the clauses over the gates their tags name.\<close>

fun group_clauses :: "(int list \<times> nat option) list \<Rightarrow> int list list list \<Rightarrow> int list list \<Rightarrow>
    (blast_error, int list list list \<times> int list list) result" where
  "group_clauses [] per_gate diseq = Inr (per_gate, diseq)"
| "group_clauses ((clause, tag) # rest) per_gate diseq = (case tag of
       Some g \<Rightarrow> if g < length per_gate
         then group_clauses rest (per_gate[g := per_gate ! g @ [canon clause]]) diseq
         else Inl (ProvenanceMismatch ''clause tags missing gate'')
     | None \<Rightarrow> group_clauses rest per_gate (diseq @ [canon clause]))"

definition gate_matches :: "gate_record \<Rightarrow> int list list \<Rightarrow> (blast_error, unit) result" where
  "gate_matches rec got =
     (if length (g_ins rec) \<noteq> arity (g_kind rec) then Inl (ProvenanceMismatch ''arity mismatch'')
      else if sort (map canon (canonical_gate_clauses (g_kind rec) (g_out rec) (g_ins rec))) \<noteq> sort got
      then Inl (ProvenanceMismatch ''clauses do not match its canonical CNF'')
      else Inr ())"

fun check_gates :: "gate_record list \<Rightarrow> int list list list \<Rightarrow> (blast_error, unit) result" where
  "check_gates (g # gs) (p # ps) = rbind (gate_matches g p) (\<lambda>_. check_gates gs ps)"
| "check_gates _ _ = Inr ()"

text \<open>One entry of \<open>diff\<close> against the gate of the diff side that defines it.\<close>

definition check_diff :: "gate_record list \<Rightarrow> int \<Rightarrow> int \<Rightarrow> int \<Rightarrow> (blast_error, unit) result" where
  "check_diff diff_gates d ir mc = (case find (\<lambda>g. g_out g = \<bar>d\<bar>) diff_gates of
       None \<Rightarrow> Inl (ProvenanceMismatch ''diff bit has no diff gate'')
     | Some g \<Rightarrow> if g_kind g \<noteq> Xor2 \<or> g_ins g \<noteq> [ir, mc]
         then Inl (ProvenanceMismatch ''diff bit is not Xor2(ir_out, machine_out)'') else Inr ())"

fun check_diffs :: "gate_record list \<Rightarrow> int list \<Rightarrow> int list \<Rightarrow> int list \<Rightarrow> (blast_error, unit) result" where
  "check_diffs dg (d # ds) (i # is) (m # ms) = rbind (check_diff dg d i m) (\<lambda>_. check_diffs dg ds is ms)"
| "check_diffs dg _ _ _ = Inr ()"

definition check_provenance :: "miter_cnf \<Rightarrow> (blast_error, unit) result" where
  "check_provenance m = (let p = m_provenance m in
     if length (m_clause_tags m) \<noteq> length (m_clauses m)
     then Inl (ProvenanceMismatch ''clause_tags length disagrees with clauses'')
     else rbind (group_clauses (zip (m_clauses m) (m_clause_tags m)) (replicate (length (p_gates p)) []) [])
       (\<lambda>(per_gate, diseq). rbind (check_gates (p_gates p) per_gate) (\<lambda>_.
         if length diseq \<noteq> 1 then Inl (ProvenanceMismatch ''expected exactly one disequality clause'')
         else if diseq ! 0 \<noteq> canon (p_diff p)
         then Inl (ProvenanceMismatch ''disequality clause is not the recorded diff-literal disjunction'')
         else if length (p_ir_out p) \<noteq> length (p_machine_out p) \<or> length (p_ir_out p) \<noteq> length (p_diff p)
         then Inl (ProvenanceMismatch ''ir_out / machine_out / diff length disagreement'')
         else check_diffs (filter (\<lambda>g. g_side g = Diff) (p_gates p)) (p_diff p) (p_ir_out p) (p_machine_out p))))"

section \<open>The miter\<close>

text \<open>The fields of \<open>ProofObligation\<close> the blaster reads.\<close>

record proof_obligation =
  ob_name :: string
  trust_ir_expr :: smt_expr
  aarch64_expr :: smt_expr
  ob_inputs :: "(string \<times> nat) list"
  preconditions :: "smt_expr list"
  fp_inputs :: "(string \<times> nat \<times> nat) list"

text \<open>The inner loop: the bits of one input.\<close>

primrec alloc_bits :: "nat \<Rightarrow> blaster \<Rightarrow> int list \<times> blaster" where
  "alloc_bits 0 st = ([], st)"
| "alloc_bits (Suc n) st = (let (v, st) = fresh st; (vs, st) = alloc_bits n st in (v # vs, st))"

fun alloc_inputs :: "(string \<times> nat) list \<Rightarrow> bit_env \<Rightarrow> blaster \<Rightarrow>
    (blast_error, bit_env \<times> (string \<times> int list) list \<times> blaster) result" where
  "alloc_inputs [] env st = Inr (env, [], st)"
| "alloc_inputs ((name, width) # rest) env st =
     (let (ids, st) = alloc_bits width st in
      if env name \<noteq> None then Inl (UnsupportedObligation ''duplicate input'')
      else rbind (alloc_inputs rest (env(name \<mapsto> map BLit ids)) st) (\<lambda>(env, inputs, st).
        Inr (env, (name, ids) # inputs, st)))"

text \<open>The comparison loop: the diff literals, and whether some bit differs for certain.\<close>

fun diff_bits :: "blast_bit list \<Rightarrow> blast_bit list \<Rightarrow> blaster \<Rightarrow> int list \<times> bool \<times> blaster" where
  "diff_bits (x # xs) (y # ys) st = (let (d, st) = xor2 x y st; (ds, t, st) = diff_bits xs ys st in
     case d of BConst True \<Rightarrow> (ds, True, st) | BConst False \<Rightarrow> (ds, t, st) | BLit l \<Rightarrow> (l # ds, t, st))"
| "diff_bits _ _ st = ([], False, st)"

definition blast_equivalence_miter :: "proof_obligation \<Rightarrow> (blast_error, miter_cnf) result" where
  "blast_equivalence_miter ob =
     (if preconditions ob \<noteq> [] then Inl (UnsupportedObligation ''preconditions'')
      else if fp_inputs ob \<noteq> [] then Inl (UnsupportedObligation ''floating-point inputs'')
      else if ob_inputs ob = [] then Inl (UnsupportedObligation ''no inputs'')
      else rbind (alloc_inputs (ob_inputs ob) Map.empty blaster_new) (\<lambda>(env, inputs, st).
        rbind (blast_expr (trust_ir_expr ob) env (st\<lparr>side := Ir\<rparr>)) (\<lambda>(ir_bits, st).
        rbind (blast_expr (aarch64_expr ob) env (st\<lparr>side := Machine\<rparr>)) (\<lambda>(machine_bits, st).
        if length ir_bits \<noteq> length machine_bits \<or> ir_bits = [] then Inl (WidthMismatch ''sides'')
        else let (diff_lits, some_diff_const_true, st) = diff_bits ir_bits machine_bits (st\<lparr>side := Diff\<rparr>);
               st = (if some_diff_const_true then st
                     else st\<lparr>clauses := clauses st @ [diff_lits], clause_tags := clause_tags st @ [None]\<rparr>);
               miter = \<lparr>m_num_vars = next_var st, m_clauses = clauses st, m_clause_tags = clause_tags st,
                 m_inputs = inputs, m_rule_name = ob_name ob,
                 m_provenance = \<lparr>p_rule_name = ob_name ob, p_width = length ir_bits,
                   p_num_vars = next_var st, p_inputs = inputs, p_gates = gates st,
                   p_ir_out = map bit_lit ir_bits, p_machine_out = map bit_lit machine_bits,
                   p_diff = diff_lits\<rparr>\<rparr>
             in if some_diff_const_true then Inr miter
                else rbind (check_provenance miter) (\<lambda>_. Inr miter)))))"

text \<open>The definitions that evaluate the blaster on a concrete obligation.\<close>

lemmas miter_defs = blast_equivalence_miter_def blaster_new_def fresh_def binop_operands_def lit_gate_def
  emit_gate_def canonical_gate_clauses_def check_provenance_def bit_lit_def gate_matches_def canon_def
  check_diff_def Let_def

end
