(* ===== verification/Sat_Blast_Correct.thy ===== *)
theory Sat_Blast_Correct
  imports Sat_Blast
begin

text \<open>
  Correctness of the bit-blaster. The canonical clauses of a gate are equivalent to the
  gate's truth table; every builder operation keeps the clause list the union of the
  gates' clauses, keeps the gates acyclic and computes the bit it is named after; the
  bits of \<open>blast_expr\<close> are the bits of the value \<open>try_eval\<close> gives; and the miter is
  unsatisfiable exactly when the two sides of the obligation agree on all inputs.
\<close>

section \<open>Assignments\<close>

text \<open>An assignment gives a truth value to every DIMACS variable.\<close>

type_synonym assignment = "int \<Rightarrow> bool"

definition lit_val :: "assignment \<Rightarrow> int \<Rightarrow> bool" where
  "lit_val \<sigma> l = (if 0 < l then \<sigma> l else \<not> \<sigma> (- l))"

definition clause_sat :: "assignment \<Rightarrow> int list \<Rightarrow> bool" where
  "clause_sat \<sigma> c \<longleftrightarrow> (\<exists>l \<in> set c. lit_val \<sigma> l)"

definition cnf_sat :: "assignment \<Rightarrow> int list list \<Rightarrow> bool" where
  "cnf_sat \<sigma> cs \<longleftrightarrow> (\<forall>c \<in> set cs. clause_sat \<sigma> c)"

definition gate_holds :: "assignment \<Rightarrow> gate_record \<Rightarrow> bool" where
  "gate_holds \<sigma> g \<longleftrightarrow> lit_val \<sigma> (g_out g) = gate_eval (g_kind g) (map (lit_val \<sigma>) (g_ins g))"

definition gate_cnf :: "gate_record \<Rightarrow> int list list" where
  "gate_cnf g = canonical_gate_clauses (g_kind g) (g_out g) (g_ins g)"

fun bit_val :: "assignment \<Rightarrow> blast_bit \<Rightarrow> bool" where
  "bit_val \<sigma> (BConst b) = b"
| "bit_val \<sigma> (BLit l) = lit_val \<sigma> l"

lemma lit_val_minus: "l \<noteq> 0 \<Longrightarrow> lit_val \<sigma> (- l) = (\<not> lit_val \<sigma> l)"
  by (auto simp: lit_val_def)

lemma cnf_sat_append [simp]: "cnf_sat \<sigma> (xs @ ys) \<longleftrightarrow> cnf_sat \<sigma> xs \<and> cnf_sat \<sigma> ys"
  by (auto simp: cnf_sat_def)

lemma cnf_sat_Nil [simp]: "cnf_sat \<sigma> []"
  by (simp add: cnf_sat_def)

lemma cnf_sat_Cons [simp]: "cnf_sat \<sigma> (c # cs) \<longleftrightarrow> clause_sat \<sigma> c \<and> cnf_sat \<sigma> cs"
  by (auto simp: cnf_sat_def)

lemma clause_sat_Cons [simp]: "clause_sat \<sigma> (l # c) \<longleftrightarrow> lit_val \<sigma> l \<or> clause_sat \<sigma> c"
  by (auto simp: clause_sat_def)

lemma clause_sat_Nil [simp]: "\<not> clause_sat \<sigma> []"
  by (simp add: clause_sat_def)

section \<open>Gate clauses\<close>

lemma list2: "length xs = 2 \<Longrightarrow> \<exists>a b. xs = [a, b]"
  by (cases xs rule: list.exhaust; auto simp: length_Suc_conv numeral_2_eq_2)

lemma list3: "length xs = 3 \<Longrightarrow> \<exists>a b c. xs = [a, b, c]"
  by (cases xs rule: list.exhaust; auto simp: length_Suc_conv numeral_3_eq_3)

definition gate_ok :: "gate_record \<Rightarrow> bool" where
  "gate_ok g \<longleftrightarrow> length (g_ins g) = arity (g_kind g) \<and> 0 \<notin> set (g_ins g) \<and> g_out g \<noteq> 0"

lemma gate_cnf_sat:
  assumes "gate_ok g"
  shows "cnf_sat \<sigma> (gate_cnf g) \<longleftrightarrow> gate_holds \<sigma> g"
proof (cases "g_kind g")
  case Xor2
  with assms obtain a b where "g_ins g = [a, b]" using list2[of "g_ins g"] by (auto simp: gate_ok_def)
  with assms Xor2 show ?thesis
    by (auto simp: gate_cnf_def gate_holds_def canonical_gate_clauses_def Let_def gate_ok_def lit_val_minus)
next
  case And2
  with assms obtain a b where "g_ins g = [a, b]" using list2[of "g_ins g"] by (auto simp: gate_ok_def)
  with assms And2 show ?thesis
    by (auto simp: gate_cnf_def gate_holds_def canonical_gate_clauses_def Let_def gate_ok_def lit_val_minus)
next
  case Xor3
  with assms obtain a b c where "g_ins g = [a, b, c]" using list3[of "g_ins g"] by (auto simp: gate_ok_def)
  with assms Xor3 show ?thesis
    by (auto simp: gate_cnf_def gate_holds_def canonical_gate_clauses_def Let_def gate_ok_def lit_val_minus)
next
  case Maj3
  with assms obtain a b c where "g_ins g = [a, b, c]" using list3[of "g_ins g"] by (auto simp: gate_ok_def)
  with assms Maj3 show ?thesis
    by (auto simp: gate_cnf_def gate_holds_def canonical_gate_clauses_def Let_def gate_ok_def lit_val_minus)
qed

section \<open>The builder's invariant\<close>

text \<open>
  \<open>inv base st\<close>: the clauses are the gates' clauses in order, tagged with their gate, and
  every gate defines a fresh variable above \<open>base\<close> (the input variables) from
  smaller ones.
\<close>

definition gate_fresh :: "gate_record list \<Rightarrow> bool" where
  "gate_fresh gs \<longleftrightarrow> sorted_wrt (<) (map g_out gs) \<and>
     (\<forall>g \<in> set gs. \<forall>l \<in> set (g_ins g). \<bar>l\<bar> < g_out g)"

definition tags_of :: "gate_record list \<Rightarrow> nat option list" where
  "tags_of gs = concat (map (\<lambda>i. map (\<lambda>_. Some i) (gate_cnf (gs ! i))) [0 ..< length gs])"

definition binv :: "nat \<Rightarrow> blaster \<Rightarrow> bool" where
  "binv base st \<longleftrightarrow> clauses st = concat (map gate_cnf (gates st))
     \<and> clause_tags st = tags_of (gates st)
     \<and> (\<forall>g \<in> set (gates st). gate_ok g \<and> int base < g_out g \<and> g_out g \<le> int (next_var st))
     \<and> gate_fresh (gates st) \<and> base \<le> next_var st"

definition bit_ok :: "nat \<Rightarrow> blast_bit \<Rightarrow> bool" where
  "bit_ok n b = (case b of BConst _ \<Rightarrow> True | BLit l \<Rightarrow> l \<noteq> 0 \<and> \<bar>l\<bar> \<le> int n)"

definition holds :: "assignment \<Rightarrow> blaster \<Rightarrow> bool" where
  "holds \<sigma> st \<longleftrightarrow> (\<forall>g \<in> set (gates st). gate_holds \<sigma> g)"

text \<open>\<open>grows st st'\<close>: the builder went from \<open>st\<close> to \<open>st'\<close>.\<close>

definition grows :: "blaster \<Rightarrow> blaster \<Rightarrow> bool" where
  "grows st st' \<longleftrightarrow> (\<exists>gs. gates st' = gates st @ gs) \<and> next_var st \<le> next_var st' \<and> side st' = side st"

lemma grows_refl [simp]: "grows st st"
  by (simp add: grows_def)

lemma grows_trans: "grows st st' \<Longrightarrow> grows st' st'' \<Longrightarrow> grows st st''"
  by (auto simp: grows_def)

lemma holds_grows: "grows st st' \<Longrightarrow> holds \<sigma> st' \<Longrightarrow> holds \<sigma> st"
  by (auto simp: grows_def holds_def)

lemma bit_ok_grows: "grows st st' \<Longrightarrow> bit_ok (next_var st) b \<Longrightarrow> bit_ok (next_var st') b"
  by (auto simp: grows_def bit_ok_def split: blast_bit.splits)

lemma bit_val_negate [simp]: "bit_ok n b \<Longrightarrow> bit_val \<sigma> (negate b) = (\<not> bit_val \<sigma> b)"
  by (cases b) (auto simp: bit_ok_def lit_val_minus)

lemma bit_ok_negate [simp]: "bit_ok n (negate b) = bit_ok n b"
  by (cases b) (auto simp: bit_ok_def)

lemma tags_of_snoc: "tags_of (gs @ [g]) = tags_of gs @ map (\<lambda>_. Some (length gs)) (gate_cnf g)"
proof -
  have "map (\<lambda>i. map (\<lambda>_. Some i) (gate_cnf ((gs @ [g]) ! i))) [0 ..< length gs]
      = map (\<lambda>i. map (\<lambda>_. Some i) (gate_cnf (gs ! i))) [0 ..< length gs]"
    by (rule map_cong) (auto simp: nth_append)
  then show ?thesis by (simp add: tags_of_def del: map_eq_conv)
qed

text \<open>
  \<open>computes base st r f\<close>: from \<open>st\<close>, the step \<open>r\<close> grows the builder, keeps the invariant
  and gives a bit whose value is \<open>f\<close> under every assignment the gates hold for.
\<close>

definition computes :: "nat \<Rightarrow> blaster \<Rightarrow> blast_bit \<times> blaster \<Rightarrow> (assignment \<Rightarrow> bool) \<Rightarrow> bool" where
  "computes base st r f \<longleftrightarrow> (case r of (b, st') \<Rightarrow> binv base st' \<and> grows st st' \<and> bit_ok (next_var st') b
     \<and> (\<forall>\<sigma>. holds \<sigma> st' \<longrightarrow> bit_val \<sigma> b = f \<sigma>))"

lemma computes_leaf: "\<lbrakk>binv base st; bit_ok (next_var st) b; \<And>\<sigma>. bit_val \<sigma> b = f \<sigma>\<rbrakk> \<Longrightarrow> computes base st (b, st) f"
  by (simp add: computes_def)

lemma computes_lit_gate:
  assumes "binv base st" and "length ins = arity k"
    and "\<And>l. l \<in> set ins \<Longrightarrow> l \<noteq> 0 \<and> \<bar>l\<bar> \<le> int (next_var st)"
    and "\<And>\<sigma>. f \<sigma> = gate_eval k (map (lit_val \<sigma>) ins)"
  shows "computes base st (lit_gate k ins st) f"
proof -
  let ?g = "\<lparr>g_side = side st, g_kind = k, g_out = int (next_var st + 1), g_ins = ins\<rparr>"
  let ?st = "st\<lparr>next_var := next_var st + 1, gates := gates st @ [?g], clauses := clauses st @ gate_cnf ?g,
    clause_tags := clause_tags st @ map (\<lambda>_. Some (length (gates st))) (gate_cnf ?g)\<rparr>"
  have eq: "lit_gate k ins st = (BLit (int (next_var st + 1)), ?st)"
    by (simp add: lit_gate_def emit_gate_def fresh_def Let_def gate_cnf_def)
  have "gate_ok ?g" using assms(2,3) by (auto simp: gate_ok_def)
  moreover have "gate_fresh (gates st @ [?g])"
    using assms(1,3) by (force simp: binv_def gate_fresh_def sorted_wrt_append)
  ultimately have "binv base ?st" using assms(1) by (auto simp: binv_def tags_of_snoc)
  then show ?thesis
    using assms(4) unfolding eq by (auto simp: computes_def grows_def bit_ok_def holds_def gate_holds_def)
qed

lemma computes_negate:
  assumes "computes base st r f"
  shows "computes base st (case r of (b, st') \<Rightarrow> (if a then negate b else b, st')) (\<lambda>\<sigma>. a \<noteq> f \<sigma>)"
  using assms by (auto simp: computes_def split: prod.splits)

lemma computes_cong: "computes base st r f \<Longrightarrow> (\<And>\<sigma>. f \<sigma> = g \<sigma>) \<Longrightarrow> computes base st r g"
  by (simp add: computes_def)

lemma computes_xor2:
  assumes "binv base st" and "bit_ok (next_var st) x" and "bit_ok (next_var st) y"
  shows "computes base st (xor2 x y st) (\<lambda>\<sigma>. bit_val \<sigma> x \<noteq> bit_val \<sigma> y)"
  using assms
  by (cases "(x, y, st)" rule: xor2.cases)
     (auto simp: bit_ok_def lit_val_minus intro!: computes_leaf computes_lit_gate)

lemma computes_and2:
  assumes "binv base st" and "bit_ok (next_var st) x" and "bit_ok (next_var st) y"
  shows "computes base st (and2 x y st) (\<lambda>\<sigma>. bit_val \<sigma> x \<and> bit_val \<sigma> y)"
  using assms
  by (cases "(x, y, st)" rule: and2.cases)
     (auto simp: bit_ok_def intro!: computes_leaf computes_lit_gate)

lemma computes_or2:
  assumes "binv base st" and "bit_ok (next_var st) x" and "bit_ok (next_var st) y"
  shows "computes base st (or2 x y st) (\<lambda>\<sigma>. bit_val \<sigma> x \<or> bit_val \<sigma> y)"
  using computes_negate[OF computes_and2[of base st "negate x" "negate y"], where a = True] assms
  by (simp add: or2_def)

lemma computes_xor3:
  assumes "binv base st" and "bit_ok (next_var st) x" and "bit_ok (next_var st) y" and "bit_ok (next_var st) z"
  shows "computes base st (xor3 x y z st) (\<lambda>\<sigma>. (bit_val \<sigma> x \<noteq> bit_val \<sigma> y) \<noteq> bit_val \<sigma> z)"
  using assms
  by (cases "(x, y, z, st)" rule: xor3.cases)
     (auto simp: bit_ok_def simp del: xor2.simps
        intro!: computes_lit_gate computes_cong[OF computes_negate[OF computes_xor2]])

lemma computes_maj3:
  assumes "binv base st" and "bit_ok (next_var st) x" and "bit_ok (next_var st) y" and "bit_ok (next_var st) z"
  shows "computes base st (maj3 x y z st) (\<lambda>\<sigma>. (bit_val \<sigma> x \<and> bit_val \<sigma> y) \<or> (bit_val \<sigma> x \<and> bit_val \<sigma> z)
    \<or> (bit_val \<sigma> y \<and> bit_val \<sigma> z))"
  using assms
  by (cases "(x, y, z, st)" rule: maj3.cases)
     (auto simp: bit_ok_def simp del: and2.simps
        intro!: computes_lit_gate computes_cong[OF computes_and2] computes_cong[OF computes_or2])

section \<open>Bit lists\<close>

text \<open>The value of a list of bits, least significant first.\<close>

definition num :: "bool list \<Rightarrow> int" where
  "num bs = horner_sum of_bool 2 bs"

lemma num_simps [simp]: "num [] = 0" "num (b # bs) = of_bool b + 2 * num bs"
  by (simp_all add: num_def)

lemma bit_num: "bit (num bs) n \<longleftrightarrow> n < length bs \<and> bs ! n"
  by (simp add: num_def bit_horner_sum_bit_iff)

lemma num_bits: "num (map (bit a) [0 ..< n]) = take_bit n a"
  by (simp add: num_def horner_sum_bit_eq_take_bit)

lemma num_bound: "0 \<le> num bs" "num bs < 2 ^ length bs"
  by (induction bs) (auto simp: of_bool_def)

lemma num_Not: "num (map Not bs) = 2 ^ length bs - 1 - num bs"
  by (induction bs) auto

lemma num_replicate_False [simp]: "num (replicate n False) = 0"
  by (induction n) auto

fun add_bits :: "bool list \<Rightarrow> bool list \<Rightarrow> bool \<Rightarrow> bool list" where
  "add_bits (x # xs) (y # ys) c = ((x \<noteq> y) \<noteq> c) # add_bits xs ys ((x \<and> y) \<or> (x \<and> c) \<or> (y \<and> c))"
| "add_bits _ _ c = []"

lemma num_add_bits:
  "length xs = length ys \<Longrightarrow> num (add_bits xs ys c) = take_bit (length xs) (num xs + num ys + of_bool c)"
proof (induction xs ys arbitrary: c rule: list_induct2)
  case (Cons x xs y ys)
  have "(of_bool x + 2 * num xs + (of_bool y + 2 * num ys) + of_bool c) div 2 =
      num xs + num ys + of_bool ((x \<and> y) \<or> (x \<and> c) \<or> (y \<and> c))"
    by (cases x; cases y; cases c; simp)
  moreover have "(of_bool x + 2 * num xs + (of_bool y + 2 * num ys) + of_bool c) mod 2 =
      of_bool ((x \<noteq> y) \<noteq> c)"
    by (cases x; cases y; cases c; simp; presburger)
  ultimately show ?case by (simp add: take_bit_Suc Cons.IH)
qed simp

definition computes_list :: "nat \<Rightarrow> blaster \<Rightarrow> blast_bit list \<times> blaster \<Rightarrow> (assignment \<Rightarrow> bool list) \<Rightarrow> bool" where
  "computes_list base st r f \<longleftrightarrow> (case r of (bs, st') \<Rightarrow> binv base st' \<and> grows st st'
     \<and> list_all (bit_ok (next_var st')) bs \<and> (\<forall>\<sigma>. holds \<sigma> st' \<longrightarrow> map (bit_val \<sigma>) bs = f \<sigma>))"

lemma computesE:
  assumes "computes base st r f"
  obtains b st' where "r = (b, st')" and "binv base st'" and "grows st st'" and "bit_ok (next_var st') b"
    and "\<And>\<sigma>. holds \<sigma> st' \<Longrightarrow> bit_val \<sigma> b = f \<sigma>"
  using assms by (cases r) (auto simp: computes_def)

lemma computes_listE:
  assumes "computes_list base st r f"
  obtains bs st' where "r = (bs, st')" and "binv base st'" and "grows st st'"
    and "list_all (bit_ok (next_var st')) bs" and "\<And>\<sigma>. holds \<sigma> st' \<Longrightarrow> map (bit_val \<sigma>) bs = f \<sigma>"
  using assms by (cases r) (auto simp: computes_list_def)

lemma list_ok_grows: "grows st st' \<Longrightarrow> list_all (bit_ok (next_var st)) bs \<Longrightarrow> list_all (bit_ok (next_var st')) bs"
  by (auto simp: list_all_iff intro: bit_ok_grows)

lemma computes_ripple_add:
  assumes "binv base st" and "length xs = length ys" and "list_all (bit_ok (next_var st)) xs"
    and "list_all (bit_ok (next_var st)) ys" and "bit_ok (next_var st) c"
  shows "computes_list base st (ripple_add xs ys c st)
    (\<lambda>\<sigma>. add_bits (map (bit_val \<sigma>) xs) (map (bit_val \<sigma>) ys) (bit_val \<sigma> c))"
  using assms(2,1,3-)
proof (induction xs ys arbitrary: c st rule: list_induct2)
  case (Cons x xs y ys)
  from Cons.prems have "computes base st (xor3 x y c st) (\<lambda>\<sigma>. (bit_val \<sigma> x \<noteq> bit_val \<sigma> y) \<noteq> bit_val \<sigma> c)"
    by (intro computes_xor3) auto
  then obtain s st1 where s: "xor3 x y c st = (s, st1)" "binv base st1" "grows st st1" "bit_ok (next_var st1) s"
    "\<And>\<sigma>. holds \<sigma> st1 \<Longrightarrow> bit_val \<sigma> s = ((bit_val \<sigma> x \<noteq> bit_val \<sigma> y) \<noteq> bit_val \<sigma> c)" by (rule computesE) blast
  let ?m = "\<lambda>\<sigma>. (bit_val \<sigma> x \<and> bit_val \<sigma> y) \<or> (bit_val \<sigma> x \<and> bit_val \<sigma> c) \<or> (bit_val \<sigma> y \<and> bit_val \<sigma> c)"
  have ok1: "bit_ok (next_var st1) x" "bit_ok (next_var st1) y" "bit_ok (next_var st1) c"
    using Cons.prems bit_ok_grows[OF s(3)] by auto
  obtain c' st2 where c': "(if xs \<noteq> [] then maj3 x y c st1 else (c, st1)) = (c', st2)" "binv base st2" "grows st1 st2"
    "bit_ok (next_var st2) c'" "\<And>\<sigma>. holds \<sigma> st2 \<Longrightarrow> xs \<noteq> [] \<Longrightarrow> bit_val \<sigma> c' = ?m \<sigma>"
    using computes_maj3[OF s(2) ok1] s(2) ok1(3) by (cases "xs = []") (auto elim: computesE)
  have "list_all (bit_ok (next_var st2)) xs" "list_all (bit_ok (next_var st2)) ys"
    using Cons.prems list_ok_grows[OF grows_trans[OF s(3) c'(3)]] by auto
  from Cons.IH[OF c'(2) this c'(4)] obtain ss st3 where ss: "ripple_add xs ys c' st2 = (ss, st3)" "binv base st3"
    "grows st2 st3" "list_all (bit_ok (next_var st3)) ss"
    "\<And>\<sigma>. holds \<sigma> st3 \<Longrightarrow> map (bit_val \<sigma>) ss = add_bits (map (bit_val \<sigma>) xs) (map (bit_val \<sigma>) ys) (bit_val \<sigma> c')"
    by (rule computes_listE) blast
  have "map (bit_val \<sigma>) (s # ss) = add_bits (map (bit_val \<sigma>) (x # xs)) (map (bit_val \<sigma>) (y # ys)) (bit_val \<sigma> c)"
    if "holds \<sigma> st3" for \<sigma>
  proof -
    from that have "holds \<sigma> st2" "holds \<sigma> st1" using holds_grows ss(3) c'(3) by blast+
    with s(5) c'(5) ss(5)[OF that] show ?thesis by (cases "xs = []") auto
  qed
  moreover have "bit_ok (next_var st3) s" using bit_ok_grows[OF grows_trans[OF c'(3) ss(3)] s(4)] .
  moreover have "grows st st3" using grows_trans s(3) c'(3) ss(3) by blast
  ultimately show ?case using ss c'(1) s(1) by (simp add: computes_list_def Let_def del: list.map)
qed (simp add: computes_list_def)

lemma computes_bitwise:
  assumes "binv base st" and "length xs = length ys" and "list_all (bit_ok (next_var st)) xs"
    and "list_all (bit_ok (next_var st)) ys"
    and f: "\<And>x y st. \<lbrakk>binv base st; bit_ok (next_var st) x; bit_ok (next_var st) y\<rbrakk> \<Longrightarrow> computes base st
      (case k of And2 \<Rightarrow> and2 x y st | Xor2 \<Rightarrow> xor2 x y st | _ \<Rightarrow> or2 x y st) (\<lambda>\<sigma>. f (bit_val \<sigma> x) (bit_val \<sigma> y))"
  shows "computes_list base st (bitwise k xs ys st) (\<lambda>\<sigma>. map2 f (map (bit_val \<sigma>) xs) (map (bit_val \<sigma>) ys))"
  using assms(2,1,3,4)
proof (induction xs ys arbitrary: st rule: list_induct2)
  case (Cons x xs y ys)
  from Cons.prems f[of st x y] obtain b st1 where b:
    "(case k of And2 \<Rightarrow> and2 x y st | Xor2 \<Rightarrow> xor2 x y st | _ \<Rightarrow> or2 x y st) = (b, st1)" "binv base st1" "grows st st1"
    "bit_ok (next_var st1) b" "\<And>\<sigma>. holds \<sigma> st1 \<Longrightarrow> bit_val \<sigma> b = f (bit_val \<sigma> x) (bit_val \<sigma> y)"
    by (auto elim: computesE)
  have "list_all (bit_ok (next_var st1)) xs" "list_all (bit_ok (next_var st1)) ys"
    using Cons.prems list_ok_grows[OF b(3)] by auto
  from Cons.IH[OF b(2) this] obtain bs st2 where bs: "bitwise k xs ys st1 = (bs, st2)" "binv base st2" "grows st1 st2"
    "list_all (bit_ok (next_var st2)) bs"
    "\<And>\<sigma>. holds \<sigma> st2 \<Longrightarrow> map (bit_val \<sigma>) bs = map2 f (map (bit_val \<sigma>) xs) (map (bit_val \<sigma>) ys)"
    by (rule computes_listE) blast
  from b bs show ?case
    by (auto simp: computes_list_def Let_def intro: grows_trans bit_ok_grows holds_grows)
qed (simp add: computes_list_def)

lemma num_map2:
  assumes "length xs = length ys"
  shows "num (map2 (\<and>) xs ys) = num xs AND num ys"
    and "num (map2 (\<or>) xs ys) = num xs OR num ys"
    and "num (map2 (\<noteq>) xs ys) = num xs XOR num ys"
  using assms by (auto intro!: bit_eqI simp: bit_num bit_simps)

section \<open>Every input assignment extends to the gates\<close>

lemma lit_val_update:
  assumes "\<bar>l\<bar> < v" shows "lit_val (\<sigma>(v := b)) l = lit_val \<sigma> l"
  using assms by (auto simp: lit_val_def)

lemma gates_extend:
  assumes "gate_fresh gs" and "\<And>g. g \<in> set gs \<Longrightarrow> 0 < g_out g"
  shows "\<exists>\<sigma>. (\<forall>g \<in> set gs. gate_holds \<sigma> g) \<and> (\<forall>v. v \<notin> g_out ` set gs \<longrightarrow> \<sigma> v = \<sigma>0 v)"
  using assms
proof (induction gs rule: rev_induct)
  case (snoc g gs)
  from snoc.prems have fr: "gate_fresh gs" and lt: "\<And>h. h \<in> set gs \<Longrightarrow> g_out h < g_out g"
    and ins: "\<And>h l. h \<in> set (gs @ [g]) \<Longrightarrow> l \<in> set (g_ins h) \<Longrightarrow> \<bar>l\<bar> < g_out h" and pos: "0 < g_out g"
    by (auto simp: gate_fresh_def sorted_wrt_append)
  from snoc.IH[OF fr] snoc.prems(2) obtain \<sigma> where \<sigma>: "\<And>h. h \<in> set gs \<Longrightarrow> gate_holds \<sigma> h"
    "\<And>v. v \<notin> g_out ` set gs \<Longrightarrow> \<sigma> v = \<sigma>0 v" by auto
  define \<sigma>' where "\<sigma>' = \<sigma>(g_out g := gate_eval (g_kind g) (map (lit_val \<sigma>) (g_ins g)))"
  have same: "map (lit_val \<sigma>') (g_ins h) = map (lit_val \<sigma>) (g_ins h)" if "h \<in> set (gs @ [g])" for h
    using ins[OF that] lt that unfolding \<sigma>'_def by (auto intro!: lit_val_update) (meson order.strict_trans)
  have "gate_holds \<sigma>' h" if "h \<in> set gs" for h
  proof -
    have "lit_val \<sigma>' (g_out h) = lit_val \<sigma> (g_out h)"
      using lt[OF that] snoc.prems(2)[of h] that unfolding \<sigma>'_def by (intro lit_val_update) auto
    with \<sigma>(1)[OF that] same[of h] that show ?thesis by (simp add: gate_holds_def del: map_eq_conv)
  qed
  moreover have "gate_holds \<sigma>' g"
  proof -
    have "lit_val \<sigma>' (g_out g) = gate_eval (g_kind g) (map (lit_val \<sigma>) (g_ins g))"
      using pos by (simp add: \<sigma>'_def lit_val_def[of _ "g_out g"])
    with same[of g] show ?thesis by (simp add: gate_holds_def del: map_eq_conv)
  qed
  moreover have "\<sigma>' v = \<sigma>0 v" if "v \<notin> g_out ` set (gs @ [g])" for v using that \<sigma>(2) by (simp add: \<sigma>'_def)
  ultimately show ?case by (intro exI[of _ \<sigma>']) auto
qed auto

lemma binv_extend:
  assumes "binv base st"
  shows "\<exists>\<sigma>. holds \<sigma> st \<and> (\<forall>v. v \<le> int base \<longrightarrow> \<sigma> v = \<sigma>0 v)"
proof -
  from assms have fr: "gate_fresh (gates st)" and above: "\<And>g. g \<in> set (gates st) \<Longrightarrow> int base < g_out g"
    by (auto simp: binv_def)
  then have "\<And>g. g \<in> set (gates st) \<Longrightarrow> 0 < g_out g" by fastforce
  from gates_extend[OF fr this, of \<sigma>0] obtain \<sigma> where "\<forall>g \<in> set (gates st). gate_holds \<sigma> g"
    and out: "\<forall>v. v \<notin> g_out ` set (gates st) \<longrightarrow> \<sigma> v = \<sigma>0 v" by blast
  moreover have "\<sigma> v = \<sigma>0 v" if "v \<le> int base" for v
  proof -
    have "v \<notin> g_out ` set (gates st)" using above that by force
    with out show ?thesis by blast
  qed
  ultimately show ?thesis by (auto simp: holds_def)
qed

lemma computes_list_length:
  assumes "computes_list base st (bs, st') f" and "\<And>\<sigma>. length (f \<sigma>) = n"
  shows "length bs = n"
proof -
  from assms(1) have "binv base st'" by (simp add: computes_list_def)
  then obtain \<sigma> where "holds \<sigma> st'" using binv_extend by blast
  with assms(1) have "map (bit_val \<sigma>) bs = f \<sigma>" by (simp add: computes_list_def)
  from arg_cong[OF this, of length] show ?thesis using assms(2) by simp
qed

section \<open>Expressions\<close>

text \<open>
  \<open>env_rel \<sigma> benv m\<close>: the map \<open>m\<close> binds every blasted input to a number whose low bits are
  the values of the input's bits.
\<close>

definition env_rel :: "assignment \<Rightarrow> bit_env \<Rightarrow> hash_env \<Rightarrow> bool" where
  "env_rel \<sigma> benv m \<longleftrightarrow> (\<forall>n bs. benv n = Some bs \<longrightarrow>
     (\<exists>v. m n = Some v \<and> map (bit_val \<sigma>) bs = map (bit v) [0 ..< length bs]))"

definition benv_ok :: "nat \<Rightarrow> bit_env \<Rightarrow> bool" where
  "benv_ok k benv \<longleftrightarrow> (\<forall>n bs. benv n = Some bs \<longrightarrow> list_all (bit_ok k) bs)"

text \<open>
  \<open>blasts\<close>: the bits of \<open>e\<close> have the value of \<open>e\<close>.
\<close>

definition blasts :: "nat \<Rightarrow> bit_env \<Rightarrow> blaster \<Rightarrow> smt_expr \<Rightarrow> nat \<Rightarrow> blast_bit list \<Rightarrow> blaster \<Rightarrow> bool" where
  "blasts base benv st e w bs st' \<longleftrightarrow> binv base st' \<and> grows st st' \<and> list_all (bit_ok (next_var st')) bs \<and>
     length bs = w \<and> (\<forall>\<sigma> m. holds \<sigma> st' \<longrightarrow> env_rel \<sigma> benv m \<longrightarrow>
       (\<exists>v. eval_m e m = Inr (Bv v) \<and> uint v = num (map (bit_val \<sigma>) bs)))"

lemma take_bit_mod64: "w \<le> 64 \<Longrightarrow> take_bit w (x mod 18446744073709551616) = take_bit w (x :: int)"
proof -
  assume "w \<le> 64"
  then have "take_bit w (take_bit 64 x) = take_bit w x" by (simp add: min_def)
  then show ?thesis by (simp add: take_bit_eq_mod)
qed

lemma uint_take_bit_op:
  fixes a b :: u64
  assumes "w \<le> 64"
  shows "uint (take_bit w (a + b)) = take_bit w (uint a + uint b)"
    and "uint (take_bit w (a - b)) = take_bit w (uint a - uint b)"
    and "uint (take_bit w (a AND b)) = take_bit w (uint a AND uint b)"
    and "uint (take_bit w (a OR b)) = take_bit w (uint a OR uint b)"
    and "uint (take_bit w (a XOR b)) = take_bit w (uint a XOR uint b)"
    and "uint (take_bit w (NOT a + 1)) = take_bit w (- uint a)"
  using assms
  by (simp_all add: unsigned_take_bit_eq uint_word_ariths unsigned_and_eq unsigned_or_eq unsigned_xor_eq
    not_eq_complement take_bit_mod64)

lemma blastsE:
  assumes "blasts base benv st e w bs st'" and "holds \<sigma> st'" and "env_rel \<sigma> benv m"
  obtains v where "eval_m e m = Inr (Bv v)" and "uint v = num (map (bit_val \<sigma>) bs)"
  using assms unfolding blasts_def by blast

lemma blasts_binop:
  assumes a: "blasts base benv st a w x st1" and b: "blasts base benv st1 b w y st2"
    and c: "computes_list base st2 (bs, st') (\<lambda>\<sigma>. G (map (bit_val \<sigma>) x) (map (bit_val \<sigma>) y))"
    and len: "\<And>xs ys. length xs = w \<Longrightarrow> length ys = w \<Longrightarrow> length (G xs ys) = w"
    and ev: "\<And>m va vb xs ys. \<lbrakk>eval_m a m = Inr (Bv va); eval_m b m = Inr (Bv vb); uint va = num xs; uint vb = num ys;
       length xs = w; length ys = w\<rbrakk> \<Longrightarrow> \<exists>v. eval_m e m = Inr (Bv v) \<and> uint v = num (G xs ys)"
  shows "blasts base benv st e w bs st'"
proof -
  from a b c have st: "grows st st1" "grows st1 st2" "grows st2 st'" by (auto simp: blasts_def computes_list_def)
  from grows_trans[OF st(1) grows_trans[OF st(2,3)]] have "grows st st'" .
  moreover have "length bs = w" using a b by (intro computes_list_length[OF c] len) (auto simp: blasts_def)
  moreover have "\<exists>v. eval_m e m = Inr (Bv v) \<and> uint v = num (map (bit_val \<sigma>) bs)"
    if "holds \<sigma> st'" "env_rel \<sigma> benv m" for \<sigma> m
  proof -
    have "holds \<sigma> st2" using holds_grows[OF st(3) that(1)] .
    from blastsE[OF a holds_grows[OF st(2) this] that(2)] obtain va
      where va: "eval_m a m = Inr (Bv va)" "uint va = num (map (bit_val \<sigma>) x)" .
    from blastsE[OF b \<open>holds \<sigma> st2\<close> that(2)] obtain vb
      where vb: "eval_m b m = Inr (Bv vb)" "uint vb = num (map (bit_val \<sigma>) y)" .
    from c that have "map (bit_val \<sigma>) bs = G (map (bit_val \<sigma>) x) (map (bit_val \<sigma>) y)" by (simp add: computes_list_def)
    with ev[OF va(1) vb(1) va(2) vb(2)] a b show ?thesis by (simp add: blasts_def)
  qed
  ultimately show ?thesis using c by (simp add: blasts_def computes_list_def)
qed

lemma length_add_bits [simp]: "length xs = length ys \<Longrightarrow> length (add_bits xs ys c) = length xs"
  by (induction xs ys arbitrary: c rule: list_induct2) auto

lemma take_bit_num [simp]: "length xs = w \<Longrightarrow> take_bit w (num xs) = num xs"
  using num_bound[of xs] by (simp add: take_bit_int_eq_self)

lemma take_bit_num_ops:
  assumes "length xs = w" and "length ys = w"
  shows "take_bit w (num xs AND num ys) = num xs AND num ys"
    and "take_bit w (num xs OR num ys) = num xs OR num ys"
    and "take_bit w (num xs XOR num ys) = num xs XOR num ys"
  using assms by simp_all

lemma num_sub:
  assumes "length xs = length ys"
  shows "num (add_bits xs (map Not ys) True) = take_bit (length xs) (num xs - num ys)"
proof -
  have "num (add_bits xs (map Not ys) True) = take_bit (length xs) (num xs - num ys + 2 ^ length xs)"
    using assms by (simp add: num_add_bits num_Not algebra_simps)
  then show ?thesis by (simp add: take_bit_eq_mod)
qed

lemma blast_Var:
  assumes "blast_expr (Var n w) benv st = Inr (bs, st')" and "w \<le> 64" and "binv base st" and "benv_ok base benv"
  shows "blasts base benv st (Var n w) w bs st'"
proof -
  from assms(1) have n: "benv n = Some bs" and [simp]: "st' = st" and len: "length bs = w"
    by (auto split: option.splits if_splits)
  have "list_all (bit_ok (next_var st)) bs"
    using assms(3,4) n by (fastforce simp: benv_ok_def binv_def list_all_iff bit_ok_def split: blast_bit.splits)
  moreover have "\<exists>v. eval_m (Var n w) m = Inr (Bv v) \<and> uint v = num (map (bit_val \<sigma>) bs)"
    if rel: "env_rel \<sigma> benv m" for \<sigma> m
  proof -
    from rel n len obtain v where "m n = Some v" "map (bit_val \<sigma>) bs = map (bit v) [0 ..< w]"
      by (auto simp: env_rel_def)
    moreover have "map (bit v) [0 ..< w] = map (bit (uint v)) [0 ..< w]"
      using assms(2) by (auto simp: bit_uint_iff)
    ultimately show ?thesis
      by (simp add: map_get_var_def mask64_take_bit unsigned_take_bit_eq num_bits del: map_eq_conv)
  qed
  ultimately show ?thesis using assms(3) len by (auto simp: blasts_def)
qed

lemma blast_BvConst:
  assumes "w \<le> 64" and "binv base st"
  shows "blasts base benv st (BvConst v w) w (map (\<lambda>i. BConst (drop_bit i v AND 1 = 1)) [0 ..< w]) st"
proof -
  have "(drop_bit i v AND 1 = 1) = bit (uint v) i" if "i < w" for i
    using that assms(1) by (simp add: bit_uint_iff bit_iff_and_drop_bit_eq_1[of v i, symmetric])
  then have "map (bit_val \<sigma>) (map (\<lambda>i. BConst (drop_bit i v AND 1 = 1)) [0 ..< w]) = map (bit (uint v)) [0 ..< w]" for \<sigma>
    by simp
  with assms show ?thesis
    by (auto simp: blasts_def list_all_iff bit_ok_def mask64_take_bit unsigned_take_bit_eq num_bits
      simp del: map_map map_eq_conv)
qed

lemma binop_operandsE:
  assumes "binop_operands lhs rhs f = Inr (bs, st')"
  obtains x st1 y st2 where "lhs = Inr (x, st1)" and "rhs st1 = Inr (y, st2)" and "length x = length y"
    and "f x y st2 = (bs, st')"
  using assms by (auto simp: binop_operands_def split: if_splits)

text \<open>The builder operation of each binary node, and the arm of \<open>try_eval\<close> it computes.\<close>

lemma node_computes:
  assumes "binv base st" and "length x = w" and "length y = w"
    and "list_all (bit_ok (next_var st)) x" and "list_all (bit_ok (next_var st)) y"
  shows "computes_list base st (ripple_add x y (BConst False) st)
      (\<lambda>\<sigma>. add_bits (map (bit_val \<sigma>) x) (map (bit_val \<sigma>) y) False)"
    and "computes_list base st (ripple_add x (map negate y) (BConst True) st)
      (\<lambda>\<sigma>. add_bits (map (bit_val \<sigma>) x) (map Not (map (bit_val \<sigma>) y)) True)"
    and "computes_list base st (bitwise And2 x y st) (\<lambda>\<sigma>. map2 (\<and>) (map (bit_val \<sigma>) x) (map (bit_val \<sigma>) y))"
    and "computes_list base st (bitwise Maj3 x y st) (\<lambda>\<sigma>. map2 (\<or>) (map (bit_val \<sigma>) x) (map (bit_val \<sigma>) y))"
    and "computes_list base st (bitwise Xor2 x y st) (\<lambda>\<sigma>. map2 (\<noteq>) (map (bit_val \<sigma>) x) (map (bit_val \<sigma>) y))"
proof -
  have neg: "map (bit_val \<sigma>) (map negate y) = map Not (map (bit_val \<sigma>) y)" for \<sigma>
    using assms(5) by (auto simp: list_all_iff)
  have "list_all (bit_ok (next_var st)) (map negate y)" using assms(5) by (simp add: list_all_iff)
  with computes_ripple_add[of base st x "map negate y" "BConst True"] assms
  show "computes_list base st (ripple_add x (map negate y) (BConst True) st)
      (\<lambda>\<sigma>. add_bits (map (bit_val \<sigma>) x) (map Not (map (bit_val \<sigma>) y)) True)"
    by (simp add: bit_ok_def neg del: map_map)
  show "computes_list base st (ripple_add x y (BConst False) st)
      (\<lambda>\<sigma>. add_bits (map (bit_val \<sigma>) x) (map (bit_val \<sigma>) y) False)"
    using computes_ripple_add[of base st x y "BConst False"] assms by (simp add: bit_ok_def)
  show "computes_list base st (bitwise Xor2 x y st) (\<lambda>\<sigma>. map2 (\<noteq>) (map (bit_val \<sigma>) x) (map (bit_val \<sigma>) y))"
    by (rule computes_bitwise) (use assms in \<open>auto intro: computes_cong[OF computes_xor2]\<close>)
qed (use assms in \<open>auto intro!: computes_bitwise computes_and2 computes_or2\<close>)

lemma node_eval:
  assumes "eval_m a m = Inr (Bv va)" and "eval_m b m = Inr (Bv vb)" and "uint va = num xs" and "uint vb = num ys"
    and "length xs = w" and "length ys = w" and "w \<le> 64"
  shows "\<exists>v. eval_m (BvAdd a b w) m = Inr (Bv v) \<and> uint v = num (add_bits xs ys False)"
    and "\<exists>v. eval_m (BvSub a b w) m = Inr (Bv v) \<and> uint v = num (add_bits xs (map Not ys) True)"
    and "\<exists>v. eval_m (BvAnd a b w) m = Inr (Bv v) \<and> uint v = num (map2 (\<and>) xs ys)"
    and "\<exists>v. eval_m (BvOr a b w) m = Inr (Bv v) \<and> uint v = num (map2 (\<or>) xs ys)"
    and "\<exists>v. eval_m (BvXor a b w) m = Inr (Bv v) \<and> uint v = num (map2 (\<noteq>) xs ys)"
proof -
  show "\<exists>v. eval_m (BvXor a b w) m = Inr (Bv v) \<and> uint v = num (map2 (\<noteq>) xs ys)"
    using assms unfolding num_map2(3)[OF trans[OF assms(5) assms(6)[symmetric]]]
    by (simp add: bv_op_def mask64_take_bit uint_take_bit_op del: take_bit_xor) simp
  show "\<exists>v. eval_m (BvSub a b w) m = Inr (Bv v) \<and> uint v = num (add_bits xs (map Not ys) True)"
    using assms unfolding num_sub[OF trans[OF assms(5) assms(6)[symmetric]]]
    by (simp add: bv_op_def mask64_take_bit uint_take_bit_op)
qed (use assms in \<open>simp_all add: bv_op_def mask64_take_bit uint_take_bit_op num_add_bits num_map2
    del: take_bit_and take_bit_or\<close>, simp_all)

lemma blast_binop:
  assumes "binop_operands (blast_expr a benv st) (blast_expr b benv) F = Inr (bs, st')"
    and a: "\<And>x st1. blast_expr a benv st = Inr (x, st1) \<Longrightarrow> blasts base benv st a w x st1"
    and b: "\<And>st1 y st2. \<lbrakk>binv base st1; blast_expr b benv st1 = Inr (y, st2)\<rbrakk> \<Longrightarrow> blasts base benv st1 b w y st2"
    and F: "\<And>x y st. \<lbrakk>binv base st; length x = w; length y = w; list_all (bit_ok (next_var st)) x;
      list_all (bit_ok (next_var st)) y\<rbrakk> \<Longrightarrow>
      computes_list base st (F x y st) (\<lambda>\<sigma>. G (map (bit_val \<sigma>) x) (map (bit_val \<sigma>) y))"
    and len: "\<And>xs ys. length xs = w \<Longrightarrow> length ys = w \<Longrightarrow> length (G xs ys) = w"
    and ev: "\<And>m va vb xs ys. \<lbrakk>eval_m a m = Inr (Bv va); eval_m b m = Inr (Bv vb); uint va = num xs; uint vb = num ys;
       length xs = w; length ys = w\<rbrakk> \<Longrightarrow> \<exists>v. eval_m e m = Inr (Bv v) \<and> uint v = num (G xs ys)"
  shows "blasts base benv st e w bs st'"
proof -
  from assms(1) obtain x st1 y st2 where x: "blast_expr a benv st = Inr (x, st1)"
    and y: "blast_expr b benv st1 = Inr (y, st2)" and f: "F x y st2 = (bs, st')" by (rule binop_operandsE)
  from a[OF x] have ax: "blasts base benv st a w x st1" .
  then have "binv base st1" by (simp add: blasts_def)
  from b[OF this y] have yb: "blasts base benv st1 b w y st2" .
  have "computes_list base st2 (bs, st') (\<lambda>\<sigma>. G (map (bit_val \<sigma>) x) (map (bit_val \<sigma>) y))"
    using F[of st2 x y] ax yb list_ok_grows[of st1 st2 x] unfolding f by (simp add: blasts_def)
  from blasts_binop[OF ax yb this len ev] show ?thesis .
qed

lemma blast_BvNeg:
  assumes "blast_expr (BvNeg a w) benv st = Inr (bs, st')" and "w \<le> 64"
    and a: "\<And>x st1. blast_expr a benv st = Inr (x, st1) \<Longrightarrow> blasts base benv st a w x st1"
  shows "blasts base benv st (BvNeg a w) w bs st'"
proof -
  from assms(1) obtain x st1 where x: "blast_expr a benv st = Inr (x, st1)" and lx: "length x = w"
    and f: "ripple_add (map negate x) (replicate w (BConst False)) (BConst True) st1 = (bs, st')"
    by (auto simp: Let_def split: if_splits)
  from a[OF x] have ax: "blasts base benv st a w x st1" .
  then have inv: "binv base st1" and ok: "list_all (bit_ok (next_var st1)) x" by (auto simp: blasts_def)
  have neg: "map (bit_val \<sigma>) (map negate x) = map Not (map (bit_val \<sigma>) x)" for \<sigma>
    using ok by (auto simp: list_all_iff)
  have "list_all (bit_ok (next_var st1)) (map negate x)" "list_all (bit_ok (next_var st1)) (replicate w (BConst False))"
    using ok by (simp_all add: list_all_iff bit_ok_def[of _ "BConst _"])
  with computes_ripple_add[of base st1 "map negate x" "replicate w (BConst False)" "BConst True"] inv lx
  have c: "computes_list base st1 (bs, st') (\<lambda>\<sigma>. add_bits (map Not (map (bit_val \<sigma>) x)) (replicate w False) True)"
    unfolding f[symmetric] by (simp add: bit_ok_def neg del: map_map)
  have "num (add_bits (map Not bs) (replicate w False) True) = take_bit w (- num bs)" if "length bs = w" for bs
    using that num_sub[of "replicate w False" bs] by (simp add: num_add_bits add.commute)
  with assms(2) blasts_binop[OF ax blast_BvConst[OF assms(2) inv], where e = "BvNeg a w"
      and G = "\<lambda>xs ys. add_bits (map Not xs) (replicate w False) True" and bs = bs and st' = st'] c
  show ?thesis by (simp add: neg_op_def mask64_take_bit uint_take_bit_op(6) del: map_map)
qed

lemma blast_nodes:
  assumes a: "\<And>x st1. blast_expr a benv st = Inr (x, st1) \<Longrightarrow> blasts base benv st a w x st1"
    and b: "\<And>st1 y st2. \<lbrakk>binv base st1; blast_expr b benv st1 = Inr (y, st2)\<rbrakk> \<Longrightarrow> blasts base benv st1 b w y st2"
    and w: "w \<le> 64"
  shows "blast_expr (BvAdd a b w) benv st = Inr (bs, st') \<Longrightarrow> blasts base benv st (BvAdd a b w) w bs st'"
    and "blast_expr (BvSub a b w) benv st = Inr (bs, st') \<Longrightarrow> blasts base benv st (BvSub a b w) w bs st'"
    and "blast_expr (BvAnd a b w) benv st = Inr (bs, st') \<Longrightarrow> blasts base benv st (BvAnd a b w) w bs st'"
    and "blast_expr (BvOr a b w) benv st = Inr (bs, st') \<Longrightarrow> blasts base benv st (BvOr a b w) w bs st'"
    and "blast_expr (BvXor a b w) benv st = Inr (bs, st') \<Longrightarrow> blasts base benv st (BvXor a b w) w bs st'"
  unfolding blast_expr.simps
  by ((rule blast_binop, assumption, erule a, erule (1) b,
      (rule node_computes; assumption), simp, (rule node_eval; (assumption | rule w)))+)

lemma blast_expr_correct:
  assumes "well_sorted e s" and "s = BitVec w" and "w \<le> 64" and "binv base st" and "benv_ok base benv"
    and "blast_expr e benv st = Inr (bs, st')"
  shows "blasts base benv st e w bs st'"
  using assms
proof (induction arbitrary: w st bs st' rule: well_sorted.induct)
  case (ws_Var w' n)
  then show ?case using blast_Var[of n w' benv st bs st' base] by simp
next
  case (ws_BvConst w' v)
  then show ?case using blast_BvConst[of w base st benv v] by simp
next
  case (ws_BvNeg w' a)
  then have [simp]: "w' = w" by simp
  from ws_BvNeg show ?case using blast_BvNeg[of a w benv st bs st' base] by (auto simp del: blast_expr.simps)
next
  case (ws_bin c w' a b)
  then have [simp]: "w' = w" by simp
  have a: "\<And>x st1. blast_expr a benv st = Inr (x, st1) \<Longrightarrow> blasts base benv st a w x st1"
    and b: "\<And>st1 y st2. \<lbrakk>binv base st1; blast_expr b benv st1 = Inr (y, st2)\<rbrakk> \<Longrightarrow> blasts base benv st1 b w y st2"
    using ws_bin by auto
  have e: "blast_expr (c a b w) benv st = Inr (bs, st')" and w: "w \<le> 64" using ws_bin.prems by auto
  from ws_bin.hyps(1) e have "c \<in> {BvAdd, BvSub, BvAnd, BvOr, BvXor}" by auto
  then consider "c = BvAdd" | "c = BvSub" | "c = BvAnd" | "c = BvOr" | "c = BvXor" by blast
  then show ?case unfolding \<open>w' = w\<close>
    by cases (insert e, (simp only:, rule blast_nodes, erule a, erule (1) b, rule w, assumption)+)
qed auto

section \<open>Inputs\<close>

lemma alloc_bits_eq:
  "alloc_bits w st = (map int [next_var st + 1 ..< next_var st + w + 1], st\<lparr>next_var := next_var st + w\<rparr>)"
proof (induction w arbitrary: st)
  case (Suc w)
  have "[next_var st + 1 ..< next_var st + Suc w + 1] = (next_var st + 1) # [next_var st + 2 ..< next_var st + Suc w + 1]"
    by (simp add: upt_conv_Cons)
  with Suc show ?case by (simp add: fresh_def Let_def)
qed simp

lemma alloc_inputs_state:
  "alloc_inputs ins benv st = Inr (benv', ids, st') \<Longrightarrow> benv_ok (next_var st) benv \<Longrightarrow>
     st' = st\<lparr>next_var := next_var st'\<rparr> \<and> next_var st \<le> next_var st' \<and> benv_ok (next_var st') benv'
     \<and> (\<forall>n bs. benv' n = Some bs \<longrightarrow> benv n = Some bs \<or> (n, length bs) \<in> set ins)"
proof (induction ins benv st arbitrary: benv' ids st' rule: alloc_inputs.induct)
  case (2 name width rest benv st)
  let ?ids = "map int [next_var st + 1 ..< next_var st + width + 1]"
  let ?st = "st\<lparr>next_var := next_var st + width\<rparr>"
  from "2.prems"(1) obtain ids' where new: "benv name = None"
    and rec: "alloc_inputs rest (benv(name \<mapsto> map BLit ?ids)) ?st = Inr (benv', ids', st')"
    by (auto simp: alloc_bits_eq split: if_splits)
  have "benv_ok (next_var ?st) (benv(name \<mapsto> map BLit ?ids))"
    using "2.prems"(2) by (force simp: benv_ok_def list_all_iff bit_ok_def split: blast_bit.splits)
  from "2.IH"[OF alloc_bits_eq[symmetric] refl _ rec this] new
  have IH: "st' = ?st\<lparr>next_var := next_var st'\<rparr>" "next_var ?st \<le> next_var st'" "benv_ok (next_var st') benv'"
    "\<And>n bs. benv' n = Some bs \<Longrightarrow> (benv(name \<mapsto> map BLit ?ids)) n = Some bs \<or> (n, length bs) \<in> set rest" by auto
  have "benv n = Some bs \<or> (n, length bs) \<in> set ((name, width) # rest)" if "benv' n = Some bs" for n bs
    using IH(4)[OF that] by (auto split: if_splits)
  with IH(1-3) show ?case by simp
qed auto

lemma bit_val_cong:
  assumes "bit_ok k b" and "\<And>v. v \<le> int k \<Longrightarrow> \<sigma> v = \<sigma>' v"
  shows "bit_val \<sigma> b = bit_val \<sigma>' b"
  using assms by (cases b) (auto simp: bit_ok_def lit_val_def)

lemma env_rel_cong:
  assumes "env_rel \<sigma> benv m" and "benv_ok k benv" and "\<And>v. v \<le> int k \<Longrightarrow> \<sigma> v = \<sigma>' v"
  shows "env_rel \<sigma>' benv m"
proof -
  have "map (bit_val \<sigma>') bs = map (bit_val \<sigma>) bs" if "benv n = Some bs" for n bs
    using assms(2,3) that bit_val_cong[of k _ \<sigma> \<sigma>'] by (auto simp: benv_ok_def list_all_iff)
  with assms(1) show ?thesis by (simp add: env_rel_def del: map_eq_conv)
qed

lemma env_rel_upd:
  "\<lbrakk>env_rel \<sigma> benv m; m n = Some v; map (bit_val \<sigma>) bs = map (bit v) [0 ..< w]; w = length bs\<rbrakk>
    \<Longrightarrow> env_rel \<sigma> (benv(n \<mapsto> bs)) m"
  by (simp add: env_rel_def)

lemma env_rel_fresh:
  assumes "env_rel \<sigma> benv m" and "benv_ok k benv" and "m n = Some v"
  shows "env_rel (\<lambda>x. if int k < x then bit v (nat (x - int k - 1)) else \<sigma> x)
    (benv(n \<mapsto> map BLit (map int [k + 1 ..< k + w + 1]))) m"
proof -
  let ?\<sigma> = "\<lambda>x. if int k < x then bit v (nat (x - int k - 1)) else \<sigma> x"
  have "env_rel ?\<sigma> benv m" by (rule env_rel_cong[OF assms(1,2)]) simp
  moreover have "map (bit_val ?\<sigma>) (map BLit (map int [k + 1 ..< k + w + 1])) = map (bit v) [0 ..< w]"
    by (rule nth_equalityI) (auto simp: lit_val_def nth_append simp del: upt_Suc)
  ultimately show ?thesis using assms(3) by (intro env_rel_upd[where v = v and w = w]) simp_all
qed

lemma alloc_inputs_rel:
  "\<lbrakk>alloc_inputs ins benv st = Inr (benv', ids, st'); benv_ok (next_var st) benv; env_rel \<sigma> benv m;
     fst ` set ins \<subseteq> dom m\<rbrakk> \<Longrightarrow> \<exists>\<sigma>'. env_rel \<sigma>' benv' m"
proof (induction ins benv st arbitrary: \<sigma> benv' ids st' rule: alloc_inputs.induct)
  case (2 name width rest benv st)
  let ?ids = "map int [next_var st + 1 ..< next_var st + width + 1]"
  let ?st = "st\<lparr>next_var := next_var st + width\<rparr>"
  from "2.prems"(1) obtain ids' where new: "benv name = None"
    and rec: "alloc_inputs rest (benv(name \<mapsto> map BLit ?ids)) ?st = Inr (benv', ids', st')"
    by (auto simp: alloc_bits_eq split: if_splits)
  have ok: "benv_ok (next_var ?st) (benv(name \<mapsto> map BLit ?ids))"
    using "2.prems"(2) by (force simp: benv_ok_def list_all_iff bit_ok_def split: blast_bit.splits)
  from "2.prems"(4) obtain v where "m name = Some v" by auto
  from env_rel_fresh[OF "2.prems"(3,2) this, of width]
  have "env_rel (\<lambda>x. if int (next_var st) < x then bit v (nat (x - int (next_var st) - 1)) else \<sigma> x)
    (benv(name \<mapsto> map BLit ?ids)) m" .
  from "2.IH"[OF alloc_bits_eq[symmetric] refl _ rec ok this] new "2.prems"(4) show ?case
    by (simp del: fun_upd_apply upt_Suc)
qed auto

text \<open>Reading the inputs back from an assignment.\<close>

definition read_env :: "assignment \<Rightarrow> bit_env \<Rightarrow> hash_env" where
  "read_env \<sigma> benv n = Some (case benv n of None \<Rightarrow> 0 | Some bs \<Rightarrow> word_of_int (num (map (bit_val \<sigma>) bs)))"

lemma read_env_rel:
  assumes "\<And>n bs. benv n = Some bs \<Longrightarrow> length bs \<le> 64"
  shows "env_rel \<sigma> benv (read_env \<sigma> benv)"
  unfolding env_rel_def
proof (intro allI impI)
  fix n bs assume n: "benv n = Some bs"
  have "map (bit_val \<sigma>) bs = map (bit (word_of_int (num (map (bit_val \<sigma>) bs)) :: u64)) [0 ..< length bs]"
    using assms[OF n] by (intro nth_equalityI) (auto simp: bit_word_of_int_iff bit_num)
  with n show "\<exists>v. read_env \<sigma> benv n = Some v \<and> map (bit_val \<sigma>) bs = map (bit v) [0 ..< length bs]"
    by (simp add: read_env_def)
qed

section \<open>The miter\<close>

lemma binv_side [simp]: "binv base (st\<lparr>side := d\<rparr>) = binv base st" "holds \<sigma> (st\<lparr>side := d\<rparr>) = holds \<sigma> st"
  by (simp_all add: binv_def holds_def)

lemma clauses_holds: "binv base st \<Longrightarrow> cnf_sat \<sigma> (clauses st) = holds \<sigma> st"
  using gate_cnf_sat by (auto simp: binv_def holds_def cnf_sat_def)

lemma diff_bits_correct:
  assumes "binv base st" and "length xs = length ys" and "list_all (bit_ok (next_var st)) xs"
    and "list_all (bit_ok (next_var st)) ys" and "diff_bits xs ys st = (ds, t, st')"
  shows "binv base st' \<and> grows st st' \<and>
    (\<forall>\<sigma>. holds \<sigma> st' \<longrightarrow> (t \<or> clause_sat \<sigma> ds) = (map (bit_val \<sigma>) xs \<noteq> map (bit_val \<sigma>) ys))"
  using assms(2,1,3-)
proof (induction xs ys arbitrary: st ds t st' rule: list_induct2)
  case (Cons x xs y ys)
  from Cons.prems have "computes base st (xor2 x y st) (\<lambda>\<sigma>. bit_val \<sigma> x \<noteq> bit_val \<sigma> y)" by (intro computes_xor2) auto
  then obtain d st1 where d: "xor2 x y st = (d, st1)" "binv base st1" "grows st st1"
    "\<And>\<sigma>. holds \<sigma> st1 \<Longrightarrow> bit_val \<sigma> d = (bit_val \<sigma> x \<noteq> bit_val \<sigma> y)" by (rule computesE) blast
  obtain ds1 t1 st2 where r: "diff_bits xs ys st1 = (ds1, t1, st2)" by (metis prod_cases3)
  have "list_all (bit_ok (next_var st1)) xs" "list_all (bit_ok (next_var st1)) ys"
    using Cons.prems list_ok_grows[OF d(3)] by auto
  from Cons.IH[OF d(2) this r] have IH: "binv base st2" "grows st1 st2"
    "\<And>\<sigma>. holds \<sigma> st2 \<Longrightarrow> (t1 \<or> clause_sat \<sigma> ds1) = (map (bit_val \<sigma>) xs \<noteq> map (bit_val \<sigma>) ys)" by blast+
  from Cons.prems(4) d(1) r have st: "st' = st2" and
    tds: "\<And>\<sigma>. (t \<or> clause_sat \<sigma> ds) = (bit_val \<sigma> d \<or> t1 \<or> clause_sat \<sigma> ds1)"
    by (auto simp: Let_def split: blast_bit.splits bool.splits)
  have "(t \<or> clause_sat \<sigma> ds) = (map (bit_val \<sigma>) (x # xs) \<noteq> map (bit_val \<sigma>) (y # ys))" if "holds \<sigma> st2" for \<sigma>
    using d(4)[OF holds_grows[OF IH(2) that]] IH(3)[OF that] tds[of \<sigma>] by auto
  with IH(1) grows_trans[OF d(3) IH(2)] show ?case unfolding st by blast
qed auto

lemma num_inject: "\<lbrakk>num xs = num ys; length xs = length ys\<rbrakk> \<Longrightarrow> xs = ys"
  by (rule nth_equalityI) (use bit_num[of xs] bit_num[of ys] in auto)

text \<open>The miter the blaster returns, taken apart.\<close>

lemma miterE:
  assumes "blast_equivalence_miter ob = Inr mit"
  obtains benv ids st0 ir st1 mc st2 ds t st3 where
    "alloc_inputs (ob_inputs ob) Map.empty blaster_new = Inr (benv, ids, st0)"
    and "blast_expr (trust_ir_expr ob) benv (st0\<lparr>side := Ir\<rparr>) = Inr (ir, st1)"
    and "blast_expr (aarch64_expr ob) benv (st1\<lparr>side := Machine\<rparr>) = Inr (mc, st2)"
    and "length ir = length mc" and "diff_bits ir mc (st2\<lparr>side := Diff\<rparr>) = (ds, t, st3)"
    and "m_clauses mit = (if t then clauses st3 else clauses st3 @ [ds])"
  using assms unfolding blast_equivalence_miter_def
  by (auto simp: Let_def split: if_splits prod.splits)

lemma binv_inputs:
  assumes "alloc_inputs ins Map.empty blaster_new = Inr (benv, ids, st0)"
  shows "binv (next_var st0) st0" and "benv_ok (next_var st0) benv"
    and "\<And>n bs. benv n = Some bs \<Longrightarrow> (n, length bs) \<in> set ins"
proof -
  from alloc_inputs_state[OF assms] have st: "st0 = blaster_new\<lparr>next_var := next_var st0\<rparr>"
    and "benv_ok (next_var st0) benv" "\<And>n bs. benv n = Some bs \<Longrightarrow> (n, length bs) \<in> set ins"
    by (auto simp: benv_ok_def)
  then show "benv_ok (next_var st0) benv" "\<And>n bs. benv n = Some bs \<Longrightarrow> (n, length bs) \<in> set ins" by auto
  show "binv (next_var st0) st0"
    by (subst st) (simp add: binv_def blaster_new_def gate_fresh_def tags_of_def)
qed

text \<open>
  The clauses of the miter say that the gates hold and the two sides differ, and under
  the gates the two sides have the values of the two expressions.
\<close>

lemma miter_semantics:
  assumes "blast_equivalence_miter ob = Inr mit" and "w \<le> 64"
    and "well_sorted (trust_ir_expr ob) (BitVec w)" and "well_sorted (aarch64_expr ob) (BitVec w)"
  obtains base benv st ir mc where "binv base st" and "benv_ok base benv"
    and "\<And>n bs. benv n = Some bs \<Longrightarrow> (n, length bs) \<in> set (ob_inputs ob)"
    and "\<And>m. fst ` set (ob_inputs ob) \<subseteq> dom m \<Longrightarrow> \<exists>\<sigma>. env_rel \<sigma> benv m"
    and "\<And>\<sigma>. cnf_sat \<sigma> (m_clauses mit) \<longleftrightarrow> holds \<sigma> st \<and> map (bit_val \<sigma>) ir \<noteq> map (bit_val \<sigma>) mc"
    and "\<And>\<sigma> m. \<lbrakk>holds \<sigma> st; env_rel \<sigma> benv m\<rbrakk> \<Longrightarrow> \<exists>v. eval_m (trust_ir_expr ob) m = Inr (Bv v)
      \<and> uint v = num (map (bit_val \<sigma>) ir)"
    and "\<And>\<sigma> m. \<lbrakk>holds \<sigma> st; env_rel \<sigma> benv m\<rbrakk> \<Longrightarrow> \<exists>v. eval_m (aarch64_expr ob) m = Inr (Bv v)
      \<and> uint v = num (map (bit_val \<sigma>) mc)"
    and "length ir = length mc"
proof -
  from assms(1) obtain benv ids st0 ir st1 mc st2 ds t st3 where
    ins: "alloc_inputs (ob_inputs ob) Map.empty blaster_new = Inr (benv, ids, st0)"
    and ir: "blast_expr (trust_ir_expr ob) benv (st0\<lparr>side := Ir\<rparr>) = Inr (ir, st1)"
    and mc: "blast_expr (aarch64_expr ob) benv (st1\<lparr>side := Machine\<rparr>) = Inr (mc, st2)"
    and len: "length ir = length mc" and diff: "diff_bits ir mc (st2\<lparr>side := Diff\<rparr>) = (ds, t, st3)"
    and cls: "m_clauses mit = (if t then clauses st3 else clauses st3 @ [ds])" by (rule miterE)
  note inv0 = binv_inputs[OF ins]
  let ?base = "next_var st0"
  have b1: "blasts ?base benv (st0\<lparr>side := Ir\<rparr>) (trust_ir_expr ob) w ir st1"
    using blast_expr_correct[OF assms(3) refl assms(2) _ inv0(2) ir] inv0(1) by simp
  then have b2: "blasts ?base benv (st1\<lparr>side := Machine\<rparr>) (aarch64_expr ob) w mc st2"
    using blast_expr_correct[OF assms(4) refl assms(2) _ inv0(2) mc] by (simp add: blasts_def)
  from b1 b2 have "list_all (bit_ok (next_var st2)) ir" "list_all (bit_ok (next_var st2)) mc" "binv ?base st2"
    using list_ok_grows[of "st1\<lparr>side := Machine\<rparr>" st2 ir] by (auto simp: blasts_def)
  with diff_bits_correct[OF _ len _ _ diff, of ?base]
  have d: "binv ?base st3" "grows (st2\<lparr>side := Diff\<rparr>) st3"
    "\<And>\<sigma>. holds \<sigma> st3 \<Longrightarrow> (t \<or> clause_sat \<sigma> ds) = (map (bit_val \<sigma>) ir \<noteq> map (bit_val \<sigma>) mc)" by auto
  have h2: "holds \<sigma> st2" if "holds \<sigma> st3" for \<sigma> using holds_grows[OF d(2) that] by simp
  have h1: "holds \<sigma> st1" if "holds \<sigma> st3" for \<sigma>
    using holds_grows[of "st1\<lparr>side := Machine\<rparr>" st2, OF _ h2[OF that]] b2 by (simp add: blasts_def)
  show thesis
  proof (rule that[OF d(1) inv0(2,3)])
    show "\<exists>\<sigma>. env_rel \<sigma> benv m" if "fst ` set (ob_inputs ob) \<subseteq> dom m" for m
      using alloc_inputs_rel[OF ins, where m = m] that by (simp add: benv_ok_def env_rel_def)
    show "cnf_sat \<sigma> (m_clauses mit) \<longleftrightarrow> holds \<sigma> st3 \<and> map (bit_val \<sigma>) ir \<noteq> map (bit_val \<sigma>) mc" for \<sigma>
      using d(3)[of \<sigma>] clauses_holds[OF d(1), of \<sigma>] unfolding cls by auto
    show "\<exists>v. eval_m (trust_ir_expr ob) m = Inr (Bv v) \<and> uint v = num (map (bit_val \<sigma>) ir)"
      if "holds \<sigma> st3" "env_rel \<sigma> benv m" for \<sigma> m using blastsE[OF b1 h1[OF that(1)] that(2)] by blast
    show "\<exists>v. eval_m (aarch64_expr ob) m = Inr (Bv v) \<and> uint v = num (map (bit_val \<sigma>) mc)"
      if "holds \<sigma> st3" "env_rel \<sigma> benv m" for \<sigma> m using blastsE[OF b2 h2[OF that(1)] that(2)] by blast
  qed (use len in auto)
qed

section \<open>Properties\<close>

text \<open>C1. The miter decides the obligation: when the blaster returns a miter, its clauses are
  unsatisfiable exactly when the two sides evaluate to the same bit-vector under every
  binding of the inputs. This is the fidelity of the gate circuits to the expressions
  that the module leaves as an assertion.\<close>

theorem miter_unsat_iff_equivalent:
  assumes "blast_equivalence_miter ob = Inr mit" and "w \<le> 64"
    and "well_sorted (trust_ir_expr ob) (BitVec w)" and "well_sorted (aarch64_expr ob) (BitVec w)"
    and "\<And>n k. (n, k) \<in> set (ob_inputs ob) \<Longrightarrow> k \<le> 64"
  shows "(\<nexists>\<sigma>. cnf_sat \<sigma> (m_clauses mit)) \<longleftrightarrow>
    (\<forall>m. fst ` set (ob_inputs ob) \<subseteq> dom m \<longrightarrow> (\<exists>v.
       try_eval map_get_var map_set_var (trust_ir_expr ob) m = Inr (Bv v)
       \<and> try_eval map_get_var map_set_var (aarch64_expr ob) m = Inr (Bv v)))"
  using assms(1-4)
proof (rule miter_semantics)
  fix base benv st ir mc
  assume inv: "binv base st" and ok: "benv_ok base benv"
    and dom: "\<And>n bs. benv n = Some bs \<Longrightarrow> (n, length bs) \<in> set (ob_inputs ob)"
    and rel: "\<And>m. fst ` set (ob_inputs ob) \<subseteq> dom m \<Longrightarrow> \<exists>\<sigma>. env_rel \<sigma> benv m"
    and sat: "\<And>\<sigma>. cnf_sat \<sigma> (m_clauses mit) \<longleftrightarrow> holds \<sigma> st \<and> map (bit_val \<sigma>) ir \<noteq> map (bit_val \<sigma>) mc"
    and ir: "\<And>\<sigma> m. \<lbrakk>holds \<sigma> st; env_rel \<sigma> benv m\<rbrakk> \<Longrightarrow> \<exists>v. eval_m (trust_ir_expr ob) m = Inr (Bv v)
      \<and> uint v = num (map (bit_val \<sigma>) ir)"
    and mc: "\<And>\<sigma> m. \<lbrakk>holds \<sigma> st; env_rel \<sigma> benv m\<rbrakk> \<Longrightarrow> \<exists>v. eval_m (aarch64_expr ob) m = Inr (Bv v)
      \<and> uint v = num (map (bit_val \<sigma>) mc)"
    and len: "length ir = length mc"
  show ?thesis
  proof
    assume unsat: "\<nexists>\<sigma>. cnf_sat \<sigma> (m_clauses mit)"
    show "\<forall>m. fst ` set (ob_inputs ob) \<subseteq> dom m \<longrightarrow> (\<exists>v. eval_m (trust_ir_expr ob) m = Inr (Bv v)
       \<and> eval_m (aarch64_expr ob) m = Inr (Bv v))"
    proof (intro allI impI)
      fix m :: hash_env assume "fst ` set (ob_inputs ob) \<subseteq> dom m"
      with rel obtain \<sigma>0 where "env_rel \<sigma>0 benv m" by blast
      moreover obtain \<sigma> where h: "holds \<sigma> st" and "\<forall>v. v \<le> int base \<longrightarrow> \<sigma> v = \<sigma>0 v"
        using binv_extend[OF inv] by blast
      ultimately have e: "env_rel \<sigma> benv m" using env_rel_cong[OF _ ok, of \<sigma>0 m \<sigma>] by simp
      from unsat sat[of \<sigma>] h have "map (bit_val \<sigma>) ir = map (bit_val \<sigma>) mc" by blast
      with ir[OF h e] mc[OF h e] obtain v v' where "eval_m (trust_ir_expr ob) m = Inr (Bv v)"
        "eval_m (aarch64_expr ob) m = Inr (Bv v')" "uint v = uint v'" by auto
      moreover from this(3) have "v = v'" by (simp add: word_uint_eq_iff)
      ultimately show "\<exists>v. eval_m (trust_ir_expr ob) m = Inr (Bv v)
          \<and> eval_m (aarch64_expr ob) m = Inr (Bv v)" by simp
    qed
  next
    assume eq: "\<forall>m. fst ` set (ob_inputs ob) \<subseteq> dom m \<longrightarrow> (\<exists>v. eval_m (trust_ir_expr ob) m = Inr (Bv v)
       \<and> eval_m (aarch64_expr ob) m = Inr (Bv v))"
    show "\<nexists>\<sigma>. cnf_sat \<sigma> (m_clauses mit)"
    proof
      assume "\<exists>\<sigma>. cnf_sat \<sigma> (m_clauses mit)"
      then obtain \<sigma> where h: "holds \<sigma> st" and ne: "map (bit_val \<sigma>) ir \<noteq> map (bit_val \<sigma>) mc" using sat by blast
      let ?m = "read_env \<sigma> benv"
      have e: "env_rel \<sigma> benv ?m" using dom assms(5) by (intro read_env_rel) blast
      from num_inject[of "map (bit_val \<sigma>) ir" "map (bit_val \<sigma>) mc"] ne len
      have "num (map (bit_val \<sigma>) ir) \<noteq> num (map (bit_val \<sigma>) mc)" by auto
      with ir[OF h e] mc[OF h e] have "eval_m (trust_ir_expr ob) ?m \<noteq> eval_m (aarch64_expr ob) ?m" by auto
      moreover have "fst ` set (ob_inputs ob) \<subseteq> dom ?m" by (auto simp: read_env_def)
      ultimately show False using eq[rule_format, of ?m] by auto
    qed
  qed
qed

text \<open>The obligation \<open>x - y = x + (- y)\<close> at one bit.\<close>

definition sub_neg_ob :: proof_obligation where
  "sub_neg_ob = \<lparr>ob_name = ''isub'', trust_ir_expr = BvSub (Var ''x'' 1) (Var ''y'' 1) 1,
     aarch64_expr = BvAdd (Var ''x'' 1) (BvNeg (Var ''y'' 1) 1) 1,
     ob_inputs = [(''x'', 1), (''y'', 1)], preconditions = [], fp_inputs = []\<rparr>"

lemma sub_neg_miter: "\<not> isl (blast_equivalence_miter sub_neg_ob)"
  by (simp add: miter_defs sub_neg_ob_def)

theorem miter_unsat_iff_equivalent_witness:
  "\<exists>mit. blast_equivalence_miter sub_neg_ob = Inr mit \<and>
    ((\<nexists>\<sigma>. cnf_sat \<sigma> (m_clauses mit)) \<longleftrightarrow>
      (\<forall>m. fst ` set (ob_inputs sub_neg_ob) \<subseteq> dom m \<longrightarrow> (\<exists>v.
         try_eval map_get_var map_set_var (trust_ir_expr sub_neg_ob) m = Inr (Bv v)
         \<and> try_eval map_get_var map_set_var (aarch64_expr sub_neg_ob) m = Inr (Bv v))))"
proof -
  obtain mit where mit: "blast_equivalence_miter sub_neg_ob = Inr mit" using sub_neg_miter
    by (cases "blast_equivalence_miter sub_neg_ob") auto
  have "well_sorted (trust_ir_expr sub_neg_ob) (BitVec 1)" "well_sorted (aarch64_expr sub_neg_ob) (BitVec 1)"
    by (auto simp: sub_neg_ob_def intro!: well_sorted.intros ws_bin[of BvSub] ws_bin[of BvAdd])
  moreover have "k \<le> 64" if "(n, k) \<in> set (ob_inputs sub_neg_ob)" for n k
    using that by (auto simp: sub_neg_ob_def)
  moreover have "(1::nat) \<le> 64" by simp
  ultimately show ?thesis
    using miter_unsat_iff_equivalent[OF mit, of 1] mit by blast
qed

end
