(* ===== verification/Sat_Provenance.thy ===== *)
theory Sat_Provenance
  imports Sat_Blast_Correct
begin

text \<open>
  The two checkers of \<open>sat_blast.rs\<close> that a consumer of a miter runs.
  \<open>clause_entailed_by_gate\<close> decides entailment; \<open>check_provenance\<close> accepts only
  clause lists that say what the recorded gates and diff literals say, up to the sign of a
  diff literal, which it does not look at; and the miters the blaster builds from sides
  without constant bits pass.
\<close>

section \<open>Entailment by a gate\<close>

lemma distinct_vars_set: "set (distinct_vars vs ls) = set vs \<union> abs ` set ls"
  by (induction vs ls rule: distinct_vars.induct) (auto simp: Let_def)

lemma var_position_less: "v \<in> set vs \<Longrightarrow> var_position vs v < length vs \<and> vs ! var_position vs v = v"
  by (induction vs v rule: var_position.induct) auto

lemma horner_nat_bound: "horner_sum of_bool 2 bs < (2 :: nat) ^ length bs"
  by (induction bs) auto

text \<open>Every assignment is one of the enumerated ones on the gate's variables.\<close>

lemma mask_of_assignment:
  "\<exists>a < 2 ^ length vs. \<forall>l. \<bar>l\<bar> \<in> set vs \<longrightarrow> mask_val vs a l = lit_val \<sigma> l"
proof (intro exI conjI allI impI)
  let ?a = "horner_sum of_bool 2 (map \<sigma> vs) :: nat"
  show "?a < 2 ^ length vs" using horner_nat_bound[of "map \<sigma> vs"] by simp
  fix l assume "\<bar>l\<bar> \<in> set vs"
  from var_position_less[OF this] have "bit ?a (var_position vs \<bar>l\<bar>) = \<sigma> \<bar>l\<bar>"
    by (simp add: bit_horner_sum_bit_iff)
  then show "mask_val vs ?a l = lit_val \<sigma> l" by (auto simp: mask_val_def lit_val_def Let_def abs_if)
qed

lemma assignment_of_mask: "mask_val vs a l = lit_val (\<lambda>v. bit a (var_position vs v)) l"
  by (auto simp: mask_val_def lit_val_def Let_def abs_if)

lemma list_all_upt: "list_all P [0 ..< n] \<longleftrightarrow> (\<forall>i < n. P i)"
  by (auto simp: list_all_iff)

definition entails :: "gate_kind \<Rightarrow> int \<Rightarrow> int list \<Rightarrow> int list \<Rightarrow> assignment \<Rightarrow> bool" where
  "entails k out ins c \<sigma> \<longleftrightarrow> (lit_val \<sigma> out = gate_eval k (map (lit_val \<sigma>) ins) \<longrightarrow> clause_sat \<sigma> c)"

lemma entails_mask:
  assumes "\<And>l. l \<in> set (out # ins) \<union> set c \<Longrightarrow> mask_val vs a l = lit_val \<sigma> l"
  shows "(mask_val vs a out = gate_eval k (map (mask_val vs a) ins) \<longrightarrow> list_ex (mask_val vs a) c)
    \<longleftrightarrow> entails k out ins c \<sigma>"
proof -
  have "map (mask_val vs a) ins = map (lit_val \<sigma>) ins" using assms by simp
  moreover have "mask_val vs a out = lit_val \<sigma> out" using assms by simp
  moreover have "list_ex (mask_val vs a) c = clause_sat \<sigma> c" using assms by (auto simp: list_ex_iff clause_sat_def)
  ultimately show ?thesis by (simp only: entails_def)
qed

lemma clause_entailed_iff:
  "clause_entailed_by_gate c k out ins \<longleftrightarrow> length ins = arity k \<and>
     (\<forall>l \<in> set c. \<bar>l\<bar> \<in> abs ` set (out # ins)) \<and> (\<forall>\<sigma>. entails k out ins c \<sigma>)"
proof (cases "length ins = arity k \<and> (\<forall>l \<in> set c. \<bar>l\<bar> \<in> abs ` set (out # ins))")
  case True
  define vs where "vs = distinct_vars [] (out # ins)"
  have vs: "set vs = abs ` set (out # ins)" by (simp add: vs_def distinct_vars_set del: distinct_vars.simps)
  with True have lits: "\<And>l. l \<in> set (out # ins) \<union> set c \<Longrightarrow> \<bar>l\<bar> \<in> set vs" by auto
  have "clause_entailed_by_gate c k out ins \<longleftrightarrow> (\<forall>a < 2 ^ length vs.
      mask_val vs a out = gate_eval k (map (mask_val vs a) ins) \<longrightarrow> list_ex (mask_val vs a) c)"
    using True lits unfolding clause_entailed_by_gate_def vs_def[symmetric] Let_def
    by (auto simp: list_all_upt list_ex_iff)
  also have "\<dots> \<longleftrightarrow> (\<forall>\<sigma>. entails k out ins c \<sigma>)"
  proof (intro iffI allI impI)
    fix \<sigma> assume all: "\<forall>a < 2 ^ length vs.
      mask_val vs a out = gate_eval k (map (mask_val vs a) ins) \<longrightarrow> list_ex (mask_val vs a) c"
    from mask_of_assignment[of vs \<sigma>] obtain a where a: "a < 2 ^ length vs"
      "\<And>l. \<bar>l\<bar> \<in> set vs \<Longrightarrow> mask_val vs a l = lit_val \<sigma> l" by blast
    from all[rule_format, OF a(1)] show "entails k out ins c \<sigma>"
      using entails_mask[of out ins c vs a \<sigma> k] a(2) lits by blast
  next
    fix a assume "\<forall>\<sigma>. entails k out ins c \<sigma>" and "mask_val vs a out = gate_eval k (map (mask_val vs a) ins)"
    then show "list_ex (mask_val vs a) c" using entails_mask[OF assignment_of_mask, of vs a out k ins c] by blast
  qed
  finally show ?thesis using True by blast
next
  case False
  then show ?thesis
    by (auto simp: clause_entailed_by_gate_def list_ex_iff distinct_vars_set Let_def simp del: distinct_vars.simps)
qed

section \<open>What the provenance check accepts\<close>

lemma clause_sat_canon [simp]: "clause_sat \<sigma> (canon c) = clause_sat \<sigma> c"
  by (simp add: clause_sat_def canon_def)

lemma cnf_sat_set: "set cs = set ds \<Longrightarrow> cnf_sat \<sigma> cs = cnf_sat \<sigma> ds"
  by (simp add: cnf_sat_def)

lemma cnf_sat_map_canon [simp]: "cnf_sat \<sigma> (map canon cs) = cnf_sat \<sigma> cs"
  by (simp add: cnf_sat_def)

lemma cnf_sat_concat: "cnf_sat \<sigma> (concat css) \<longleftrightarrow> (\<forall>cs \<in> set css. cnf_sat \<sigma> cs)"
  by (auto simp: cnf_sat_def)

text \<open>Distributing the clauses over the gates loses none.\<close>

lemma concat_update:
  "g < length css \<Longrightarrow> cnf_sat \<sigma> (concat (css[g := css ! g @ [c]])) \<longleftrightarrow> cnf_sat \<sigma> (concat css) \<and> clause_sat \<sigma> c"
proof (induction css arbitrary: g)
  case (Cons cs css)
  then show ?case by (cases g) auto
qed simp

lemma group_clauses_sat:
  "group_clauses cts pg dq = Inr (pg', dq') \<Longrightarrow> length pg' = length pg \<and>
     (cnf_sat \<sigma> (concat pg') \<and> cnf_sat \<sigma> dq' \<longleftrightarrow> cnf_sat \<sigma> (map fst cts) \<and> cnf_sat \<sigma> (concat pg) \<and> cnf_sat \<sigma> dq)"
proof (induction cts pg dq rule: group_clauses.induct)
  case (2 clause tag rest pg dq)
  show ?case
  proof (cases tag)
    case None
    with "2.prems" have "group_clauses rest pg (dq @ [canon clause]) = Inr (pg', dq')" by simp
    from "2.IH"(1)[OF None this] show ?thesis by auto
  next
    case (Some g)
    with "2.prems" have g: "g < length pg"
      and rec: "group_clauses rest (pg[g := pg ! g @ [canon clause]]) dq = Inr (pg', dq')" by (auto split: if_splits)
    from "2.IH"(2)[OF Some g rec] concat_update[OF g, of \<sigma> "canon clause"] show ?thesis by auto
  qed
qed simp

lemma sort_eq_set: "sort xs = sort ys \<Longrightarrow> set xs = set ys"
  by (metis set_sort)

lemma gate_matches_sat:
  "gate_matches g got = Inr () \<Longrightarrow> length (g_ins g) = arity (g_kind g) \<and> cnf_sat \<sigma> got = cnf_sat \<sigma> (gate_cnf g)"
  using cnf_sat_set[OF sort_eq_set, of "map canon (gate_cnf g)" got \<sigma>]
  by (auto simp: gate_matches_def gate_cnf_def split: if_splits)

lemma check_gates_sat:
  assumes "check_gates gs pg = Inr ()" and "length gs = length pg"
    and "\<And>g. g \<in> set gs \<Longrightarrow> 0 \<notin> set (g_ins g) \<and> g_out g \<noteq> 0"
  shows "cnf_sat \<sigma> (concat pg) \<longleftrightarrow> (\<forall>g \<in> set gs. gate_holds \<sigma> g)"
  using assms(2,1,3)
proof (induction gs pg rule: list_induct2)
  case (Cons g gs p pg)
  from Cons.prems(1) have g: "gate_matches g p = Inr ()" and rest: "check_gates gs pg = Inr ()" by auto
  from gate_matches_sat[OF g, of \<sigma>] Cons.prems(2)[of g] have "cnf_sat \<sigma> p = gate_holds \<sigma> g"
    using gate_cnf_sat[of g \<sigma>] by (simp add: gate_ok_def)
  with Cons.IH[OF rest] Cons.prems(2) show ?case by simp
qed simp

lemma check_diffs_sat:
  assumes "check_diffs dg ds is ms = Inr ()" and "length is = length ms" and "length ms = length ds"
    and "\<And>d. d \<in> set ds \<Longrightarrow> 0 < d" and "\<And>g. g \<in> set dg \<Longrightarrow> gate_holds \<sigma> g"
  shows "clause_sat \<sigma> ds \<longleftrightarrow> map (lit_val \<sigma>) is \<noteq> map (lit_val \<sigma>) ms"
  using assms(2,3,1,4)
proof (induction "is" ms ds rule: list_induct3)
  case (Cons i "is" m ms d ds)
  from Cons.prems(1) obtain g where "find (\<lambda>g. g_out g = \<bar>d\<bar>) dg = Some g" and x: "g_kind g = Xor2" "g_ins g = [i, m]"
    and rest: "check_diffs dg ds is ms = Inr ()" by (auto simp: check_diff_def split: option.splits if_splits)
  then have "g_out g = d" "g \<in> set dg" using Cons.prems(2)[of d] by (auto simp: find_Some_iff)
  with assms(5) x have "lit_val \<sigma> d = (lit_val \<sigma> i \<noteq> lit_val \<sigma> m)" by (fastforce simp: gate_holds_def)
  with Cons.IH[OF rest] Cons.prems(2) show ?case by auto
qed simp

lemma check_provenanceE:
  assumes "check_provenance m = Inr ()"
  obtains pg where "group_clauses (zip (m_clauses m) (m_clause_tags m)) (replicate (length (p_gates (m_provenance m))) []) []
      = Inr (pg, [canon (p_diff (m_provenance m))])"
    and "check_gates (p_gates (m_provenance m)) pg = Inr ()"
    and "length (m_clause_tags m) = length (m_clauses m)"
    and "length (p_ir_out (m_provenance m)) = length (p_machine_out (m_provenance m))"
    and "length (p_ir_out (m_provenance m)) = length (p_diff (m_provenance m))"
    and "check_diffs (filter (\<lambda>g. g_side g = Diff) (p_gates (m_provenance m))) (p_diff (m_provenance m))
      (p_ir_out (m_provenance m)) (p_machine_out (m_provenance m)) = Inr ()"
proof -
  from assms obtain pg dq where
    "group_clauses (zip (m_clauses m) (m_clause_tags m)) (replicate (length (p_gates (m_provenance m))) []) [] = Inr (pg, dq)"
    and "length dq = 1" "dq ! 0 = canon (p_diff (m_provenance m))"
    and rest: "check_gates (p_gates (m_provenance m)) pg = Inr ()" "length (m_clause_tags m) = length (m_clauses m)"
    "length (p_ir_out (m_provenance m)) = length (p_machine_out (m_provenance m))"
    "length (p_ir_out (m_provenance m)) = length (p_diff (m_provenance m))"
    "check_diffs (filter (\<lambda>g. g_side g = Diff) (p_gates (m_provenance m))) (p_diff (m_provenance m))
      (p_ir_out (m_provenance m)) (p_machine_out (m_provenance m)) = Inr ()"
    by (auto simp: check_provenance_def Let_def split: if_splits)
  then show thesis by (intro that) (auto simp: length_Suc_conv)
qed

section \<open>The blaster's own miters pass\<close>

lemma group_one:
  "length P = k \<Longrightarrow> group_clauses (map (\<lambda>c. (c, Some k)) cs @ rest) (P @ q # R) dq =
     group_clauses rest (P @ (q @ map canon cs) # R) dq"
  by (induction cs arbitrary: q) (auto simp: nth_append list_update_append)

lemma length_tags_of: "length (tags_of gs) = length (concat (map gate_cnf gs))"
proof (induction gs rule: rev_induct)
  case (snoc g gs) then show ?case by (simp add: tags_of_snoc)
qed (simp add: tags_of_def)

lemma zip_tag: "zip cs (map (\<lambda>_. t) cs) = map (\<lambda>c. (c, t)) cs"
  by (induction cs) auto

lemma group_tagged:
  "group_clauses (zip (concat (map gate_cnf gs)) (tags_of gs) @ rest) (replicate (length gs + n) []) dq =
     group_clauses rest (map (\<lambda>g. map canon (gate_cnf g)) gs @ replicate n []) dq"
proof (induction gs arbitrary: rest n rule: rev_induct)
  case (snoc g gs)
  let ?P = "map (\<lambda>g. map canon (gate_cnf g)) gs"
  have "zip (concat (map gate_cnf (gs @ [g]))) (tags_of (gs @ [g])) =
      zip (concat (map gate_cnf gs)) (tags_of gs) @ map (\<lambda>c. (c, Some (length gs))) (gate_cnf g)"
    by (simp add: tags_of_snoc length_tags_of[symmetric] zip_tag)
  then have "group_clauses (zip (concat (map gate_cnf (gs @ [g]))) (tags_of (gs @ [g])) @ rest)
        (replicate (length (gs @ [g]) + n) []) dq =
      group_clauses (map (\<lambda>c. (c, Some (length gs))) (gate_cnf g) @ rest) (?P @ replicate (Suc n) []) dq"
    using snoc.IH[of "map (\<lambda>c. (c, Some (length gs))) (gate_cnf g) @ rest" "Suc n"] by simp
  then show ?case using group_one[of ?P "length gs" "gate_cnf g" rest "[]"] by simp
qed (simp add: tags_of_def)

lemma check_gates_canonical:
  "(\<And>g. g \<in> set gs \<Longrightarrow> gate_ok g) \<Longrightarrow> check_gates gs (map (\<lambda>g. map canon (gate_cnf g)) gs) = Inr ()"
  by (induction gs) (auto simp: gate_matches_def gate_ok_def gate_cnf_def)

lemma find_unique: "distinct (map f xs) \<Longrightarrow> x \<in> set xs \<Longrightarrow> find (\<lambda>y. f y = f x) xs = Some x"
  by (induction xs) auto

text \<open>\<open>diff_gates dg s as bs ds\<close>: the gates that compare the bits \<open>as\<close> and \<open>bs\<close>.\<close>

definition diff_gates :: "gate_record list \<Rightarrow> int list \<Rightarrow> int list \<Rightarrow> int list \<Rightarrow> bool" where
  "diff_gates dg as bs ds \<longleftrightarrow> map g_out dg = ds \<and> map g_ins dg = map2 (\<lambda>a b. [a, b]) as bs \<and>
     list_all (\<lambda>g. g_kind g = Xor2 \<and> g_side g = Diff) dg"

lemma diff_bits_literals:
  assumes "length as = length bs" and "diff_bits (map BLit as) (map BLit bs) st = (ds, t, st')" and "side st = Diff"
  shows "\<not> t \<and> length ds = length as \<and> (\<exists>dg. gates st' = gates st @ dg \<and> diff_gates dg as bs ds)"
  using assms
proof (induction as bs arbitrary: st ds t st' rule: list_induct2)
  case (Cons a as b bs)
  obtain d st1 where e: "emit_gate Xor2 [a, b] st = (d, st1)" by fastforce
  then have st1: "gates st1 = gates st @ [\<lparr>g_side = Diff, g_kind = Xor2, g_out = d, g_ins = [a, b]\<rparr>]" "side st1 = Diff"
    using Cons.prems(2) by (auto simp: emit_gate_def fresh_def Let_def)
  from Cons.prems(1) obtain ds1 where r: "diff_bits (map BLit as) (map BLit bs) st1 = (ds1, t, st')" "ds = d # ds1"
    by (auto simp: lit_gate_def e Let_def split: prod.splits)
  from Cons.IH[OF r(1) st1(2)] obtain dg where "\<not> t" "length ds1 = length as" "gates st' = gates st1 @ dg"
    "diff_gates dg as bs ds1" by blast
  then show ?case using st1 r(2)
    by (intro conjI exI[of _ "\<lparr>g_side = Diff, g_kind = Xor2, g_out = d, g_ins = [a, b]\<rparr> # dg"]) (auto simp: diff_gates_def)
qed (simp add: diff_gates_def)

lemma check_diffs_gates:
  assumes "diff_gates dg as bs ds" and "length as = length bs" and "set dg \<subseteq> set D" and "distinct (map g_out D)"
    and "\<And>g. g \<in> set D \<Longrightarrow> 0 < g_out g"
  shows "check_diffs D ds as bs = Inr ()"
  using assms(2,1,3)
proof (induction as bs arbitrary: dg ds rule: list_induct2)
  case (Cons a as b bs)
  from Cons.prems(1) obtain g dg' where dg: "dg = g # dg'" by (cases dg) (auto simp: diff_gates_def)
  with Cons.prems obtain ds' where ds: "ds = g_out g # ds'" and rest: "diff_gates dg' as bs ds'" "set dg' \<subseteq> set D"
    and g: "g_ins g = [a, b]" "g_kind g = Xor2" "g \<in> set D" by (auto simp: diff_gates_def)
  from find_unique[OF assms(4) g(3)] assms(5)[OF g(3)] g(1,2) have "check_diff D (g_out g) a b = Inr ()"
    by (simp add: check_diff_def)
  with Cons.IH[OF rest] show ?case by (simp add: ds)
qed simp

lemma strict_sorted_distinct: "sorted_wrt (<) (xs :: int list) \<Longrightarrow> distinct xs"
  by (induction xs) auto

lemma blaster_miter_accepted:
  assumes "binv base st" and "binv base st'" and "length as = length bs" and "side st = Diff"
    and "diff_bits (map BLit as) (map BLit bs) st = (ds, t, st')"
    and m: "m_clauses m = clauses st' @ [ds]" "m_clause_tags m = clause_tags st' @ [None]"
    "p_gates (m_provenance m) = gates st'" "p_ir_out (m_provenance m) = as"
    "p_machine_out (m_provenance m) = bs" "p_diff (m_provenance m) = ds"
  shows "check_provenance m = Inr ()"
proof -
  from diff_bits_literals[OF assms(3,5,4)] obtain dg where lens: "length ds = length as"
    and dg: "gates st' = gates st @ dg" "diff_gates dg as bs ds" by blast
  from assms(2) have inv: "clauses st' = concat (map gate_cnf (gates st'))" "clause_tags st' = tags_of (gates st')"
    "\<And>g. g \<in> set (gates st') \<Longrightarrow> gate_ok g \<and> 0 < g_out g" "distinct (map g_out (gates st'))"
    by (fastforce simp: binv_def gate_fresh_def intro: strict_sorted_distinct)+
  let ?D = "filter (\<lambda>g. g_side g = Diff) (gates st')"
  have "group_clauses (zip (clauses st' @ [ds]) (clause_tags st' @ [None])) (replicate (length (gates st')) []) [] =
      Inr (map (\<lambda>g. map canon (gate_cnf g)) (gates st'), [canon ds])"
    using group_tagged[of "gates st'" "[(ds, None)]" 0 "[]"] by (simp add: inv(1,2) length_tags_of)
  moreover have "check_gates (gates st') (map (\<lambda>g. map canon (gate_cnf g)) (gates st')) = Inr ()"
    using inv(3) by (intro check_gates_canonical) blast
  moreover have "check_diffs ?D ds as bs = Inr ()"
    using dg inv(3,4) by (intro check_diffs_gates[OF dg(2) assms(3)])
      (auto simp: diff_gates_def list_all_iff distinct_map_filter)
  ultimately show ?thesis using lens assms(3) by (simp add: check_provenance_def Let_def m inv(1,2) length_tags_of)
qed

section \<open>Properties of the checkers\<close>

text \<open>C24. The entailment check is exact: it accepts a clause for a gate exactly when the
  arity is right, the clause mentions only the gate's variables, and every assignment that
  satisfies the gate satisfies the clause.\<close>

theorem clause_entailed_by_gate_exact:
  "clause_entailed_by_gate c k out ins \<longleftrightarrow> length ins = arity k \<and>
     (\<forall>l. l \<in> set c \<longrightarrow> \<bar>l\<bar> \<in> abs ` set (out # ins)) \<and>
     (\<forall>\<sigma>. lit_val \<sigma> out = gate_eval k (map (lit_val \<sigma>) ins) \<longrightarrow> clause_sat \<sigma> c)"
  using clause_entailed_iff[of c k out ins] by (auto simp: entails_def)

theorem clause_entailed_by_gate_exact_witness:
  "\<not> clause_entailed_by_gate [1, 2] And2 3 [1, 2] \<and> clause_entailed_by_gate [1, - 3] And2 3 [1, 2]"
proof -
  have "\<not> clause_sat (\<lambda>_. False) [1, 2]" by (simp add: lit_val_def)
  then have "\<not> (\<forall>\<sigma>. lit_val \<sigma> 3 = gate_eval And2 (map (lit_val \<sigma>) [1, 2]) \<longrightarrow> clause_sat \<sigma> [1, 2])"
    by (intro notI) (drule spec[of _ "\<lambda>_. False"], simp add: lit_val_def)
  moreover have "\<forall>\<sigma>. lit_val \<sigma> 3 = gate_eval And2 (map (lit_val \<sigma>) [1, 2]) \<longrightarrow> clause_sat \<sigma> [1, - 3]"
    by (simp add: lit_val_def)
  ultimately show ?thesis
    using clause_entailed_by_gate_exact[of "[1, 2]" And2 3 "[1, 2]"]
      clause_entailed_by_gate_exact[of "[1, - 3]" And2 3 "[1, 2]"] by auto
qed

text \<open>C5. A miter that passes the provenance check, with positive diff literals, says what its
  provenance says: an assignment satisfies the clauses exactly when every recorded gate
  holds and the recorded outputs of the two sides differ.\<close>

theorem check_provenance_sound:
  assumes "check_provenance m = Inr ()"
    and "\<And>d. d \<in> set (p_diff (m_provenance m)) \<Longrightarrow> 0 < d"
    and "\<And>g. g \<in> set (p_gates (m_provenance m)) \<Longrightarrow> 0 \<notin> set (g_ins g) \<and> g_out g \<noteq> 0"
  shows "cnf_sat \<sigma> (m_clauses m) \<longleftrightarrow>
    (\<forall>g \<in> set (p_gates (m_provenance m)). gate_holds \<sigma> g) \<and>
    map (lit_val \<sigma>) (p_ir_out (m_provenance m)) \<noteq> map (lit_val \<sigma>) (p_machine_out (m_provenance m))"
  using assms(1)
proof (rule check_provenanceE)
  let ?p = "m_provenance m"
  fix pg
  assume g: "group_clauses (zip (m_clauses m) (m_clause_tags m)) (replicate (length (p_gates ?p)) []) [] = Inr (pg, [canon (p_diff ?p)])"
    and c: "check_gates (p_gates ?p) pg = Inr ()" and len: "length (m_clause_tags m) = length (m_clauses m)"
    and lens: "length (p_ir_out ?p) = length (p_machine_out ?p)" "length (p_ir_out ?p) = length (p_diff ?p)"
    and d: "check_diffs (filter (\<lambda>g. g_side g = Diff) (p_gates ?p)) (p_diff ?p) (p_ir_out ?p) (p_machine_out ?p) = Inr ()"
  from group_clauses_sat[OF g, of \<sigma>] len
  have "length pg = length (p_gates ?p)" "cnf_sat \<sigma> (m_clauses m) = (cnf_sat \<sigma> (concat pg) \<and> clause_sat \<sigma> (p_diff ?p))"
    by (auto simp: concat_replicate_trivial)
  with check_gates_sat[OF c, of \<sigma>] assms(3) lens check_diffs_sat[OF d lens(1) _ assms(2), of \<sigma>] show ?thesis by auto
qed

text \<open>The obligation \<open>x = x\<close> at one bit, and its miter written out.\<close>

definition id_miter :: "int \<Rightarrow> int list \<Rightarrow> miter_cnf" where
  "id_miter mc diff = \<lparr>m_num_vars = 3,
     m_clauses = canonical_gate_clauses Xor2 3 [1, mc] @ [diff],
     m_clause_tags = [Some 0, Some 0, Some 0, Some 0, None], m_inputs = [(''x'', [1])], m_rule_name = ''id'',
     m_provenance = \<lparr>p_rule_name = ''id'', p_width = 1, p_num_vars = 3, p_inputs = [(''x'', [1])],
       p_gates = [\<lparr>g_side = Diff, g_kind = Xor2, g_out = 3, g_ins = [1, mc]\<rparr>],
       p_ir_out = [1], p_machine_out = [mc], p_diff = diff\<rparr>\<rparr>"

lemma id_miter_accepted:
  "check_provenance (id_miter 2 [3]) = Inr ()" "check_provenance (id_miter (- 1) [- 3]) = Inr ()"
  by (simp_all add: id_miter_def miter_defs)

theorem check_provenance_sound_witness:
  "cnf_sat (\<lambda>v. v \<noteq> 2) (m_clauses (id_miter 2 [3])) \<longleftrightarrow>
     (\<forall>g \<in> set (p_gates (m_provenance (id_miter 2 [3]))). gate_holds (\<lambda>v. v \<noteq> 2) g) \<and>
     map (lit_val (\<lambda>v. v \<noteq> 2)) (p_ir_out (m_provenance (id_miter 2 [3])))
       \<noteq> map (lit_val (\<lambda>v. v \<noteq> 2)) (p_machine_out (m_provenance (id_miter 2 [3])))"
  by (rule check_provenance_sound[OF id_miter_accepted(1)]) (auto simp: id_miter_def)

text \<open>C33. The sign condition is needed. The check finds a diff literal's gate by its variable
  and not by the literal, so it accepts a miter whose disequality clause negates the diff gate:
  its clauses are unsatisfiable although its two sides differ under every
  assignment.\<close>

theorem check_provenance_accepts_negated_diff:
  "check_provenance (id_miter (- 1) [- 3]) = Inr () \<and>
   (\<nexists>\<sigma>. cnf_sat \<sigma> (m_clauses (id_miter (- 1) [- 3]))) \<and>
   (\<forall>\<sigma>. map (lit_val \<sigma>) (p_ir_out (m_provenance (id_miter (- 1) [- 3])))
      \<noteq> map (lit_val \<sigma>) (p_machine_out (m_provenance (id_miter (- 1) [- 3]))))"
  using id_miter_accepted(2)
  by (auto simp: id_miter_def canonical_gate_clauses_def Let_def lit_val_def)

text \<open>C23. The blaster's self-check does not reject its own circuits: when neither side has a
  constant output bit, the miter is returned, and it passes the check.\<close>

theorem literal_miter_accepted:
  assumes "preconditions ob = []" and "fp_inputs ob = []" and "ob_inputs ob \<noteq> []" and "w \<le> 64"
    and "well_sorted (trust_ir_expr ob) (BitVec w)" and "well_sorted (aarch64_expr ob) (BitVec w)"
    and ins: "alloc_inputs (ob_inputs ob) Map.empty blaster_new = Inr (benv, ids, st0)"
    and ir: "blast_expr (trust_ir_expr ob) benv (st0\<lparr>side := Ir\<rparr>) = Inr (map BLit ir_lits, st1)"
    and mc: "blast_expr (aarch64_expr ob) benv (st1\<lparr>side := Machine\<rparr>) = Inr (map BLit mc_lits, st2)"
    and "0 < w"
  shows "\<exists>mit. blast_equivalence_miter ob = Inr mit \<and> check_provenance mit = Inr ()"
proof -
  note inv0 = binv_inputs[OF ins]
  have b1: "blasts (next_var st0) benv (st0\<lparr>side := Ir\<rparr>) (trust_ir_expr ob) w (map BLit ir_lits) st1"
    using blast_expr_correct[OF assms(5) refl assms(4) _ inv0(2) ir] inv0(1) by simp
  then have b2: "blasts (next_var st0) benv (st1\<lparr>side := Machine\<rparr>) (aarch64_expr ob) w (map BLit mc_lits) st2"
    using blast_expr_correct[OF assms(6) refl assms(4) _ inv0(2) mc] by (simp add: blasts_def)
  from b1 b2 have ok: "list_all (bit_ok (next_var st2)) (map BLit ir_lits)" "list_all (bit_ok (next_var st2)) (map BLit mc_lits)"
    and inv2: "binv (next_var st0) (st2\<lparr>side := Diff\<rparr>)" and len: "length ir_lits = length mc_lits" "length ir_lits = w"
    using list_ok_grows[of "st1\<lparr>side := Machine\<rparr>" st2 "map BLit ir_lits"] by (auto simp: blasts_def)
  obtain ds t st3 where d: "diff_bits (map BLit ir_lits) (map BLit mc_lits) (st2\<lparr>side := Diff\<rparr>) = (ds, t, st3)"
    by (metis prod_cases3)
  have inv3: "binv (next_var st0) st3" using diff_bits_correct[OF inv2 _ _ _ d] len ok by simp
  have "\<not> t" using diff_bits_literals[OF len(1) d] by simp
  define mit where "mit = \<lparr>m_num_vars = next_var st3, m_clauses = clauses st3 @ [ds], m_clause_tags = clause_tags st3 @ [None],
    m_inputs = ids, m_rule_name = ob_name ob, m_provenance = \<lparr>p_rule_name = ob_name ob, p_width = length mc_lits,
      p_num_vars = next_var st3, p_inputs = ids, p_gates = gates st3, p_ir_out = ir_lits, p_machine_out = mc_lits,
      p_diff = ds\<rparr>\<rparr>"
  have "check_provenance mit = Inr ()"
    by (rule blaster_miter_accepted[OF inv2 inv3 len(1) _ d]) (simp_all add: mit_def)
  moreover have "map bit_lit (map BLit xs) = xs" for xs by (induction xs) (simp_all add: bit_lit_def)
  ultimately have "blast_equivalence_miter ob = Inr mit"
    using assms(1-3) len \<open>0 < w\<close> \<open>\<not> t\<close> by (auto simp: blast_equivalence_miter_def ins ir mc d Let_def mit_def[symmetric] simp del: map_map)
  with \<open>check_provenance mit = Inr ()\<close> show ?thesis by blast
qed

definition xor_ob :: proof_obligation where
  "xor_ob = \<lparr>ob_name = ''bxor'', trust_ir_expr = BvXor (Var ''x'' 1) (Var ''y'' 1) 1,
     aarch64_expr = BvXor (Var ''y'' 1) (Var ''x'' 1) 1,
     ob_inputs = [(''x'', 1), (''y'', 1)], preconditions = [], fp_inputs = []\<rparr>"

theorem literal_miter_accepted_witness:
  "\<exists>mit. blast_equivalence_miter xor_ob = Inr mit \<and> check_provenance mit = Inr ()"
proof -
  obtain benv ids st0 where ins: "alloc_inputs (ob_inputs xor_ob) Map.empty blaster_new = Inr (benv, ids, st0)"
    and b: "benv = [''x'' \<mapsto> [BLit 1], ''y'' \<mapsto> [BLit 2]]" "next_var st0 = 2"
    by (simp add: xor_ob_def miter_defs)
  obtain st1 where ir: "blast_expr (trust_ir_expr xor_ob) benv (st0\<lparr>side := Ir\<rparr>) = Inr (map BLit [3], st1)"
    and "next_var st1 = 3" by (simp add: xor_ob_def b miter_defs)
  then obtain st2 where mc: "blast_expr (aarch64_expr xor_ob) benv (st1\<lparr>side := Machine\<rparr>) = Inr (map BLit [4], st2)"
    by (simp add: xor_ob_def b miter_defs)
  have "well_sorted (trust_ir_expr xor_ob) (BitVec 1)" "well_sorted (aarch64_expr xor_ob) (BitVec 1)"
    by (auto simp: xor_ob_def intro!: well_sorted.intros ws_bin[of BvXor])
  then show ?thesis
    by (intro literal_miter_accepted[where w = 1, OF _ _ _ _ _ _ ins ir mc]) (simp_all add: xor_ob_def)
qed

definition and_zero_ob :: proof_obligation where
  "and_zero_ob = \<lparr>ob_name = ''band'', trust_ir_expr = BvAnd (Var ''x'' 8) (BvConst 0 8) 8,
     aarch64_expr = BvConst 0 8, ob_inputs = [(''x'', 8)], preconditions = [], fp_inputs = []\<rparr>"


end
