(* ===== verification/A64_Isel.thy ===== *)
theory A64_Isel
  imports Prelude
begin

text \<open>
  The part of the AArch64 instruction selector (\<open>trust-cg-lower/src/isel.rs\<close>) that the
  integer constant code uses: virtual registers and operands, emission into the current
  block, and the materialization of integer constants. The instructions are given the
  meaning the architecture manual gives them on 64-bit registers, where an instruction whose
  destination is a 32-bit virtual register reads the low halves of its operands and
  clears the upper half of its result.
\<close>

section \<open>Instructions and emission\<close>

datatype reg_class = Gpr32 | Gpr64

record vreg =
  v_id :: nat
  v_class :: reg_class

text \<open>The physical registers the modelled selectors name are the two zero registers.\<close>

datatype preg = XZR | WZR

datatype isel_operand = VReg vreg | PReg preg | Imm int

datatype opcode =
    MovR | LsrRI | AsrRI | AddRR | SubRR | MulRR | Umull | Smull | Umulh | Smulh | Uxtw | Sxtw
  | Msub | AddRRShift | SubRRShift | Movz | Movn | Movk
  | AddRI | AddRIShift12 | SubRI | SDiv | UDiv | Sxtb | Sxth | Uxtb | Uxth

record isel_inst =
  opc :: opcode
  operands :: "isel_operand list"

datatype lir_type = B1 | I8 | I16 | I32 | I64 | I128

text \<open>The integer rows of \<open>reg_class_for_type\<close> and of \<open>is_32bit\<close>.\<close>

fun reg_class_for_type :: "lir_type \<Rightarrow> reg_class" where
  "reg_class_for_type B1 = Gpr64"
| "reg_class_for_type I8 = Gpr32"
| "reg_class_for_type I16 = Gpr32"
| "reg_class_for_type I32 = Gpr32"
| "reg_class_for_type I64 = Gpr64"
| "reg_class_for_type I128 = Gpr64"

definition is_32bit :: "lir_type \<Rightarrow> bool" where
  "is_32bit ty \<longleftrightarrow> ty \<in> {B1, I8, I16, I32}"

definition is_int32ish :: "lir_type \<Rightarrow> bool" where
  "is_int32ish ty \<longleftrightarrow> ty \<in> {B1, I8, I16, I32}"

text \<open>A LIR instruction, without its opcode, which selects the selector.\<close>

record instruction =
  args :: "nat list"
  results :: "nat list"

datatype isel_error = UndefinedValue nat | InsufficientArgs nat nat string | MissingResult string

text \<open>
  The selector while it works on one block: \<open>insts\<close> is the code of that block, the one every
  call emits into. Values are numbers.
\<close>

record selector =
  next_vreg :: nat
  insts :: "isel_inst list"
  value_map :: "nat \<rightharpoonup> isel_operand"
  value_types :: "nat \<rightharpoonup> lir_type"
  iconst_origins :: "nat \<rightharpoonup> lir_type \<times> int"
  i128_high_map :: "nat \<rightharpoonup> vreg"

definition require_args :: "instruction \<Rightarrow> nat \<Rightarrow> string \<Rightarrow> (isel_error, unit) result" where
  "require_args inst n ctxt = (if length (args inst) < n then Inl (InsufficientArgs n (length (args inst)) ctxt) else Inr ())"

definition require_result :: "instruction \<Rightarrow> string \<Rightarrow> (isel_error, unit) result" where
  "require_result inst ctxt = (if results inst = [] then Inl (MissingResult ctxt) else Inr ())"

definition new_vreg :: "reg_class \<Rightarrow> selector \<Rightarrow> vreg \<times> selector" where
  "new_vreg class st = (\<lparr>v_id = next_vreg st, v_class = class\<rparr>, st\<lparr>next_vreg := next_vreg st + 1\<rparr>)"

definition emit :: "opcode \<Rightarrow> isel_operand list \<Rightarrow> selector \<Rightarrow> selector" where
  "emit op ops st = st\<lparr>insts := insts st @ [\<lparr>opc = op, operands = ops\<rparr>]\<rparr>"

definition define_value :: "nat \<Rightarrow> isel_operand \<Rightarrow> lir_type \<Rightarrow> selector \<Rightarrow> selector" where
  "define_value val operand ty st = st\<lparr>value_map := (value_map st)(val \<mapsto> operand),
     value_types := (value_types st)(val \<mapsto> ty)\<rparr>"

definition define_i128_value :: "nat \<Rightarrow> vreg \<Rightarrow> vreg \<Rightarrow> selector \<Rightarrow> selector" where
  "define_i128_value val lo hi st = (define_value val (VReg lo) I128 st)\<lparr>i128_high_map := (i128_high_map st)(val \<mapsto> hi)\<rparr>"

definition value_type :: "selector \<Rightarrow> nat \<Rightarrow> lir_type" where
  "value_type st val = (case value_types st val of Some ty \<Rightarrow> ty | None \<Rightarrow> I64)"

definition magic_rr :: "opcode \<Rightarrow> reg_class \<Rightarrow> isel_operand \<Rightarrow> isel_operand \<Rightarrow> selector \<Rightarrow> vreg \<times> selector" where
  "magic_rr op class a b st = (let (dst, st) = new_vreg class st in (dst, emit op [VReg dst, a, b] st))"

definition magic_rr64 :: "opcode \<Rightarrow> isel_operand \<Rightarrow> isel_operand \<Rightarrow> selector \<Rightarrow> vreg \<times> selector" where
  "magic_rr64 op a b st = magic_rr op Gpr64 a b st"

definition magic_shift_imm :: "opcode \<Rightarrow> reg_class \<Rightarrow> isel_operand \<Rightarrow> int \<Rightarrow> selector \<Rightarrow> vreg \<times> selector" where
  "magic_shift_imm op class src amt st = (let (dst, st) = new_vreg class st in (dst, emit op [VReg dst, src, Imm amt] st))"

section \<open>Integer constants\<close>

definition move_wide_chunks :: "int \<Rightarrow> nat \<Rightarrow> u16 list" where
  "move_wide_chunks imm chunk_count =
     map (\<lambda>idx. if idx < chunk_count then ucast (drop_bit (idx * 16) (word_of_int imm :: u64) AND 0xFFFF) else 0) [0 ..< 4]"

text \<open>The repair loop shared by the two sequences: a \<open>MOVK\<close> for every chunk but the lowest
  that differs from what the seed left there.\<close>

fun emit_movk :: "vreg \<Rightarrow> u16 \<Rightarrow> nat \<Rightarrow> u16 list \<Rightarrow> selector \<Rightarrow> selector" where
  "emit_movk dst skip idx (c # cs) st = emit_movk dst skip (idx + 1) cs
     (if c \<noteq> skip then emit Movk [VReg dst, Imm (uint c), Imm (int (idx * 16))] st else st)"
| "emit_movk dst skip idx [] st = st"

definition emit_preferred_movn :: "vreg \<Rightarrow> int \<Rightarrow> nat \<Rightarrow> selector \<Rightarrow> bool \<times> selector" where
  "emit_preferred_movn dst imm chunk_count st =
     (let chunks = move_wide_chunks imm chunk_count;
          high = drop 1 (take chunk_count chunks);
          movz_count = 1 + length (filter (\<lambda>c. c \<noteq> 0) high);
          movn_count = 1 + length (filter (\<lambda>c. c \<noteq> 0xFFFF) high)
      in if movn_count > movz_count \<or> (movn_count = movz_count \<and> chunks ! 0 \<noteq> 0xFFFF) then (False, st)
         else let movn_imm = NOT (chunks ! 0) in
           (True, emit_movk dst 0xFFFF 1 high (emit Movn [VReg dst, Imm (uint movn_imm)] st)))"

definition emit_iconst_materialization :: "vreg \<Rightarrow> lir_type \<Rightarrow> int \<Rightarrow> selector \<Rightarrow> selector" where
  "emit_iconst_materialization dst ty imm st =
     (if 0 \<le> imm \<and> imm \<le> 0xFFFF then emit Movz [VReg dst, Imm imm] st
      else if - 0x10000 \<le> imm \<and> imm < 0
      then let encoded = (NOT (word_of_int imm) AND 0xFFFF :: u64) in emit Movn [VReg dst, Imm (uint encoded)] st
      else let chunks = (if is_32bit ty then 2 else 4);
               (done, st) = emit_preferred_movn dst imm chunks st
           in if done then st
              else let low16 = (word_of_int imm AND 0xFFFF :: u64);
                       st = emit Movz [VReg dst, Imm (uint low16)] st
                   in emit_movk dst 0 1
                        (map (\<lambda>shift. ucast (drop_bit (shift * 16) (word_of_int imm :: u64) AND 0xFFFF)) [1 ..< chunks]) st)"

definition magic_mat :: "lir_type \<Rightarrow> int \<Rightarrow> selector \<Rightarrow> vreg \<times> selector" where
  "magic_mat ty imm st = (let (dst, st) = new_vreg (reg_class_for_type ty) st in
     (dst, emit_iconst_materialization dst ty imm st))"

definition emit_movz_movk_sequence :: "vreg \<Rightarrow> u64 \<Rightarrow> selector \<Rightarrow> selector" where
  "emit_movz_movk_sequence dst val st = (let low16 = (val AND 0xFFFF) in
     emit_movk dst 0 1 (map (\<lambda>shift. ucast (drop_bit (shift * 16) val AND 0xFFFF)) [1 ..< 4])
       (emit Movz [VReg dst, Imm (uint low16)] st))"

section \<open>Uses of values\<close>

definition rematerialize_iconst :: "nat \<Rightarrow> lir_type \<Rightarrow> int \<Rightarrow> selector \<Rightarrow> isel_operand \<times> selector" where
  "rematerialize_iconst val ty imm st =
     (if ty = I128
      then let (dst_lo, st) = new_vreg Gpr64 st;
               (dst_hi, st) = new_vreg Gpr64 st;
               lo_val = word_of_int imm;
               hi_val = (if imm < 0 then - 1 else 0);
               st = emit_movz_movk_sequence dst_lo lo_val st;
               st = emit_movz_movk_sequence dst_hi hi_val st
           in (VReg dst_lo, define_i128_value val dst_lo dst_hi st)
      else let (dst, st) = new_vreg (reg_class_for_type ty) st;
               st = emit_iconst_materialization dst ty imm st
           in (VReg dst, define_value val (VReg dst) ty st))"

definition use_value :: "nat \<Rightarrow> selector \<Rightarrow> (isel_error, isel_operand \<times> selector) result" where
  "use_value val st = (case value_map st val of
       Some operand \<Rightarrow> Inr (operand, st)
     | None \<Rightarrow> (case iconst_origins st val of
           Some (ty, imm) \<Rightarrow> Inr (rematerialize_iconst val ty imm st)
         | None \<Rightarrow> Inl (UndefinedValue val)))"

definition select_iconst :: "lir_type \<Rightarrow> int \<Rightarrow> instruction \<Rightarrow> selector \<Rightarrow> (isel_error, selector) result" where
  "select_iconst ty imm inst st = rbind (require_result inst ''Iconst'') (\<lambda>_.
     let (dst, st) = new_vreg (reg_class_for_type ty) st;
         st = emit_iconst_materialization dst ty imm st
     in Inr (define_value (results inst ! 0) (VReg dst) ty st))"

section \<open>Execution\<close>

type_synonym regs = "nat \<Rightarrow> u64"

fun cbits :: "reg_class \<Rightarrow> nat" where
  "cbits Gpr32 = 32"
| "cbits Gpr64 = 64"

definition trunc :: "reg_class \<Rightarrow> u64 \<Rightarrow> u64" where
  "trunc class v = take_bit (cbits class) v"

text \<open>The unsigned and the signed number in the part of a register that a class names.\<close>

definition uval :: "reg_class \<Rightarrow> u64 \<Rightarrow> int" where
  "uval class v = take_bit (cbits class) (uint v)"

definition sval :: "reg_class \<Rightarrow> u64 \<Rightarrow> int" where
  "sval class v = signed_take_bit (cbits class - 1) (uint v)"

fun opval :: "regs \<Rightarrow> isel_operand \<Rightarrow> u64" where
  "opval r (VReg v) = r (v_id v)"
| "opval r (PReg p) = 0"
| "opval r (Imm i) = word_of_int i"

text \<open>The result of an instruction on its source operands; \<open>old\<close> is the former content of the
  destination, which only \<open>MOVK\<close> keeps part of. The divide instructions return zero for a
  zero divisor.\<close>

fun alu :: "opcode \<Rightarrow> reg_class \<Rightarrow> u64 \<Rightarrow> u64 list \<Rightarrow> u64" where
  "alu MovR cl old xs = trunc cl (xs ! 0)"
| "alu LsrRI cl old xs = drop_bit (unat (xs ! 1)) (trunc cl (xs ! 0))"
| "alu AsrRI cl old xs = trunc cl (word_of_int (sval cl (xs ! 0) div 2 ^ unat (xs ! 1)))"
| "alu AddRR cl old xs = trunc cl (xs ! 0 + xs ! 1)"
| "alu SubRR cl old xs = trunc cl (xs ! 0 - xs ! 1)"
| "alu MulRR cl old xs = trunc cl (xs ! 0 * xs ! 1)"
| "alu Umull cl old xs = word_of_int (uval Gpr32 (xs ! 0) * uval Gpr32 (xs ! 1))"
| "alu Smull cl old xs = word_of_int (sval Gpr32 (xs ! 0) * sval Gpr32 (xs ! 1))"
| "alu Umulh cl old xs = word_of_int (uint (xs ! 0) * uint (xs ! 1) div 2 ^ 64)"
| "alu Smulh cl old xs = word_of_int (sint (xs ! 0) * sint (xs ! 1) div 2 ^ 64)"
| "alu Uxtw cl old xs = take_bit 32 (xs ! 0)"
| "alu Sxtw cl old xs = word_of_int (sval Gpr32 (xs ! 0))"
| "alu Msub cl old xs = trunc cl (xs ! 2 - xs ! 0 * xs ! 1)"
| "alu AddRRShift cl old xs = trunc cl (xs ! 0 + push_bit (unat (xs ! 2)) (xs ! 1))"
| "alu SubRRShift cl old xs = trunc cl (xs ! 0 - push_bit (unat (xs ! 2)) (xs ! 1))"
| "alu Movz cl old xs = trunc cl (xs ! 0)"
| "alu Movn cl old xs = trunc cl (NOT (xs ! 0))"
| "alu Movk cl old xs = trunc cl ((old AND NOT (push_bit (unat (xs ! 1)) 0xFFFF)) OR push_bit (unat (xs ! 1)) (xs ! 0))"
| "alu AddRI cl old xs = trunc cl (xs ! 0 + xs ! 1)"
| "alu AddRIShift12 cl old xs = trunc cl (xs ! 0 + push_bit 12 (xs ! 1))"
| "alu SubRI cl old xs = trunc cl (xs ! 0 - xs ! 1)"
| "alu SDiv cl old xs = trunc cl (word_of_int (sval cl (xs ! 0) sdiv sval cl (xs ! 1)))"
| "alu UDiv cl old xs = word_of_int (uval cl (xs ! 0) div uval cl (xs ! 1))"
| "alu Sxtb cl old xs = trunc cl (word_of_int (signed_take_bit 7 (uint (xs ! 0))))"
| "alu Sxth cl old xs = trunc cl (word_of_int (signed_take_bit 15 (uint (xs ! 0))))"
| "alu Uxtb cl old xs = take_bit 8 (xs ! 0)"
| "alu Uxth cl old xs = take_bit 16 (xs ! 0)"

text \<open>The immediates an instruction can encode, at the width of its destination.\<close>

fun imm_ok :: "opcode \<Rightarrow> nat \<Rightarrow> int list \<Rightarrow> bool" where
  "imm_ok LsrRI w is = (case is of [k] \<Rightarrow> 0 \<le> k \<and> k < int w | _ \<Rightarrow> False)"
| "imm_ok AsrRI w is = (case is of [k] \<Rightarrow> 0 \<le> k \<and> k < int w | _ \<Rightarrow> False)"
| "imm_ok AddRRShift w is = (case is of [k] \<Rightarrow> 0 \<le> k \<and> k < int w | _ \<Rightarrow> False)"
| "imm_ok SubRRShift w is = (case is of [k] \<Rightarrow> 0 \<le> k \<and> k < int w | _ \<Rightarrow> False)"
| "imm_ok Movz w is = (case is of [k] \<Rightarrow> 0 \<le> k \<and> k < 2 ^ 16 | _ \<Rightarrow> False)"
| "imm_ok Movn w is = (case is of [k] \<Rightarrow> 0 \<le> k \<and> k < 2 ^ 16 | _ \<Rightarrow> False)"
| "imm_ok Movk w is = (case is of [k, s] \<Rightarrow> 0 \<le> k \<and> k < 2 ^ 16 \<and> s \<in> {0, 16, 32, 48} \<and> s < int w | _ \<Rightarrow> False)"
| "imm_ok AddRI w is = (case is of [k] \<Rightarrow> 0 \<le> k \<and> k < 2 ^ 12 | _ \<Rightarrow> False)"
| "imm_ok AddRIShift12 w is = (case is of [k] \<Rightarrow> 0 \<le> k \<and> k < 2 ^ 12 | _ \<Rightarrow> False)"
| "imm_ok SubRI w is = (case is of [k] \<Rightarrow> 0 \<le> k \<and> k < 2 ^ 12 | _ \<Rightarrow> False)"
| "imm_ok _ w is = (is = [])"

definition imms :: "isel_operand list \<Rightarrow> int list" where
  "imms ops = concat (map (\<lambda>p. case p of Imm k \<Rightarrow> [k] | _ \<Rightarrow> []) ops)"

definition encodable :: "isel_inst \<Rightarrow> bool" where
  "encodable i = (case operands i of
       VReg d # ops \<Rightarrow> imm_ok (opc i) (cbits (v_class d)) (imms ops)
     | _ \<Rightarrow> False)"

definition exec :: "isel_inst \<Rightarrow> regs \<Rightarrow> regs" where
  "exec i r = (case operands i of
       VReg d # ops \<Rightarrow> r(v_id d := alu (opc i) (v_class d) (r (v_id d)) (map (opval r) ops))
     | _ \<Rightarrow> r)"

definition run :: "isel_inst list \<Rightarrow> regs \<Rightarrow> regs" where
  "run is r = fold exec is r"

text \<open>The registers after the instructions emitted so far.\<close>

definition regs_of :: "selector \<Rightarrow> regs \<Rightarrow> regs" where
  "regs_of st r = run (insts st) r"

definition enc_ok :: "selector \<Rightarrow> bool" where
  "enc_ok st = list_all encodable (insts st)"

text \<open>The fields of the selector that emission leaves alone.\<close>

definition frame :: "selector \<Rightarrow> selector" where
  "frame st = st\<lparr>next_vreg := 0, insts := []\<rparr>"

lemma frame_fields:
  assumes "frame st = frame st'"
  shows "value_map st = value_map st'" and "value_types st = value_types st'"
    and "iconst_origins st = iconst_origins st'" and "i128_high_map st = i128_high_map st'"
  using arg_cong[OF assms, of value_map] arg_cong[OF assms, of value_types] arg_cong[OF assms, of iconst_origins]
    arg_cong[OF assms, of i128_high_map] by (simp_all add: frame_def)

lemma frame_emit [simp]: "frame (emit op ops st) = frame st" "frame (st\<lparr>next_vreg := n\<rparr>) = frame st"
  by (simp_all add: emit_def frame_def)

lemma regs_of_emit: "regs_of (emit op ops st) r = exec \<lparr>opc = op, operands = ops\<rparr> (regs_of st r)"
  by (simp add: regs_of_def emit_def run_def)

lemma enc_ok_emit: "enc_ok (emit op ops st) \<longleftrightarrow> enc_ok st \<and> encodable \<lparr>opc = op, operands = ops\<rparr>"
  by (simp add: enc_ok_def emit_def)

lemma regs_of_vreg [simp]: "regs_of (st\<lparr>next_vreg := n\<rparr>) r = regs_of st r" "enc_ok (st\<lparr>next_vreg := n\<rparr>) = enc_ok st"
  by (simp_all add: regs_of_def enc_ok_def)

lemma regs_of_define [simp]:
  "regs_of (define_value v op ty st) r = regs_of st r" "next_vreg (define_value v op ty st) = next_vreg st"
  "enc_ok (define_value v op ty st) = enc_ok st"
  by (simp_all add: regs_of_def define_value_def enc_ok_def)

lemma next_vreg_emit [simp]: "next_vreg (emit op ops st) = next_vreg st"
  by (simp add: emit_def)

lemma exec_vreg: "exec \<lparr>opc = op, operands = VReg d # ops\<rparr> r = r(v_id d := alu op (v_class d) (r (v_id d)) (map (opval r) ops))"
  by (simp add: exec_def)

lemmas emission = regs_of_emit exec_vreg

section \<open>Materialized constants\<close>

lemma bit_movk:
  fixes v :: u64 and c :: u16
  assumes "i < 4"
  shows "bit ((v AND NOT (push_bit (i * 16) 0xFFFF)) OR push_bit (i * 16) (ucast c)) n \<longleftrightarrow>
    n < 64 \<and> (if i * 16 \<le> n \<and> n < i * 16 + 16 then bit c (n - i * 16) else bit v n)"
proof (cases "n < 64")
  case True
  have "bit (0xFFFF :: u64) k \<longleftrightarrow> k < 16" if "k < 64" for k
    using that bit_mask_iff[where 'a = "64 word" and m = 16, of k] by (simp add: mask_eq_exp_minus_1)
  then have "bit (push_bit (i * 16) (0xFFFF :: u64)) n \<longleftrightarrow> i * 16 \<le> n \<and> n < i * 16 + 16"
    using True by (auto simp: bit_push_bit_iff)
  moreover have "bit (push_bit (i * 16) (ucast c :: u64)) n \<longleftrightarrow> i * 16 \<le> n \<and> n < i * 16 + 16 \<and> bit c (n - i * 16)"
    using True bit_imp_le_length[of c "n - i * 16"] by (auto simp: bit_push_bit_iff bit_ucast_iff)
  ultimately show ?thesis using True by (auto simp: bit_or_iff bit_and_iff bit_not_iff)
qed (auto dest: bit_imp_le_length)

definition chunk :: "u64 \<Rightarrow> nat \<Rightarrow> u16" where
  "chunk v i = ucast (drop_bit (i * 16) v AND 0xFFFF)"

lemma bit_chunk: "i < 4 \<Longrightarrow> k < 16 \<Longrightarrow> bit (chunk v i) k \<longleftrightarrow> bit v (i * 16 + k)"
proof -
  assume "i < 4" "k < 16"
  moreover have "drop_bit (i * 16) v AND 0xFFFF = take_bit 16 (drop_bit (i * 16) v)"
    by (simp add: take_bit_eq_mask mask_eq_exp_minus_1)
  ultimately show ?thesis by (simp add: chunk_def bit_ucast_iff bit_take_bit_iff bit_drop_bit_eq add.commute)
qed

lemma words_by_chunks:
  assumes "\<And>i. i < 4 \<Longrightarrow> chunk v i = chunk u i"
  shows "v = u"
proof (rule bit_eqI)
  fix n assume "possible_bit TYPE(u64) n"
  then have n: "n div 16 < 4" "n mod 16 < 16" by auto
  have "bit v n = bit v (n div 16 * 16 + n mod 16)" by simp
  also have "\<dots> = bit (chunk v (n div 16)) (n mod 16)" using bit_chunk[OF n] by simp
  also have "\<dots> = bit u (n div 16 * 16 + n mod 16)" using bit_chunk[OF n] assms[OF n(1)] by simp
  finally show "bit v n = bit u n" by simp
qed

lemma chunk_movk:
  assumes "i < 4" and "j < 4"
  shows "chunk ((v AND NOT (push_bit (i * 16) 0xFFFF)) OR push_bit (i * 16) (ucast c)) j = (if j = i then c else chunk v j)"
proof (rule bit_eqI)
  fix k assume "possible_bit TYPE(u16) k"
  then have k: "k < 16" by simp
  have "i * 16 \<le> j * 16 + k \<and> j * 16 + k < i * 16 + 16 \<longleftrightarrow> j = i" using k by auto
  then show "bit (chunk ((v AND NOT (push_bit (i * 16) 0xFFFF)) OR push_bit (i * 16) (ucast c)) j) k
      = bit (if j = i then c else chunk v j) k"
    using k assms bit_chunk[OF assms(2) k] by (simp add: bit_movk[OF assms(1)])
qed

text \<open>The number of chunks a register of a class holds.\<close>

definition chunks_of :: "reg_class \<Rightarrow> nat" where
  "chunks_of cl = cbits cl div 16"

lemma chunk_trunc: "j < 4 \<Longrightarrow> chunk (trunc cl v) j = (if j < chunks_of cl then chunk v j else 0)"
proof (rule bit_eqI)
  fix k assume j: "j < 4" and "possible_bit TYPE(u16) k"
  then have k: "k < 16" by simp
  show "bit (chunk (trunc cl v) j) k = bit (if j < chunks_of cl then chunk v j else 0) k"
    using j k by (cases cl) (auto simp: bit_chunk trunc_def chunks_of_def bit_take_bit_iff)
qed

text \<open>The value the repair loop leaves in the register.\<close>

fun movk_val :: "reg_class \<Rightarrow> u16 \<Rightarrow> nat \<Rightarrow> u16 list \<Rightarrow> u64 \<Rightarrow> u64" where
  "movk_val cl skip i (c # cs) v = movk_val cl skip (i + 1) cs
     (if c \<noteq> skip then trunc cl ((v AND NOT (push_bit (i * 16) 0xFFFF)) OR push_bit (i * 16) (ucast c)) else v)"
| "movk_val cl skip i [] v = v"

lemma emit_movk_regs:
  "i + length cs \<le> 4 \<Longrightarrow> regs_of (emit_movk d skip i cs st) r =
     (regs_of st r)(v_id d := movk_val (v_class d) skip i cs (regs_of st r (v_id d)))"
proof (induction cs arbitrary: i st)
  case (Cons c cs)
  have i: "unat (word_of_int (int (i * 16)) :: u64) = i * 16" using Cons.prems by (simp only: of_int_of_nat_eq unsigned_of_nat) (simp add: take_bit_nat_eq_self)
  have c: "word_of_int (uint c) = (ucast c :: u64)" by simp
  have e: "regs_of (emit Movk [VReg d, Imm (uint c), Imm (int (i * 16))] st) r = (regs_of st r)(v_id d :=
      trunc (v_class d) ((regs_of st r (v_id d) AND NOT (push_bit (i * 16) 0xFFFF)) OR push_bit (i * 16) (ucast c)))"
    by (simp add: emission i c del: of_int_of_nat_eq of_nat_mult)
  have le: "i + 1 + length cs \<le> 4" using Cons.prems by simp
  show ?case
    by (cases "c = skip") (simp_all only: emit_movk.simps movk_val.simps Cons.IH[OF le] e if_True if_False
      simp_thms fun_upd_same fun_upd_upd)
qed simp

lemma emit_movk_other [simp]:
  "next_vreg (emit_movk d skip i cs st) = next_vreg st" "frame (emit_movk d skip i cs st) = frame st"
  by (induction d skip i cs st rule: emit_movk.induct) simp_all

lemma less_4: "i < 4 \<Longrightarrow> i = 0 \<or> i = 1 \<or> i = 2 \<or> i = (3 :: nat)"
  by linarith

lemma emit_movk_enc: "i + length cs \<le> chunks_of (v_class d) \<Longrightarrow> enc_ok (emit_movk d skip i cs st) = enc_ok st"
proof (induction d skip i cs st rule: emit_movk.induct)
  case (1 d skip i c cs st)
  have c: "0 \<le> uint c" "uint c < 2 ^ 16" using uint_bounded[of c] by auto
  have "i < chunks_of (v_class d)" using "1.prems" by simp
  then have "int (i * 16) \<in> {0, 16, 32, 48} \<and> int (i * 16) < int (cbits (v_class d))"
    using less_4[of i] by (cases "v_class d") (auto simp: chunks_of_def)
  with c have "encodable \<lparr>opc = Movk, operands = [VReg d, Imm (uint c), Imm (int (i * 16))]\<rparr>"
    by (simp add: encodable_def imms_def)
  with 1 show ?case by (simp add: enc_ok_emit)
qed simp

lemma movk_val_chunks:
  "\<lbrakk>i + length cs \<le> chunks_of cl; \<And>j. j < length cs \<Longrightarrow> chunk v (i + j) = skip; j < 4\<rbrakk> \<Longrightarrow>
     chunk (trunc cl (movk_val cl skip i cs v)) j =
       (if i \<le> j \<and> j < i + length cs then cs ! (j - i) else chunk (trunc cl v) j)"
proof (induction cl skip i cs v rule: movk_val.induct)
  case (1 cl skip i c cs v)
  have "chunks_of cl \<le> 4" by (cases cl) (simp_all add: chunks_of_def)
  then have i: "i < 4" "i < chunks_of cl" using "1.prems"(1) by auto
  define u where "u = (if c \<noteq> skip then trunc cl ((v AND NOT (push_bit (i * 16) 0xFFFF)) OR push_bit (i * 16) (ucast c)) else v)"
  have u: "chunk (trunc cl u) k = (if k = i then c else chunk (trunc cl v) k)" if "k < 4" for k
    using that "1.prems"(2)[of 0] i by (auto simp: u_def chunk_trunc chunk_movk)
  have skip: "chunk u (i + 1 + k) = skip" if "k < length cs" for k
  proof -
    have b: "i + 1 + k < 4" "i + 1 + k < chunks_of cl" using that "1.prems"(1) \<open>chunks_of cl \<le> 4\<close> by auto
    with "1.prems"(2)[of "Suc k"] that show ?thesis by (auto simp: u_def chunk_trunc chunk_movk i(1))
  qed
  have len: "i + 1 + length cs \<le> chunks_of cl" using "1.prems"(1) by simp
  have "chunk (trunc cl (movk_val cl skip (i + 1) cs u)) j =
      (if i + 1 \<le> j \<and> j < i + 1 + length cs then cs ! (j - (i + 1)) else chunk (trunc cl u) j)"
    using "1.IH"[folded u_def, OF len skip "1.prems"(3)] .
  with u[OF "1.prems"(3)] show ?case
    by (auto simp: u_def[symmetric] nth_Cons' simp del: One_nat_def split: if_splits)
qed auto

lemma trunc_idem [simp]: "trunc cl (trunc cl v) = trunc cl v"
  by (cases cl) (simp_all add: trunc_def)

lemma movk_val_trunc: "trunc cl v = v \<Longrightarrow> trunc cl (movk_val cl skip i cs v) = movk_val cl skip i cs v"
  by (induction cl skip i cs v rule: movk_val.induct) auto

lemma chunk_low: "chunk (ucast (c :: u16)) j = (if j = 0 then c else 0)" if "j < 4"
proof (rule bit_eqI)
  fix k assume "possible_bit TYPE(u16) k"
  then have k: "k < 16" by simp
  show "bit (chunk (ucast c) j) k = bit (if j = 0 then c else 0) k"
    using that k by (auto simp: bit_chunk bit_ucast_iff dest: bit_imp_le_length)
qed

lemma chunk_not: "j < 4 \<Longrightarrow> chunk (NOT v) j = NOT (chunk v j)"
proof (rule bit_eqI)
  fix k assume j: "j < 4" and "possible_bit TYPE(u16) k"
  then have k: "k < 16" by simp
  show "bit (chunk (NOT v) j) k = bit (NOT (chunk v j)) k"
    using j k by (simp add: bit_chunk bit_not_iff)
qed

text \<open>A seed followed by its repairs is the constant.\<close>

lemma seed_repair:
  assumes "chunk seed 0 = chunk W 0" and "\<And>j. \<lbrakk>0 < j; j < chunks_of cl\<rbrakk> \<Longrightarrow> chunk seed j = skip"
  shows "movk_val cl skip 1 (map (chunk W) [1 ..< chunks_of cl]) (trunc cl seed) = trunc cl W"
proof -
  have n: "1 \<le> chunks_of cl" "chunks_of cl \<le> 4" by (cases cl; simp add: chunks_of_def)+
  let ?v = "movk_val cl skip 1 (map (chunk W) [1 ..< chunks_of cl]) (trunc cl seed)"
  have "chunk (trunc cl ?v) j = chunk (trunc cl W) j" if "j < 4" for j
  proof -
    have "chunk (trunc cl ?v) j = (if 1 \<le> j \<and> j < chunks_of cl then chunk W j else chunk (trunc cl seed) j)"
      using n that assms(2) by (subst movk_val_chunks) (auto simp: chunk_trunc)
    then show ?thesis using assms(1) that n by (auto simp: chunk_trunc not_le)
  qed
  then have "trunc cl ?v = trunc cl W" by (rule words_by_chunks)
  then show ?thesis using movk_val_trunc[of cl "trunc cl seed"] by simp
qed

lemma movn_small:
  assumes "- 0x10000 \<le> imm" and "imm < 0"
  shows "NOT (word_of_int (uint (NOT (word_of_int imm) AND 0xFFFF :: u64))) = (word_of_int imm :: u64)"
proof -
  define w :: u64 where "w = word_of_int (- imm - 1)"
  have "NOT (word_of_int imm :: u64) = w" by (simp add: not_eq_complement w_def)
  moreover have "uint w = - imm - 1" using assms unfolding w_def by (subst uint_word_of_int) simp
  then have "take_bit 16 w = w" using assms
    by (intro word_uint_eqI) (simp only: unsigned_take_bit_eq, simp add: take_bit_int_eq_self)
  then have "w AND 0xFFFF = w" by (simp add: take_bit_eq_mask mask_eq_exp_minus_1)
  ultimately show ?thesis by (simp add: w_def not_eq_complement)
qed

lemma low_chunk: "v AND 0xFFFF = (ucast (chunk v 0) :: u64)"
proof -
  have "v AND 0xFFFF = take_bit 16 v" by (simp add: take_bit_eq_mask mask_eq_exp_minus_1)
  also have "\<dots> = ucast (chunk v 0)"
  proof (rule bit_eqI)
    fix n
    show "bit (take_bit 16 v) n = bit (ucast (chunk v 0) :: u64) n"
      using bit_chunk[of 0 n v] bit_imp_le_length[of "chunk v 0" n]
      by (cases "n < 16") (auto simp: bit_ucast_iff bit_take_bit_iff)
  qed
  finally show ?thesis .
qed

lemma iconst_regs:
  assumes "v_class d = reg_class_for_type ty" and "ty \<noteq> B1"
  shows "regs_of (emit_iconst_materialization d ty imm st) r = (regs_of st r)(v_id d := trunc (v_class d) (word_of_int imm))"
    and "next_vreg (emit_iconst_materialization d ty imm st) = next_vreg st"
    and "frame (emit_iconst_materialization d ty imm st) = frame st"
    and "enc_ok (emit_iconst_materialization d ty imm st) = enc_ok st"
proof -
  let ?cl = "v_class d" and ?W = "word_of_int imm :: u64"
  have n: "(if is_32bit ty then 2 else 4) = chunks_of ?cl" "1 \<le> chunks_of ?cl" "chunks_of ?cl \<le> 4"
    using assms by (cases ty; simp add: is_32bit_def chunks_of_def)+
  have ch: "take (chunks_of ?cl) (move_wide_chunks imm (chunks_of ?cl)) = map (chunk ?W) [0 ..< chunks_of ?cl]"
    using n by (auto simp: move_wide_chunks_def chunk_def take_map intro!: nth_equalityI)
  then have high: "drop 1 (take (chunks_of ?cl) (move_wide_chunks imm (chunks_of ?cl))) = map (chunk ?W) [1 ..< chunks_of ?cl]"
    by (simp add: drop_map)
  have c0: "move_wide_chunks imm (chunks_of ?cl) ! 0 = chunk ?W 0" using n by (simp add: move_wide_chunks_def chunk_def)
  show "next_vreg (emit_iconst_materialization d ty imm st) = next_vreg st"
    "frame (emit_iconst_materialization d ty imm st) = frame st"
    by (simp_all add: emit_iconst_materialization_def emit_preferred_movn_def Let_def)
  have "uint c < 65536" for c :: u16 using uint_bounded[of c] by simp
  moreover have "uint (v AND 0xFFFF :: u64) < 65536" for v
    using uint_bounded[of "chunk v 0"] by (simp add: low_chunk unsigned_ucast_eq take_bit_int_eq_self)
  ultimately show "enc_ok (emit_iconst_materialization d ty imm st) = enc_ok st"
    unfolding emit_iconst_materialization_def emit_preferred_movn_def Let_def n(1) high
    using n by (auto simp: enc_ok_emit emit_movk_enc encodable_def imms_def)
  show "regs_of (emit_iconst_materialization d ty imm st) r = (regs_of st r)(v_id d := trunc ?cl ?W)"
  proof (cases "0 \<le> imm \<and> imm \<le> 0xFFFF \<or> - 0x10000 \<le> imm \<and> imm < 0")
    case True
    then show ?thesis using movn_small[of imm] by (auto simp: emit_iconst_materialization_def emission Let_def)
  next
    case False
    have ff: "NOT 0 = (0xFFFF :: u16)" by simp
    have movz: "movk_val ?cl 0 1 (map (chunk ?W) [1 ..< chunks_of ?cl]) (trunc ?cl (ucast (chunk ?W 0))) = trunc ?cl ?W"
      using n by (intro seed_repair) (auto simp: chunk_low)
    have movn: "movk_val ?cl 0xFFFF 1 (map (chunk ?W) [1 ..< chunks_of ?cl]) (trunc ?cl (NOT (ucast (NOT (chunk ?W 0))))) = trunc ?cl ?W"
      using n ff by (intro seed_repair) (auto simp: chunk_low chunk_not)
    have len: "1 + length (map (chunk ?W) [1 ..< chunks_of ?cl]) \<le> 4" using n by simp
    have hi: "map (\<lambda>shift. ucast (drop_bit (shift * 16) ?W AND 0xFFFF)) [1 ..< chunks_of ?cl] = map (chunk ?W) [1 ..< chunks_of ?cl]"
      by (simp add: chunk_def)
    have f: "(0 \<le> imm \<and> imm \<le> 0xFFFF) = False" "(- 0x10000 \<le> imm \<and> imm < 0) = False" using False by auto
    show ?thesis
      unfolding emit_iconst_materialization_def emit_preferred_movn_def Let_def n(1) high c0 hi low_chunk[of ?W] f if_False
      by (simp add: emit_movk_regs[OF len] emission movz movn del: One_nat_def)
  qed
qed

end
