(* ===== verification/A64_Logic.thy ===== *)
theory A64_Logic
  imports A64_Isel
begin

text \<open>
  A small program logic for emitted AArch64 code. \<open>rep b v n\<close> says that the low \<open>b\<close> bits of a
  register are those of the number \<open>n\<close>; \<open>arg\<close> says it of an operand after the code emitted so
  far; \<open>yields\<close> says that an emission returns a fresh register with that content, leaves the
  older registers and the selector's maps alone, and emits only encodable instructions.
  There is one rule per instruction and one for sequencing.
\<close>

section \<open>Numbers in registers\<close>

definition rep :: "nat \<Rightarrow> u64 \<Rightarrow> int \<Rightarrow> bool" where
  "rep b v n \<longleftrightarrow> take_bit b (uint v) = take_bit b n"

lemma rep_mono: "rep b v n \<Longrightarrow> a \<le> b \<Longrightarrow> rep a v n"
  unfolding rep_def by (metis take_bit_take_bit min.absorb1)

lemma rep_cong: "rep b v m \<Longrightarrow> take_bit b m = take_bit b n \<Longrightarrow> rep b v n"
  by (simp add: rep_def)

lemma rep_uint: "uint v = n \<Longrightarrow> rep b v n"
  by (simp add: rep_def)

lemma cbits_le [simp]: "cbits cl \<le> 64" "0 < cbits cl"
  by (cases cl; simp)+

lemma uint_u64 [simp]: "uint (word_of_int n :: u64) = take_bit 64 n"
  by (simp add: unsigned_of_int)

lemma rep_word_of_int [simp]: "b \<le> 64 \<Longrightarrow> rep b (word_of_int n) n"
  by (simp add: rep_def take_bit_take_bit)

lemma rep_trunc: "b \<le> cbits cl \<Longrightarrow> rep b (trunc cl v) n \<longleftrightarrow> rep b v n"
  using cbits_le(1)[of cl] by (simp add: rep_def trunc_def unsigned_take_bit_eq take_bit_take_bit)

lemma rep_arith:
  assumes "b \<le> 64" and "rep b x m" and "rep b y n"
  shows "rep b (x + y) (m + n)" and "rep b (x - y) (m - n)" and "rep b (x * y) (m * n)"
proof -
  have w: "x + y = word_of_int (uint x + uint y)" "x - y = word_of_int (uint x - uint y)" "x * y = word_of_int (uint x * uint y)"
    by simp_all
  have e: "take_bit b (uint x) = take_bit b m" "take_bit b (uint y) = take_bit b n" using assms by (simp_all add: rep_def)
  show "rep b (x + y) (m + n)" unfolding w
    by (rule rep_cong[OF rep_word_of_int[OF assms(1)]]) (metis e take_bit_add)
  show "rep b (x - y) (m - n)" unfolding w
    by (rule rep_cong[OF rep_word_of_int[OF assms(1)]]) (metis e take_bit_diff)
  show "rep b (x * y) (m * n)" unfolding w
    by (rule rep_cong[OF rep_word_of_int[OF assms(1)]]) (metis e take_bit_mult)
qed

lemma rep_push: "b \<le> 64 \<Longrightarrow> rep b x n \<Longrightarrow> rep b (push_bit k x) (n * 2 ^ k)"
proof -
  assume b: "b \<le> 64" "rep b x n"
  have p: "push_bit k x = x * word_of_int (2 ^ k)" by (simp add: push_bit_eq_mult)
  show ?thesis unfolding p by (rule rep_arith(3)[OF b rep_word_of_int[OF b(1)]])
qed

lemma rep_uval: "rep (cbits cl) v n \<Longrightarrow> 0 \<le> n \<Longrightarrow> n < 2 ^ cbits cl \<Longrightarrow> uval cl v = n"
  by (simp add: rep_def uval_def take_bit_int_eq_self)

lemma rep_signed: "rep (Suc b) v n \<Longrightarrow> - (2 ^ b) \<le> n \<Longrightarrow> n < 2 ^ b \<Longrightarrow> signed_take_bit b (uint v) = n"
  by (metis rep_def signed_take_bit_int_eq_self signed_take_bit_take_bit min.idem signed_take_bit_eq_iff_take_bit_eq)

lemma rep_sval: "rep (cbits cl) v n \<Longrightarrow> - (2 ^ (cbits cl - 1)) \<le> n \<Longrightarrow> n < 2 ^ (cbits cl - 1) \<Longrightarrow> sval cl v = n"
  using rep_signed[of "cbits cl - 1" v n] by (simp add: sval_def)

lemma sint_sval: "sint v = sval Gpr64 v"
  by (simp add: sval_def sint_uint)

lemma uint_uval: "uint v = uval Gpr64 v"
  using uint_bounded[of v] by (simp add: uval_def take_bit_int_eq_self)

section \<open>Instructions\<close>

lemma unat_imm: "0 \<le> k \<Longrightarrow> k < 64 \<Longrightarrow> unat (word_of_int k :: u64) = nat k"
  by (simp add: unat_eq_nat_uint take_bit_int_eq_self)

lemma rep_alu:
  assumes "b \<le> cbits cl" and "rep b x m" and "rep b y n"
  shows "rep b (alu AddRR cl old [x, y]) (m + n)" and "rep b (alu SubRR cl old [x, y]) (m - n)"
    and "rep b (alu MulRR cl old [x, y]) (m * n)" and "rep b (alu AddRI cl old [x, y]) (m + n)"
    and "rep b (alu SubRI cl old [x, y]) (m - n)" and "rep b (alu AddRIShift12 cl old [x, y]) (m + n * 2 ^ 12)"
    and "\<lbrakk>0 \<le> k; k < 64\<rbrakk> \<Longrightarrow> rep b (alu AddRRShift cl old [x, y, word_of_int k]) (m + n * 2 ^ nat k)"
    and "\<lbrakk>0 \<le> k; k < 64\<rbrakk> \<Longrightarrow> rep b (alu SubRRShift cl old [x, y, word_of_int k]) (m - n * 2 ^ nat k)"
    and "rep b z l \<Longrightarrow> rep b (alu Msub cl old [x, y, z]) (l - m * n)"
    and "rep b (alu MovR cl old [x]) m"
proof -
  have b: "b \<le> 64" using assms(1) cbits_le(1)[of cl] by (rule order.trans)
  show "rep b (alu AddRR cl old [x, y]) (m + n)" "rep b (alu SubRR cl old [x, y]) (m - n)"
    "rep b (alu MulRR cl old [x, y]) (m * n)" "rep b (alu AddRI cl old [x, y]) (m + n)"
    "rep b (alu SubRI cl old [x, y]) (m - n)" "rep b (alu MovR cl old [x]) m"
    using rep_arith[OF b assms(2,3)] assms by (simp_all add: rep_trunc)
  show "rep b (alu AddRIShift12 cl old [x, y]) (m + n * 2 ^ 12)"
    using rep_arith(1)[OF b assms(2) rep_push[OF b assms(3), of 12]] assms(1) by (simp add: rep_trunc)
  show "rep b (alu AddRRShift cl old [x, y, word_of_int k]) (m + n * 2 ^ nat k)"
    "rep b (alu SubRRShift cl old [x, y, word_of_int k]) (m - n * 2 ^ nat k)" if "0 \<le> k" "k < 64"
    using rep_arith(1,2)[OF b assms(2) rep_push[OF b assms(3), of "nat k"]] assms(1) that by (simp_all add: rep_trunc unat_imm)
  show "rep b (alu Msub cl old [x, y, z]) (l - m * n)" if "rep b z l"
    using rep_arith(2)[OF b that rep_arith(3)[OF b assms(2,3)]] assms(1) by (simp add: rep_trunc)
qed

lemma uint_trunc: "uint (trunc cl v) = uval cl v"
  by (simp add: trunc_def uval_def unsigned_take_bit_eq)

lemma uint_drop: "uint (drop_bit k v :: u64) = uint v div 2 ^ k"
proof -
  have "uint (drop_bit k v) = drop_bit k (uint v)" by (rule bit_eqI) (simp add: bit_simps)
  then show ?thesis by (simp add: drop_bit_eq_div[of k "uint v"] del: drop_bit_eq_div)
qed

lemma lsr_uint:
  assumes "rep (cbits cl) x n" and "0 \<le> n" and "n < 2 ^ cbits cl" and "0 \<le> k" and "k < 64"
  shows "uint (alu LsrRI cl old [x, word_of_int k]) = n div 2 ^ nat k"
  using rep_uval[OF assms(1-3)] unat_imm[OF assms(4,5)] by (simp add: uint_drop uint_trunc)

lemma rep_lsr:
  assumes "rep (cbits cl) x n" and "0 \<le> n" and "n < 2 ^ cbits cl" and "0 \<le> k" and "k < 64"
  shows "rep b (alu LsrRI cl old [x, word_of_int k]) (n div 2 ^ nat k)"
  using lsr_uint[OF assms] by (rule rep_uint)

lemma rep_asr:
  assumes "rep (cbits cl) x n" and "- (2 ^ (cbits cl - 1)) \<le> n" and "n < 2 ^ (cbits cl - 1)" and "0 \<le> k" and "k < 64"
  shows "rep (cbits cl) (alu AsrRI cl old [x, word_of_int k]) (n div 2 ^ nat k)"
  using rep_sval[OF assms(1-3)] assms(4,5) by (simp add: rep_trunc unat_imm)

lemma rep_unsigned_ops:
  assumes "0 \<le> m" and "0 \<le> n"
  shows "\<lbrakk>rep 32 x m; rep 32 y n; m < 2 ^ 32; n < 2 ^ 32\<rbrakk> \<Longrightarrow> rep 64 (alu Umull cl old [x, y]) (m * n)"
    and "\<lbrakk>rep 64 x m; rep 64 y n; m < 2 ^ 64; n < 2 ^ 64\<rbrakk> \<Longrightarrow> rep 64 (alu Umulh cl old [x, y]) (m * n div 2 ^ 64)"
    and "\<lbrakk>rep 32 x m; m < 2 ^ 32\<rbrakk> \<Longrightarrow> rep 64 (alu Uxtw cl old [x]) m"
    and "\<lbrakk>rep (cbits cl) x m; rep (cbits cl) y n; m < 2 ^ cbits cl; n < 2 ^ cbits cl\<rbrakk> \<Longrightarrow>
      rep (cbits cl) (alu UDiv cl old [x, y]) (m div n)"
  using assms rep_uval[of Gpr32 x m] rep_uval[of Gpr32 y n] rep_uval[of Gpr64 x m] rep_uval[of Gpr64 y n]
    rep_uval[of cl x m] rep_uval[of cl y n]
  by (simp_all add: uint_uval del: of_int_mult)
    (metis rep_uint uint_trunc cbits.simps(1) trunc_def)

lemma rep_signed_ops:
  "\<lbrakk>rep 32 x m; rep 32 y n; - (2 ^ 31) \<le> m; m < 2 ^ 31; - (2 ^ 31) \<le> n; n < 2 ^ 31\<rbrakk> \<Longrightarrow> rep 64 (alu Smull cl old [x, y]) (m * n)"
  "\<lbrakk>rep 64 x m; rep 64 y n; - (2 ^ 63) \<le> m; m < 2 ^ 63; - (2 ^ 63) \<le> n; n < 2 ^ 63\<rbrakk> \<Longrightarrow>
    rep 64 (alu Smulh cl old [x, y]) (m * n div 2 ^ 64)"
  "\<lbrakk>rep 32 x m; - (2 ^ 31) \<le> m; m < 2 ^ 31\<rbrakk> \<Longrightarrow> rep 64 (alu Sxtw cl old [x]) m"
  "\<lbrakk>rep (cbits cl) x m; rep (cbits cl) y n; - (2 ^ (cbits cl - 1)) \<le> m; m < 2 ^ (cbits cl - 1);
    - (2 ^ (cbits cl - 1)) \<le> n; n < 2 ^ (cbits cl - 1)\<rbrakk> \<Longrightarrow> rep (cbits cl) (alu SDiv cl old [x, y]) (m sdiv n)"
  using rep_sval[of Gpr32 x m] rep_sval[of Gpr32 y n] rep_sval[of Gpr64 x m] rep_sval[of Gpr64 y n]
    rep_sval[of cl x m] rep_sval[of cl y n]
  by (simp_all add: sint_sval rep_trunc del: of_int_mult)

lemma rep_extend:
  "rep 8 x m \<Longrightarrow> - (2 ^ 7) \<le> m \<Longrightarrow> m < 2 ^ 7 \<Longrightarrow> rep (cbits cl) (alu Sxtb cl old [x]) m"
  "rep 16 x m \<Longrightarrow> - (2 ^ 15) \<le> m \<Longrightarrow> m < 2 ^ 15 \<Longrightarrow> rep (cbits cl) (alu Sxth cl old [x]) m"
  "rep 8 x m \<Longrightarrow> 0 \<le> m \<Longrightarrow> m < 2 ^ 8 \<Longrightarrow> rep b (alu Uxtb cl old [x]) m"
  "rep 16 x m \<Longrightarrow> 0 \<le> m \<Longrightarrow> m < 2 ^ 16 \<Longrightarrow> rep b (alu Uxth cl old [x]) m"
  using rep_signed[of 7 x m] rep_signed[of 15 x m]
  by (simp_all add: rep_trunc) (simp_all add: rep_def unsigned_take_bit_eq take_bit_int_eq_self)

section \<open>Emission\<close>

definition operand_ok :: "selector \<Rightarrow> isel_operand \<Rightarrow> bool" where
  "operand_ok st p = (case p of VReg v \<Rightarrow> v_id v < next_vreg st | PReg _ \<Rightarrow> True | Imm _ \<Rightarrow> False)"

definition arg :: "selector \<Rightarrow> regs \<Rightarrow> nat \<Rightarrow> isel_operand \<Rightarrow> int \<Rightarrow> bool" where
  "arg st r b p n \<longleftrightarrow> operand_ok st p \<and> rep b (opval (regs_of st r) p) n"

definition keeps :: "selector \<Rightarrow> selector \<Rightarrow> regs \<Rightarrow> bool" where
  "keeps st st' r \<longleftrightarrow> next_vreg st \<le> next_vreg st' \<and> frame st' = frame st \<and> (enc_ok st \<longrightarrow> enc_ok st')
     \<and> (\<forall>i < next_vreg st. regs_of st' r i = regs_of st r i)"

definition yields :: "selector \<Rightarrow> regs \<Rightarrow> nat \<Rightarrow> reg_class \<Rightarrow> int \<Rightarrow> vreg \<times> selector \<Rightarrow> bool" where
  "yields st r b cl n p = (case p of (d, st') \<Rightarrow> keeps st st' r \<and> v_class d = cl \<and> arg st' r b (VReg d) n)"

lemma keeps_refl [simp]: "keeps st st r"
  by (simp add: keeps_def)

lemma keeps_trans: "keeps st s r \<Longrightarrow> keeps s t r \<Longrightarrow> keeps st t r"
  by (auto simp: keeps_def)

lemma arg_keeps: "keeps st s r \<Longrightarrow> arg st r b p n \<Longrightarrow> arg s r b p n"
  by (cases p) (auto simp: keeps_def arg_def operand_ok_def)

lemma arg_mono: "arg st r b p n \<Longrightarrow> a \<le> b \<Longrightarrow> arg st r a p n"
  by (auto simp: arg_def intro: rep_mono)

lemma arg_eqI: "arg st r b p m \<Longrightarrow> take_bit b m = take_bit b n \<Longrightarrow> arg st r b p n"
  by (auto simp: arg_def intro: rep_cong)

lemma arg_zero: "arg st r b (PReg p) 0"
  by (simp add: arg_def operand_ok_def rep_def)

lemma yields_ret: "arg st r b (VReg d) n \<Longrightarrow> v_class d = cl \<Longrightarrow> yields st r b cl n (d, st)"
  by (simp add: yields_def)

lemma yields_bind:
  assumes "yields st r b cl n p"
    and "\<And>d s. \<lbrakk>keeps st s r; v_class d = cl; arg s r b (VReg d) n\<rbrakk> \<Longrightarrow> yields s r b' cl' n' (f d s)"
  shows "yields st r b' cl' n' (case p of (d, s) \<Rightarrow> f d s)"
proof -
  obtain d s where p: "p = (d, s)" by (cases p)
  obtain e t where f: "f d s = (e, t)" by (cases "f d s")
  from assms(1) have s: "keeps st s r" "v_class d = cl" "arg s r b (VReg d) n" by (simp_all add: yields_def p)
  from assms(2)[OF s] s(1) show ?thesis by (auto simp: yields_def p f intro: keeps_trans)
qed

lemma yields_cong: "yields st r b cl m p \<Longrightarrow> m = n \<Longrightarrow> yields st r b cl n p"
  by simp

lemma yields_mono: "yields st r b cl n p \<Longrightarrow> a \<le> b \<Longrightarrow> yields st r a cl n p"
  by (auto simp: yields_def split: prod.splits intro: arg_mono)

text \<open>The same, whatever the class of the register.\<close>

definition gives :: "selector \<Rightarrow> regs \<Rightarrow> nat \<Rightarrow> int \<Rightarrow> vreg \<times> selector \<Rightarrow> bool" where
  "gives st r b n p = (case p of (d, st') \<Rightarrow> keeps st st' r \<and> arg st' r b (VReg d) n)"

lemma yields_gives: "yields st r b cl n p \<Longrightarrow> gives st r b n p"
  by (auto simp: yields_def gives_def)

lemma gives_ret: "arg st r b (VReg d) n \<Longrightarrow> gives st r b n (d, st)"
  by (simp add: gives_def)

lemma gives_mono: "gives st r b n p \<Longrightarrow> a \<le> b \<Longrightarrow> gives st r a n p"
  by (auto simp: gives_def split: prod.splits intro: arg_mono)

lemma gives_bind:
  assumes "gives st r b n p"
  shows "(\<And>d s. \<lbrakk>keeps st s r; arg s r b (VReg d) n\<rbrakk> \<Longrightarrow> gives s r b' n' (f d s)) \<Longrightarrow>
      gives st r b' n' (case p of (d, s) \<Rightarrow> f d s)"
    and "(\<And>d s. \<lbrakk>keeps st s r; arg s r b (VReg d) n\<rbrakk> \<Longrightarrow> yields s r b' cl' n' (f d s)) \<Longrightarrow>
      yields st r b' cl' n' (case p of (d, s) \<Rightarrow> f d s)"
proof -
  obtain d s where p: "p = (d, s)" by (cases p)
  obtain e t where f: "f d s = (e, t)" by (cases "f d s")
  from assms have s: "keeps st s r" "arg s r b (VReg d) n" by (simp_all add: gives_def p)
  show "gives st r b' n' (case p of (d, s) \<Rightarrow> f d s)"
    if "\<And>d s. \<lbrakk>keeps st s r; arg s r b (VReg d) n\<rbrakk> \<Longrightarrow> gives s r b' n' (f d s)"
    using that[OF s] s(1) by (auto simp: gives_def p f intro: keeps_trans)
  show "yields st r b' cl' n' (case p of (d, s) \<Rightarrow> f d s)"
    if "\<And>d s. \<lbrakk>keeps st s r; arg s r b (VReg d) n\<rbrakk> \<Longrightarrow> yields s r b' cl' n' (f d s)"
    using that[OF s] s(1) by (auto simp: yields_def p f intro: keeps_trans)
qed

text \<open>One instruction into a fresh register.\<close>

lemma yields_emit:
  assumes "\<And>p. p \<in> set ops \<Longrightarrow> operand_ok st p \<or> (\<exists>k. p = Imm k)" and "imm_ok op (cbits cl) (imms ops)"
    and "\<And>old. rep b (alu op cl old (map (opval (regs_of st r)) ops)) n"
  shows "yields st r b cl n (case new_vreg cl st of (d, s) \<Rightarrow> (d, emit op (VReg d # ops) s))"
  using assms by (simp add: yields_def keeps_def arg_def new_vreg_def operand_ok_def emission enc_ok_emit encodable_def)

section \<open>The emission helpers\<close>

lemma yields_rr:
  assumes "operand_ok st x" and "operand_ok st y" and "imm_ok op (cbits cl) []"
    and "\<And>old. rep b (alu op cl old [opval (regs_of st r) x, opval (regs_of st r) y]) n"
  shows "yields st r b cl n (magic_rr op cl x y st)"
proof -
  have "imms [x, y] = []" using assms(1,2) by (auto simp: imms_def operand_ok_def split: isel_operand.splits)
  then show ?thesis unfolding magic_rr_def Let_def using assms by (intro yields_emit) auto
qed

lemma yields_arith:
  assumes "arg st r b x m" and "arg st r b y n" and "b \<le> cbits cl"
  shows "yields st r b cl (m + n) (magic_rr AddRR cl x y st)" and "yields st r b cl (m - n) (magic_rr SubRR cl x y st)"
    and "yields st r b cl (m * n) (magic_rr MulRR cl x y st)"
  using assms rep_alu(1-3)[OF assms(3)] by (auto simp: arg_def intro!: yields_rr)

lemma yields_umull_rr:
  "\<lbrakk>arg st r 32 x m; arg st r 32 y n; 0 \<le> m; m < 2 ^ 32; 0 \<le> n; n < 2 ^ 32\<rbrakk> \<Longrightarrow> yields st r 64 Gpr64 (m * n) (magic_rr64 Umull x y st)"
  unfolding magic_rr64_def arg_def using rep_unsigned_ops(1)[of m n] by (intro yields_rr) (auto simp del: alu.simps)

lemma yields_umulh:
  "\<lbrakk>arg st r 64 x m; arg st r 64 y n; 0 \<le> m; m < 2 ^ 64; 0 \<le> n; n < 2 ^ 64\<rbrakk> \<Longrightarrow>
    yields st r 64 Gpr64 (m * n div 2 ^ 64) (magic_rr64 Umulh x y st)"
  unfolding magic_rr64_def arg_def using rep_unsigned_ops(2)[of m n] by (intro yields_rr) (auto simp del: alu.simps)

lemma yields_smull_rr:
  "\<lbrakk>arg st r 32 x m; arg st r 32 y n; - (2 ^ 31) \<le> m; m < 2 ^ 31; - (2 ^ 31) \<le> n; n < 2 ^ 31\<rbrakk> \<Longrightarrow>
    yields st r 64 Gpr64 (m * n) (magic_rr64 Smull x y st)"
  unfolding magic_rr64_def arg_def using rep_signed_ops(1) by (intro yields_rr) (auto simp del: alu.simps)

lemma yields_smulh:
  "\<lbrakk>arg st r 64 x m; arg st r 64 y n; - (2 ^ 63) \<le> m; m < 2 ^ 63; - (2 ^ 63) \<le> n; n < 2 ^ 63\<rbrakk> \<Longrightarrow>
    yields st r 64 Gpr64 (m * n div 2 ^ 64) (magic_rr64 Smulh x y st)"
  unfolding magic_rr64_def arg_def using rep_signed_ops(2) by (intro yields_rr) (auto simp del: alu.simps)

lemma yields_shift:
  assumes "operand_ok st x" and "op = LsrRI \<or> op = AsrRI" and "0 \<le> k" and "k < int (cbits cl)"
    and "\<And>old. rep b (alu op cl old [opval (regs_of st r) x, word_of_int k]) n"
  shows "yields st r b cl n (magic_shift_imm op cl x k st)"
proof -
  have "imms [x, Imm k] = [k]" using assms(1) by (auto simp: imms_def operand_ok_def split: isel_operand.splits)
  then show ?thesis unfolding magic_shift_imm_def Let_def using assms by (intro yields_emit) auto
qed

lemma yields_lsr:
  assumes "arg st r (cbits cl) x n" and "0 \<le> n" and "n < 2 ^ cbits cl" and "0 \<le> k" and "k < int (cbits cl)"
  shows "yields st r b cl (n div 2 ^ nat k) (magic_shift_imm LsrRI cl x k st)"
proof (rule yields_shift)
  have "k < 64" using assms(5) cbits_le(1)[of cl] by linarith
  then show "rep b (alu LsrRI cl old [opval (regs_of st r) x, word_of_int k]) (n div 2 ^ nat k)" for old
    using assms by (intro rep_lsr) (auto simp: arg_def)
qed (use assms in \<open>auto simp: arg_def\<close>)

lemma yields_asr:
  assumes "arg st r (cbits cl) x n" and "- (2 ^ (cbits cl - 1)) \<le> n" and "n < 2 ^ (cbits cl - 1)" and "0 \<le> k"
    and "k < int (cbits cl)"
  shows "yields st r (cbits cl) cl (n div 2 ^ nat k) (magic_shift_imm AsrRI cl x k st)"
proof (rule yields_shift)
  have "k < 64" using assms(5) cbits_le(1)[of cl] by linarith
  then show "rep (cbits cl) (alu AsrRI cl old [opval (regs_of st r) x, word_of_int k]) (n div 2 ^ nat k)" for old
    using assms by (intro rep_asr) (auto simp: arg_def)
qed (use assms in \<open>auto simp: arg_def\<close>)

lemma yields_iconst:
  assumes "ty \<noteq> B1"
  shows "yields st r (cbits (reg_class_for_type ty)) (reg_class_for_type ty) imm
    (case new_vreg (reg_class_for_type ty) st of (d, s) \<Rightarrow> (d, emit_iconst_materialization d ty imm s))"
  using iconst_regs[OF _ assms, of "\<lparr>v_id = next_vreg st, v_class = reg_class_for_type ty\<rparr>" imm]
  by (simp add: yields_def keeps_def arg_def new_vreg_def operand_ok_def rep_trunc)

lemma yields_mat: "ty \<noteq> B1 \<Longrightarrow> yields st r (cbits (reg_class_for_type ty)) (reg_class_for_type ty) imm (magic_mat ty imm st)"
  using yields_iconst unfolding magic_mat_def Let_def .

end
