(* ===== verification/U256.thy ===== *)
theory U256
  imports Prelude
begin

text \<open>
  The 256-bit integers of \<open>trust-cg-lower/src/magic_udiv.rs\<close>: four little-endian
  64-bit limbs, with the carry chains of addition and schoolbook multiplication in
  128-bit words as the source has them, and the comparison from the top limb down. The
  lemmas show that the operations are addition and multiplication modulo \<open>2 ^ 256\<close> and the
  order of the numbers.
\<close>

section \<open>Operations\<close>

record u256 =
  limbs :: "u64 list"

definition from_u128 :: "u128 \<Rightarrow> u256" where
  "from_u128 v = \<lparr>limbs = [ucast v, ucast (drop_bit 64 v), 0, 0]\<rparr>"

definition from_u64 :: "u64 \<Rightarrow> u256" where
  "from_u64 v = \<lparr>limbs = [v, 0, 0, 0]\<rparr>"

text \<open>\<open>one_shl\<close> asserts \<open>shift < 256\<close>; every caller passes at most \<open>127\<close>.\<close>

definition one_shl :: "nat \<Rightarrow> u256" where
  "one_shl shift = \<lparr>limbs = (replicate 4 0)[shift div 64 := push_bit (shift mod 64) 1]\<rparr>"

fun add_limbs :: "u64 list \<Rightarrow> u64 list \<Rightarrow> u128 \<Rightarrow> u64 list" where
  "add_limbs (a # as) (b # bs) carry =
     (let sum = ucast a + ucast b + carry in ucast sum # add_limbs as bs (drop_bit 64 sum))"
| "add_limbs _ _ carry = []"

definition u256_add :: "u256 \<Rightarrow> u256 \<Rightarrow> u256" where
  "u256_add x y = \<lparr>limbs = add_limbs (limbs x) (limbs y) 0\<rparr>"

text \<open>
  The inner loop of the multiplication: limb \<open>a\<close> of the left factor, the limbs of the
  right factor, and the part of the output from the row's first limb on.
\<close>

fun mul_row :: "u64 \<Rightarrow> u64 list \<Rightarrow> u64 list \<Rightarrow> u128 \<Rightarrow> u64 list" where
  "mul_row a (b # bs) (out # os) carry =
     (let prod = ucast a * ucast b;
          sum = ucast out + (prod AND 0xFFFFFFFFFFFFFFFF) + (carry AND 0xFFFFFFFFFFFFFFFF)
      in ucast sum # mul_row a bs os (drop_bit 64 prod + drop_bit 64 carry + drop_bit 64 sum))"
| "mul_row a _ os carry = os"

text \<open>The outer loop: each row leaves its first limb final.\<close>

fun mul_rows :: "u64 list \<Rightarrow> u64 list \<Rightarrow> u64 list \<Rightarrow> u64 list" where
  "mul_rows (a # as) bs os = (case (if a = 0 then os else mul_row a bs os 0) of
       [] \<Rightarrow> []
     | out # os' \<Rightarrow> out # mul_rows as bs os')"
| "mul_rows [] bs os = os"

definition u256_mul :: "u256 \<Rightarrow> u256 \<Rightarrow> u256" where
  "u256_mul x y = \<lparr>limbs = mul_rows (limbs x) (limbs y) (replicate 4 0)\<rparr>"

datatype ordering = Less | Equal | Greater

definition cmp_u64 :: "u64 \<Rightarrow> u64 \<Rightarrow> ordering" where
  "cmp_u64 a b = (if a < b then Less else if a = b then Equal else Greater)"

text \<open>The limbs most significant first.\<close>

fun cmp_limbs :: "u64 list \<Rightarrow> u64 list \<Rightarrow> ordering" where
  "cmp_limbs (a # as) (b # bs) = (case cmp_u64 a b of Equal \<Rightarrow> cmp_limbs as bs | non_eq \<Rightarrow> non_eq)"
| "cmp_limbs _ _ = Equal"

definition u256_cmp :: "u256 \<Rightarrow> u256 \<Rightarrow> ordering" where
  "u256_cmp x y = cmp_limbs (rev (limbs x)) (rev (limbs y))"

definition u256_less :: "u256 \<Rightarrow> u256 \<Rightarrow> bool" where
  "u256_less x y \<longleftrightarrow> u256_cmp x y = Less"

definition u256_le :: "u256 \<Rightarrow> u256 \<Rightarrow> bool" where
  "u256_le x y \<longleftrightarrow> u256_cmp x y \<noteq> Greater"

section \<open>Values\<close>

fun limbs_val :: "u64 list \<Rightarrow> int" where
  "limbs_val [] = 0"
| "limbs_val (l # ls) = uint l + 2 ^ 64 * limbs_val ls"

definition u256_val :: "u256 \<Rightarrow> int" where
  "u256_val x = limbs_val (limbs x)"

definition u256_ok :: "u256 \<Rightarrow> bool" where
  "u256_ok x \<longleftrightarrow> length (limbs x) = 4"

lemma limbs_val_append: "limbs_val (xs @ ys) = limbs_val xs + 2 ^ (64 * length xs) * limbs_val ys"
  by (induction xs) (auto simp: algebra_simps power_add)

lemma limbs_val_bound: "0 \<le> limbs_val ls \<and> limbs_val ls < 2 ^ (64 * length ls)"
proof (induction ls)
  case (Cons l ls)
  have "uint l < 2 ^ 64" using uint_bounded[of l] by simp
  moreover have "2 ^ 64 * (limbs_val ls + 1) \<le> 2 ^ 64 * 2 ^ (64 * length ls)"
    using Cons by (intro mult_left_mono) auto
  ultimately show ?case using Cons by (auto simp: power_add algebra_simps)
qed simp

lemma uint_u128_small: "\<lbrakk>0 \<le> x; x < 2 ^ 128\<rbrakk> \<Longrightarrow> uint (word_of_int x :: u128) = x"
  by (simp add: uint_word_of_int)

lemma uint_ucast_up [simp]: "uint (ucast (a :: u64) :: u128) = uint a"
  using uint_bounded[of a] by (simp add: unsigned_ucast_eq take_bit_int_eq_self)

lemma uint_ucast_down: "uint (ucast (s :: u128) :: u64) = uint s mod 2 ^ 64"
  by (simp add: unsigned_ucast_eq take_bit_eq_mod)

lemma uint_drop_64: "uint (drop_bit 64 (s :: u128)) = uint s div 2 ^ 64"
  by (simp add: drop_bit_eq_div uint_div)

lemma u128_add: "uint x + uint y < 2 ^ 128 \<Longrightarrow> uint (x + y :: u128) = uint x + uint y"
  by (simp add: uint_plus_if_size word_size)

lemma u128_mult: "uint x * uint y < 2 ^ 128 \<Longrightarrow> uint (x * y :: u128) = uint x * uint y"
  by (simp add: uint_word_arith_bintrs take_bit_int_eq_self)

lemma uint_u64_less: "uint (a :: u64) < 2 ^ 64"
  using uint_bounded[of a] by simp

lemma mod_carry: "\<lbrakk>v + B * c = s; 0 \<le> v; v < B\<rbrakk> \<Longrightarrow> v = s mod (B :: int)"
  by (metis mod_mult_self2 mod_pos_pos_trivial)

lemma add_limbs_val:
  "\<lbrakk>length as = length bs; uint c \<le> 1\<rbrakk> \<Longrightarrow> length (add_limbs as bs c) = length as \<and>
     (\<exists>k. limbs_val (add_limbs as bs c) + 2 ^ (64 * length as) * k = limbs_val as + limbs_val bs + uint c)"
proof (induction as bs arbitrary: c rule: list_induct2)
  case Nil
  then show ?case by (auto intro: exI[of _ "uint c"])
next
  case (Cons a as b bs)
  let ?s = "ucast a + ucast b + c :: u128"
  have s: "uint ?s = uint a + uint b + uint c"
    using uint_u64_less[of a] uint_u64_less[of b] Cons.prems by (simp add: u128_add)
  have "uint (drop_bit 64 ?s) \<le> 1"
    using uint_u64_less[of a] uint_u64_less[of b] Cons.prems by (simp add: uint_drop_64 s)
  from Cons.IH[OF this] obtain k where len: "length (add_limbs as bs (drop_bit 64 ?s)) = length as"
    and k: "limbs_val (add_limbs as bs (drop_bit 64 ?s)) + 2 ^ (64 * length as) * k
      = limbs_val as + limbs_val bs + uint ?s div 2 ^ 64" by (auto simp: uint_drop_64)
  have "limbs_val (add_limbs (a # as) (b # bs) c) + 2 ^ (64 * length (a # as)) * k
      = uint ?s mod 2 ^ 64 + 2 ^ 64 * (limbs_val (add_limbs as bs (drop_bit 64 ?s)) + 2 ^ (64 * length as) * k)"
    by (simp add: Let_def uint_ucast_down power_add algebra_simps)
  also have "\<dots> = uint ?s + 2 ^ 64 * (limbs_val as + limbs_val bs)"
    unfolding k using mod_mult_div_eq[of "uint ?s" "2 ^ 64"] by (simp add: algebra_simps)
  also have "\<dots> = limbs_val (a # as) + limbs_val (b # bs) + uint c" unfolding s by (simp add: algebra_simps)
  finally show ?case using len by (auto simp only: add_limbs.simps Let_def list.size)
qed

lemma and_low64: "uint (x AND 0xFFFFFFFFFFFFFFFF :: u128) = uint x mod 2 ^ 64"
proof -
  have "x AND 0xFFFFFFFFFFFFFFFF = take_bit 64 x" by (simp add: take_bit_eq_mask mask_eq_exp_minus_1)
  then show ?thesis by (simp only: unsigned_take_bit_eq) (simp add: take_bit_eq_mod)
qed

text \<open>One step of a row: the new limb and carry hold the sum of the old limb, the product and the carry.\<close>

lemma mul_step:
  fixes a b out :: u64 and carry pr sm carry' :: u128
  assumes "uint carry < 2 ^ 65"
  defines "pr \<equiv> ucast a * ucast b"
  defines "sm \<equiv> ucast out + (pr AND 0xFFFFFFFFFFFFFFFF) + (carry AND 0xFFFFFFFFFFFFFFFF)"
  defines "carry' \<equiv> drop_bit 64 pr + drop_bit 64 carry + drop_bit 64 sm"
  shows "uint (ucast sm :: u64) + 2 ^ 64 * uint carry' = uint out + uint a * uint b + uint carry"
    and "uint carry' < 2 ^ 65"
proof -
  have "uint a * uint b \<le> (2 ^ 64 - 1) * (2 ^ 64 - 1)"
    using uint_u64_less[of a] uint_u64_less[of b] by (intro mult_mono) auto
  then have pr: "uint pr = uint a * uint b" and pb: "uint pr \<le> (2 ^ 64 - 1) * (2 ^ 64 - 1)"
    unfolding pr_def by (simp_all add: u128_mult)
  have sm: "uint sm = uint out + uint pr mod 2 ^ 64 + uint carry mod 2 ^ 64"
    using uint_u64_less[of out] unfolding sm_def by (simp add: u128_add and_low64)
  have hi: "uint pr div 2 ^ 64 \<le> 2 ^ 64 - 2" "uint carry div 2 ^ 64 \<le> 1" "uint sm div 2 ^ 64 \<le> 2"
    using pb assms(1) uint_u64_less[of out] unfolding sm by auto
  have carry: "uint carry' = uint pr div 2 ^ 64 + uint carry div 2 ^ 64 + uint sm div 2 ^ 64"
    using hi unfolding carry'_def by (simp add: u128_add uint_drop_64)
  then show "uint carry' < 2 ^ 65" using hi by simp
  have "uint (ucast sm :: u64) + 2 ^ 64 * uint carry' =
      (uint sm mod 2 ^ 64 + 2 ^ 64 * (uint sm div 2 ^ 64)) + 2 ^ 64 * (uint pr div 2 ^ 64) + 2 ^ 64 * (uint carry div 2 ^ 64)"
    unfolding carry uint_ucast_down by (simp add: algebra_simps)
  also have "\<dots> = uint out + (uint pr mod 2 ^ 64 + 2 ^ 64 * (uint pr div 2 ^ 64))
      + (uint carry mod 2 ^ 64 + 2 ^ 64 * (uint carry div 2 ^ 64))"
    unfolding mod_mult_div_eq[of "uint sm"] sm by (simp add: algebra_simps)
  finally show "uint (ucast sm :: u64) + 2 ^ 64 * uint carry' = uint out + uint a * uint b + uint carry"
    unfolding mod_mult_div_eq pr .
qed

lemma mul_row_val:
  "\<lbrakk>length os \<le> length bs; uint carry < 2 ^ 65\<rbrakk> \<Longrightarrow> length (mul_row a bs os carry) = length os \<and>
     (\<exists>k. limbs_val (mul_row a bs os carry) + 2 ^ (64 * length os) * k =
        limbs_val os + uint a * limbs_val bs + uint carry)"
proof (induction a bs os carry rule: mul_row.induct[case_names row nil stop])
  case (row a b bs out os carry)
  define prd :: u128 where "prd = ucast a * ucast b"
  define sm where "sm = ucast out + (prd AND 0xFFFFFFFFFFFFFFFF) + (carry AND 0xFFFFFFFFFFFFFFFF)"
  define c where "c = drop_bit 64 prd + drop_bit 64 carry + drop_bit 64 sm"
  have step: "uint (ucast sm :: u64) + 2 ^ 64 * uint c = uint out + uint a * uint b + uint carry" "uint c < 2 ^ 65"
    using mul_step[OF row.prems(2), where a = a and b = b and out = out] by (simp_all only: prd_def sm_def c_def)
  have rw: "mul_row a (b # bs) (out # os) carry = ucast sm # mul_row a bs os c"
    by (simp add: Let_def prd_def sm_def c_def)
  from row.IH[OF prd_def sm_def, folded c_def, OF _ step(2)] row.prems(1) obtain k
    where len: "length (mul_row a bs os c) = length os"
    and k: "limbs_val (mul_row a bs os c) + 2 ^ (64 * length os) * k = limbs_val os + uint a * limbs_val bs + uint c"
    by auto
  have "limbs_val (mul_row a (b # bs) (out # os) carry) + 2 ^ (64 * length (out # os)) * k =
      uint (ucast sm :: u64) + 2 ^ 64 * (limbs_val (mul_row a bs os c) + 2 ^ (64 * length os) * k)"
    unfolding rw by (simp add: power_add algebra_simps)
  also have "\<dots> = (uint (ucast sm :: u64) + 2 ^ 64 * uint c) + 2 ^ 64 * (limbs_val os + uint a * limbs_val bs)"
    unfolding k by (simp add: algebra_simps)
  also have "\<dots> = limbs_val (out # os) + uint a * limbs_val (b # bs) + uint carry"
    unfolding step(1) by (simp add: algebra_simps)
  finally show ?case using len by (auto simp only: rw list.size)
next
  case (nil a os carry)
  then show ?case by (auto intro: exI[of _ "uint carry"])
next
  case (stop a bs carry)
  then show ?case by (auto intro: exI[of _ "uint a * limbs_val bs + uint carry"])
qed

lemma mul_rows_val:
  "\<lbrakk>length as = length os; length os \<le> length bs\<rbrakk> \<Longrightarrow> length (mul_rows as bs os) = length os \<and>
     (\<exists>k. limbs_val (mul_rows as bs os) + 2 ^ (64 * length os) * k = limbs_val os + limbs_val as * limbs_val bs)"
proof (induction as arbitrary: os)
  case (Cons a as)
  define os' where "os' = (if a = 0 then os else mul_row a bs os 0)"
  have "length os' = length os \<and> (\<exists>k. limbs_val os' + 2 ^ (64 * length os) * k = limbs_val os + uint a * limbs_val bs)"
    using mul_row_val[of os bs 0 a] Cons.prems by (auto simp: os'_def intro: exI[of _ 0])
  then obtain k where len: "length os' = length os"
    and k: "limbs_val os' + 2 ^ (64 * length os) * k = limbs_val os + uint a * limbs_val bs" by blast
  from len Cons.prems obtain out rest where r: "os' = out # rest" "length rest = length as" by (cases os') auto
  have "length rest \<le> length bs" using Cons.prems r by simp
  from Cons.IH[OF r(2)[symmetric] this] obtain j where lenr: "length (mul_rows as bs rest) = length rest"
    and j: "limbs_val (mul_rows as bs rest) + 2 ^ (64 * length rest) * j = limbs_val rest + limbs_val as * limbs_val bs"
    by blast
  have m: "mul_rows (a # as) bs os = out # mul_rows as bs rest"
    using r(1) unfolding os'_def by simp
  have "limbs_val (mul_rows (a # as) bs os) + 2 ^ (64 * length os) * (j + k) =
      uint out + 2 ^ 64 * (limbs_val (mul_rows as bs rest) + 2 ^ (64 * length rest) * j) + 2 ^ (64 * length os) * k"
    using r(2) Cons.prems(1) by (simp add: m power_add algebra_simps del: mul_rows.simps flip: Cons.prems(1))
  also have "\<dots> = limbs_val os' + 2 ^ (64 * length os) * k + 2 ^ 64 * (limbs_val as * limbs_val bs)"
    unfolding j r(1) by (simp add: algebra_simps)
  also have "\<dots> = limbs_val os + limbs_val (a # as) * limbs_val bs" unfolding k by (simp add: algebra_simps)
  finally show ?case using lenr r(2) Cons.prems(1) by (auto simp: m simp del: mul_rows.simps)
qed (auto intro: exI[of _ 0])

lemma top_limb_less:
  assumes "(x :: int) < y" and "0 \<le> a" "a < P" and "0 \<le> b"
  shows "a + P * x < b + P * y"
proof -
  have "P * (x + 1) \<le> P * y" using assms by (intro mult_left_mono) auto
  with assms show ?thesis by (simp add: algebra_simps)
qed

lemma cmp_limbs_val:
  "length xs = length ys \<Longrightarrow> cmp_limbs xs ys = (if limbs_val (rev xs) < limbs_val (rev ys) then Less
     else if limbs_val (rev xs) = limbs_val (rev ys) then Equal else Greater)"
proof (induction xs ys rule: list_induct2)
  case (Cons x xs y ys)
  let ?P = "2 ^ (64 * length ys) :: int" and ?a = "limbs_val (rev xs)" and ?b = "limbs_val (rev ys)"
  have b: "0 \<le> ?a" "?a < ?P" "0 \<le> ?b" "?b < ?P"
    using limbs_val_bound[of "rev xs"] limbs_val_bound[of "rev ys"] Cons.hyps by auto
  consider "uint x < uint y" | "x = y" | "uint y < uint x" by (metis linorder_less_linear word_uint_eq_iff)
  then show ?case
  proof cases
    case 1
    with top_limb_less[OF 1 b(1,2,3)] Cons.hyps show ?thesis by (simp add: limbs_val_append cmp_u64_def word_less_def)
  next
    case 2
    with Cons show ?thesis by (simp add: limbs_val_append cmp_u64_def)
  next
    case 3
    with top_limb_less[OF 3 b(3,4,1)] Cons.hyps show ?thesis by (auto simp: limbs_val_append cmp_u64_def word_less_def)
  qed
qed simp

section \<open>The operations compute\<close>

lemma u256_bound: "u256_ok x \<Longrightarrow> 0 \<le> u256_val x \<and> u256_val x < 2 ^ 256"
  using limbs_val_bound[of "limbs x"] by (simp add: u256_ok_def u256_val_def)

lemma u256_ok_intros [simp]:
  "u256_ok (from_u128 v)" "u256_ok (from_u64 x)" "u256_ok (one_shl k)"
  by (simp_all add: u256_ok_def from_u128_def from_u64_def one_shl_def)

lemma u256_val_from_u64 [simp]: "u256_val (from_u64 v) = uint v"
  by (simp add: u256_val_def from_u64_def)

lemma u256_val_from_u128 [simp]: "u256_val (from_u128 v) = uint v"
proof -
  have "uint v div 2 ^ 64 < 2 ^ 64" using uint_bounded[of v] by simp
  then have "uint v div 2 ^ 64 mod 2 ^ 64 = uint v div 2 ^ 64" by (intro mod_pos_pos_trivial) (auto simp: pos_imp_zdiv_nonneg_iff)
  then show ?thesis
    using mod_mult_div_eq[of "uint v" "2 ^ 64"] by (simp add: u256_val_def from_u128_def uint_ucast_down uint_drop_64)
qed

lemma u256_val_one_shl: "k < 256 \<Longrightarrow> u256_val (one_shl k) = 2 ^ k"
proof -
  assume k: "k < 256"
  define b :: u64 where "b = push_bit (k mod 64) 1"
  have one: "uint b = 2 ^ (k mod 64)"
    unfolding b_def by (simp only: unsigned_push_bit_eq) (simp add: push_bit_of_1 take_bit_of_exp)
  have e: "2 ^ k = (2 :: int) ^ (64 * (k div 64)) * 2 ^ (k mod 64)"
    by (simp only: power_add[symmetric] mult_div_mod_eq)
  have r: "replicate 4 (0 :: u64) = [0, 0, 0, 0]" by (simp add: numeral_eq_Suc)
  have "k div 64 = 0 \<or> k div 64 = 1 \<or> k div 64 = 2 \<or> k div 64 = 3" using k by linarith
  then show ?thesis
    unfolding e u256_val_def one_shl_def r b_def[symmetric] one[symmetric] by (elim disjE) simp_all
qed

lemma u256_add_val:
  assumes "u256_ok x" and "u256_ok y"
  shows "u256_ok (u256_add x y)" and "u256_val (u256_add x y) = (u256_val x + u256_val y) mod 2 ^ 256"
proof -
  from assms have "length (limbs x) = length (limbs y)" by (simp add: u256_ok_def)
  from add_limbs_val[OF this, of 0] assms obtain k where "length (add_limbs (limbs x) (limbs y) 0) = 4"
    and "limbs_val (add_limbs (limbs x) (limbs y) 0) + 2 ^ 256 * k = limbs_val (limbs x) + limbs_val (limbs y)"
    by (auto simp: u256_ok_def)
  with mod_carry[OF this(2)] limbs_val_bound[of "add_limbs (limbs x) (limbs y) 0"]
  show "u256_ok (u256_add x y)" "u256_val (u256_add x y) = (u256_val x + u256_val y) mod 2 ^ 256"
    by (simp_all add: u256_ok_def u256_val_def u256_add_def)
qed

lemma u256_mul_val:
  assumes "u256_ok x" and "u256_ok y"
  shows "u256_ok (u256_mul x y)" and "u256_val (u256_mul x y) = (u256_val x * u256_val y) mod 2 ^ 256"
proof -
  from assms have l: "length (limbs x) = length (replicate 4 (0 :: u64))" "length (replicate 4 (0 :: u64)) \<le> length (limbs y)"
    by (simp_all add: u256_ok_def)
  have z: "limbs_val (replicate 4 0) = 0" by (simp add: numeral_eq_Suc)
  from mul_rows_val[OF l] obtain k where "length (mul_rows (limbs x) (limbs y) (replicate 4 0)) = 4"
    and "limbs_val (mul_rows (limbs x) (limbs y) (replicate 4 0)) + 2 ^ 256 * k = limbs_val (limbs x) * limbs_val (limbs y)"
    unfolding z by auto
  with mod_carry[OF this(2)] limbs_val_bound[of "mul_rows (limbs x) (limbs y) (replicate 4 0)"]
  show "u256_ok (u256_mul x y)" "u256_val (u256_mul x y) = (u256_val x * u256_val y) mod 2 ^ 256"
    by (simp_all add: u256_ok_def u256_val_def u256_mul_def)
qed

lemma u256_cmp_val:
  assumes "u256_ok x" and "u256_ok y"
  shows "u256_less x y \<longleftrightarrow> u256_val x < u256_val y" and "u256_le x y \<longleftrightarrow> u256_val x \<le> u256_val y"
  using cmp_limbs_val[of "rev (limbs x)" "rev (limbs y)"] assms
  by (auto simp: u256_less_def u256_le_def u256_cmp_def u256_ok_def u256_val_def)

text \<open>C25. The limb operations on well-formed values compute modulo \<open>2 ^ 256\<close> and keep values
  well-formed, and the limb-wise comparison orders the numbers.\<close>

theorem u256_arithmetic:
  assumes "u256_ok x" and "u256_ok y"
  shows "u256_ok (u256_add x y) \<and> u256_val (u256_add x y) = (u256_val x + u256_val y) mod 2 ^ 256
    \<and> u256_ok (u256_mul x y) \<and> u256_val (u256_mul x y) = (u256_val x * u256_val y) mod 2 ^ 256
    \<and> (u256_less x y \<longleftrightarrow> u256_val x < u256_val y) \<and> (u256_le x y \<longleftrightarrow> u256_val x \<le> u256_val y)"
  using u256_add_val[OF assms] u256_mul_val[OF assms] u256_cmp_val[OF assms] by simp

theorem u256_arithmetic_witness:
  "u256_val (u256_mul (one_shl 255) (from_u64 3)) = 2 ^ 255
   \<and> u256_val (u256_add (one_shl 127) (from_u128 5)) = 2 ^ 127 + 5"
  using u256_arithmetic[of "one_shl 255" "from_u64 3"] u256_arithmetic[of "one_shl 127" "from_u128 5"]
  by (simp add: u256_val_one_shl)

end
