(* ===== verification/Magic_Div.thy ===== *)
theory Magic_Div
  imports U256
begin

text \<open>
  Division by a constant through a reciprocal multiplication,
  \<open>trust-cg-lower/src/magic_udiv.rs\<close>: the computation of the unsigned and signed magic
  numbers and the two band checks. The module cites one theorem (Granlund and Montgomery;
  Hacker's Delight, chapter 10) as its only unproved premise; the lemmas here
  prove it, in the sharp form the band checks use, and prove that the magic numbers the two
  loops compute pass the checks.

  \<open>u128\<close> and \<open>i128\<close> values are \<open>int\<close>: the loops stop after at most \<open>2 * w + 5\<close>
  doublings of quotients below \<open>2 ^ w\<close>, and the products of the band checks, which do need
  more than 128 bits, are the 256-bit integers of the source.
\<close>

section \<open>Magic numbers\<close>

record magic_u =
  mu_magic :: u64
  mu_shift :: nat
  mu_add :: bool

datatype magic_width = W32 | W64

fun width_bits :: "magic_width \<Rightarrow> nat" where
  "width_bits W32 = 32"
| "width_bits W64 = 64"

text \<open>The loop of \<open>magicu\<close>; \<open>p\<close> is the value before the increment. It returns \<open>p\<close> and
  \<open>q2\<close> at the \<open>break\<close>.\<close>

function magicu_loop :: "nat \<Rightarrow> int \<Rightarrow> int \<Rightarrow> nat \<Rightarrow> int \<Rightarrow> int \<Rightarrow> int \<Rightarrow> int \<Rightarrow> (nat \<times> int) option" where
  "magicu_loop w nc d p q1 r1 q2 r2 =
     (let p = p + 1;
          (q1, r1) = (if r1 \<ge> nc - r1 then (2 * q1 + 1, 2 * r1 - nc) else (q1 * 2, r1 * 2));
          (q2, r2) = (if r2 + 1 \<ge> d - r2 then (2 * q2 + 1, 2 * r2 + 1 - d) else (q2 * 2, 2 * r2 + 1));
          delta = d - 1 - r2
      in if \<not> (q1 < delta \<or> (q1 = delta \<and> r1 = 0)) then Some (p, q2)
         else if p > 2 * w + 4 then None
         else magicu_loop w nc d p q1 r1 q2 r2)"
  by pat_completeness auto
termination
  by (relation "measure (\<lambda>(w, nc, d, p, q1, r1, q2, r2). 2 * w + 5 - p)") auto

declare magicu_loop.simps [simp del]

definition magicu :: "u64 \<Rightarrow> magic_width \<Rightarrow> magic_u option" where
  "magicu d width = (let w = width_bits width in
     if d \<le> 1 then None
     else if w < 64 \<and> push_bit w 1 \<le> d then None
     else let d = uint d;
              two_w = 2 ^ w;
              ones = two_w - 1;
              nc = ones - (ones - d + 1) mod d;
              two_p0 = 2 ^ (w - 1);
              q1 = two_p0 div nc;
              r1 = two_p0 - q1 * nc;
              q2 = (two_p0 - 1) div d;
              r2 = (two_p0 - 1) - q2 * d
          in case magicu_loop w nc d (w - 1) q1 r1 q2 r2 of
               None \<Rightarrow> None
             | Some (p, q2) \<Rightarrow>
                 let magic_full = q2 + 1;
                     shift = p - w;
                     add = (magic_full \<ge> two_w);
                     magic = word_of_int (magic_full AND ones)
                 in Some \<lparr>mu_magic = magic, mu_shift = shift, mu_add = add\<rparr>)"

definition band_holds :: "u64 \<Rightarrow> magic_u \<Rightarrow> magic_width \<Rightarrow> bool" where
  "band_holds d m width = (let w = width_bits width in
     if 64 \<le> mu_shift m then False
     else let w_plus_s = w + mu_shift m in
       if 128 \<le> w_plus_s then False
       else let mult = (if mu_add m then u256_add (from_u64 (mu_magic m)) (one_shl w) else from_u64 (mu_magic m));
                prd = u256_mul mult (from_u64 d);
                lo = one_shl w_plus_s
         in if u256_less prd lo then False
            else let ones = 2 ^ w - 1;
                     nc = from_u64 (word_of_int (ones - (ones - uint d + 1) mod uint d))
                 in u256_less (u256_mul prd nc) (u256_add (u256_mul lo nc) lo))"

record magic_s =
  ms_magic :: int
  ms_shift :: nat

text \<open>The loop of \<open>magics_bits\<close>.\<close>

function magics_loop :: "nat \<Rightarrow> int \<Rightarrow> int \<Rightarrow> nat \<Rightarrow> int \<Rightarrow> int \<Rightarrow> int \<Rightarrow> int \<Rightarrow> (nat \<times> int) option" where
  "magics_loop w anc ad p q1 r1 q2 r2 =
     (let p = p + 1;
          q1 = q1 * 2; r1 = r1 * 2;
          (q1, r1) = (if r1 \<ge> anc then (q1 + 1, r1 - anc) else (q1, r1));
          q2 = q2 * 2; r2 = r2 * 2;
          (q2, r2) = (if r2 \<ge> ad then (q2 + 1, r2 - ad) else (q2, r2));
          delta = ad - r2
      in if \<not> (q1 < delta \<or> (q1 = delta \<and> r1 = 0)) then Some (p, q2)
         else if p > 2 * w + 4 then None
         else magics_loop w anc ad p q1 r1 q2 r2)"
  by pat_completeness auto
termination
  by (relation "measure (\<lambda>(w, anc, ad, p, q1, r1, q2, r2). 2 * w + 5 - p)") auto

declare magics_loop.simps [simp del]

definition magics_bits :: "int \<Rightarrow> nat \<Rightarrow> (int \<times> nat) option" where
  "magics_bits d w =
     (if \<not> (2 \<le> w \<and> w \<le> 64) then None
      else let smin = - (2 ^ (w - 1)); smax = 2 ^ (w - 1) - 1 in
        if d < smin \<or> smax < d \<or> d = 0 \<or> d = 1 \<or> d = - 1 then None
        else let ad = \<bar>d\<bar> in
          if ad AND (ad - 1) = 0 then None
          else let two_wm1 = 2 ^ (w - 1);
                   t = two_wm1 + (if d < 0 then 1 else 0);
                   anc = t - 1 - t mod ad;
                   q1 = two_wm1 div anc; r1 = two_wm1 - q1 * anc;
                   q2 = two_wm1 div ad; r2 = two_wm1 - q2 * ad
            in case magics_loop w anc ad (w - 1) q1 r1 q2 r2 of
                 None \<Rightarrow> None
               | Some (p, q2) \<Rightarrow>
                   let m = q2 + 1;
                       m = (if d < 0 then - m else m);
                       low = m AND (2 ^ w - 1);
                       m_signed = (if drop_bit (w - 1) low AND 1 = 1 then low - 2 ^ w else low)
                   in Some (m_signed, p - w))"

definition magics :: "int \<Rightarrow> magic_width \<Rightarrow> magic_s option" where
  "magics d width = (case magics_bits d (width_bits width) of
       None \<Rightarrow> None
     | Some (m, s) \<Rightarrow> Some \<lparr>ms_magic = m, ms_shift = s\<rparr>)"

definition smagic_band_holds :: "int \<Rightarrow> magic_s \<Rightarrow> magic_width \<Rightarrow> bool" where
  "smagic_band_holds d m width = (let w = width_bits width in
     if d = 0 \<or> d = 1 \<or> d = - 1 then False
     else let mm = ms_magic m; s = ms_shift m in
       if w \<le> s \<or> 256 \<le> w + s + 1 then False
       else let ad = \<bar>d\<bar>; am_abs = \<bar>mm\<bar>; two_w = 2 ^ w in
         if ad AND (ad - 1) = 0 then False
         else let same_sign = ((0 < d) = (0 < mm));
                  a_m = (if same_sign then am_abs else two_w - am_abs);
                  prd = u256_mul (from_u128 (word_of_int a_m)) (from_u128 (word_of_int ad));
                  lo = one_shl (w + s);
                  t = 2 ^ (w - 1) + (if d < 0 then 1 else 0);
                  anc = from_u128 (word_of_int (t - 1 - t mod ad))
              in u256_le lo prd \<and> u256_less (u256_mul prd anc) (u256_add (u256_mul lo anc) lo))"

section \<open>The reciprocal theorem\<close>

text \<open>
  Fix a divisor \<open>d\<close>, a bound \<open>t\<close> on the dividends, a multiplier \<open>M\<close> and a precision \<open>p\<close>.
  The worst dividend is the largest one below \<open>t\<close> that is \<open>-1\<close> modulo \<open>d\<close>.
\<close>

definition worst :: "int \<Rightarrow> int \<Rightarrow> int" where
  "worst t d = t - 1 - t mod d"

definition band :: "int \<Rightarrow> int \<Rightarrow> int \<Rightarrow> nat \<Rightarrow> bool" where
  "band t d M p \<longleftrightarrow> 2 ^ p \<le> M * d \<and> M * d * worst t d < 2 ^ p * worst t d + 2 ^ p"

lemma worst_props:
  assumes "1 < d" and "d \<le> t"
  shows "worst t d + 1 = d * (t div d)" and "d - 1 \<le> worst t d" and "worst t d < t" and "0 < worst t d"
proof -
  show *: "worst t d + 1 = d * (t div d)" using minus_mod_eq_mult_div[of t d] by (simp add: worst_def)
  have "1 \<le> t div d" using assms by (simp add: pos_imp_zdiv_pos_iff int_one_le_iff_zero_less)
  then have "d * 1 \<le> worst t d + 1" unfolding * using assms by (intro mult_left_mono) auto
  with assms show "d - 1 \<le> worst t d" "0 < worst t d" by simp_all
  have "0 \<le> t mod d" using assms by simp
  then show "worst t d < t" by (simp add: worst_def)
qed

lemma div_eq_iff:
  fixes a q P :: int
  assumes "0 < P"
  shows "a div P = q \<longleftrightarrow> q * P \<le> a \<and> a < (q + 1) * P"
proof
  assume "a div P = q"
  with assms show "q * P \<le> a \<and> a < (q + 1) * P"
    using mod_mult_div_eq[of a P] pos_mod_bound[OF assms, of a] pos_mod_sign[OF assms, of a] by (auto simp: algebra_simps)
next
  assume b: "q * P \<le> a \<and> a < (q + 1) * P"
  then have "a = q * P + (a - q * P)" "0 \<le> a - q * P" "a - q * P < P" by (auto simp: algebra_simps)
  then show "a div P = q" using div_pos_pos_trivial[of "a - q * P" P] assms
    by (metis add.commute add_cancel_right_right div_mult_self3 less_irrefl)
qed

text \<open>The quotient is exact when the excess of the multiplier is small enough at \<open>x\<close>.\<close>

lemma quotient_exact_iff:
  fixes x d M :: int
  assumes "0 < d" and "0 \<le> x" and "2 ^ p \<le> M * d"
  shows "x * M div 2 ^ p = x div d \<longleftrightarrow> x * (M * d - 2 ^ p) < (d - x mod d) * 2 ^ p"
proof -
  define q r e where "q = x div d" and "r = x mod d" and "e = M * d - 2 ^ p"
  have x: "x = d * q + r" by (simp add: q_def r_def)
  have M: "M * d = 2 ^ p + e" by (simp add: e_def)
  have r: "0 \<le> r" using assms(1) by (simp add: r_def)
  have xMd: "x * M * d = x * 2 ^ p + x * e" unfolding mult.assoc M by (simp add: algebra_simps)
  have "0 \<le> x * e" using assms by (simp add: e_def)
  then have "(q * 2 ^ p) * d \<le> x * M * d"
    unfolding xMd using r by (simp add: x[THEN arg_cong, of "\<lambda>y. y * 2 ^ p"] algebra_simps)
  then have lower: "q * 2 ^ p \<le> x * M" using assms(1) by simp
  have "x * M < (q + 1) * 2 ^ p \<longleftrightarrow> x * M * d < (q + 1) * 2 ^ p * d" using assms(1) by simp
  also have "\<dots> \<longleftrightarrow> x * e < (d - r) * 2 ^ p"
    unfolding xMd by (simp add: x[THEN arg_cong, of "\<lambda>y. y * 2 ^ p"] algebra_simps)
  finally show ?thesis using lower by (simp add: div_eq_iff q_def r_def e_def)
qed

lemma quotient_exact:
  assumes "1 < d" and "d \<le> t" and "band t d M p" and "0 \<le> x" and "x < t"
  shows "x * M div 2 ^ p = x div d"
proof -
  let ?n = "worst t d"
  define e where "e = M * d - 2 ^ p"
  note n = worst_props[OF assms(1,2)]
  from assms(3) have e: "0 \<le> e" "?n * e < 2 ^ p" by (auto simp: band_def e_def algebra_simps)
  have r: "0 \<le> x mod d" "x mod d < d" using assms(1) by auto
  have "x * e < (d - x mod d) * 2 ^ p"
  proof (cases "x \<le> ?n")
    case True
    then have "x * e \<le> ?n * e" using e by (intro mult_right_mono) auto
    also have "\<dots> < 1 * 2 ^ p" using e by simp
    also have "\<dots> \<le> (d - x mod d) * 2 ^ p" using r by (intro mult_right_mono) auto
    finally show ?thesis .
  next
    case False
    define k where "k = x - (?n + 1)"
    have k: "0 \<le> k" "k < t mod d" using False assms(5) by (auto simp: k_def worst_def)
    then have kd: "k < d - 1" using pos_mod_bound[of d t] assms(1) by linarith
    have "x = k + d * (t div d)" using n(1) by (simp add: k_def)
    then have xk: "x mod d = k" using k kd by simp
    have "(k + 1) * e \<le> ?n * e" using n(2) kd e by (intro mult_right_mono) auto
    then have "x * e < 2 * 2 ^ p" using e(2) by (simp add: k_def algebra_simps)
    also have "\<dots> \<le> (d - x mod d) * 2 ^ p" unfolding xk using kd by (intro mult_right_mono) auto
    finally show ?thesis .
  qed
  with quotient_exact_iff[of d x p M] assms show ?thesis by (simp add: e_def band_def)
qed

lemma band_necessary:
  assumes "1 < d" and "d < t" and "\<And>x. \<lbrakk>0 \<le> x; x < t\<rbrakk> \<Longrightarrow> x * M div 2 ^ p = x div d"
  shows "band t d M p"
proof -
  have n: "worst t d + 1 = d * (t div d)" "worst t d < t" "0 < worst t d" using worst_props[of d t] assms(1,2) by auto
  from assms(3)[of d] assms(1,2) have "d * M div 2 ^ p = 1" by simp
  then have lo: "2 ^ p \<le> M * d" using div_eq_iff[of "2 ^ p" "d * M" 1] by (simp add: mult.commute)
  have "worst t d = (d - 1) + d * (t div d - 1)" using n(1) by (simp add: algebra_simps)
  then have "worst t d mod d = d - 1"
    using mod_pos_pos_trivial[of "d - 1" d] assms(1) by (simp only: mod_mult_self2)
  with quotient_exact_iff[of d "worst t d" p M] assms(3)[of "worst t d"] n lo assms(1)
  have "worst t d * (M * d - 2 ^ p) < 2 ^ p" by simp
  with lo show ?thesis by (simp add: band_def algebra_simps)
qed

section \<open>The wide arithmetic of the band checks\<close>

text \<open>
  What the band checks need of their wide integers: sums and products are exact below a
  bound, and the comparisons compare.
\<close>

locale wide_int =
  fixes val :: "'a \<Rightarrow> int" and ok :: "'a \<Rightarrow> bool" and bound :: int
    and add :: "'a \<Rightarrow> 'a \<Rightarrow> 'a" and mul :: "'a \<Rightarrow> 'a \<Rightarrow> 'a" and less :: "'a \<Rightarrow> 'a \<Rightarrow> bool"
  assumes add: "\<lbrakk>ok x; ok y; val x + val y < bound\<rbrakk> \<Longrightarrow> ok (add x y) \<and> val (add x y) = val x + val y"
    and mul: "\<lbrakk>ok x; ok y; val x * val y < bound\<rbrakk> \<Longrightarrow> ok (mul x y) \<and> val (mul x y) = val x * val y"
    and less: "\<lbrakk>ok x; ok y\<rbrakk> \<Longrightarrow> less x y \<longleftrightarrow> val x < val y"
    and nonneg: "ok x \<Longrightarrow> 0 \<le> val x"
begin

lemma upper_test:
  assumes "ok p" and "ok n" and "ok l" and "val p * val n < bound" and "val l * val n + val l < bound"
  shows "less (mul p n) (add (mul l n) l) \<longleftrightarrow> val p * val n < val l * val n + val l"
proof -
  have ln: "val l * val n < bound" using assms(5) nonneg[OF assms(3)] by linarith
  note m = mul[OF assms(1,2,4)] mul[OF assms(3,2) ln]
  then have "ok (add (mul l n) l) \<and> val (add (mul l n) l) = val l * val n + val l"
    using add[of "mul l n" l] assms(3,5) by simp
  with m less show ?thesis by simp
qed

end

interpretation u256: wide_int u256_val u256_ok "2 ^ 256" u256_add u256_mul u256_less
proof
  fix x y
  assume x: "u256_ok x" and y: "u256_ok y"
  have pos: "0 \<le> u256_val x" "0 \<le> u256_val y" using u256_bound x y by auto
  show "u256_ok (u256_add x y) \<and> u256_val (u256_add x y) = u256_val x + u256_val y" if "u256_val x + u256_val y < 2 ^ 256"
    using u256_add_val[OF x y] that pos by simp
  show "u256_ok (u256_mul x y) \<and> u256_val (u256_mul x y) = u256_val x * u256_val y" if "u256_val x * u256_val y < 2 ^ 256"
    using u256_mul_val[OF x y] that pos by simp
  show "u256_less x y \<longleftrightarrow> u256_val x < u256_val y" using u256_cmp_val[OF x y] by simp
qed (use u256_bound in auto)

lemma mult_bound: "\<lbrakk>0 \<le> (x :: int); x < 2 ^ a; 0 \<le> y; y < 2 ^ b\<rbrakk> \<Longrightarrow> x * y < 2 ^ (a + b)"
  unfolding power_add by (rule mult_strict_mono') auto

lemma width_bits_cases: "width_bits width = 32 \<or> width_bits width = 64"
  by (cases width) auto

text \<open>The multiplier the emitted code applies.\<close>

definition multiplier :: "magic_u \<Rightarrow> magic_width \<Rightarrow> int" where
  "multiplier m width = uint (mu_magic m) + (if mu_add m then 2 ^ width_bits width else 0)"

lemma worst_ones:
  assumes "0 < d"
  shows "(2 ^ w - 1) - ((2 ^ w - 1) - d + 1) mod d = worst (2 ^ w) d"
proof -
  have "(2 ^ w - 1 - d + 1) mod d = (2 ^ w) mod d" using minus_mod_self2[of "2 ^ w" d] by simp
  then show ?thesis by (simp add: worst_def)
qed

lemma band_holds_iff:
  assumes "1 < uint d" and "uint d < 2 ^ width_bits width"
  shows "band_holds d m width \<longleftrightarrow> mu_shift m < 64 \<and> width_bits width + mu_shift m < 128 \<and>
    band (2 ^ width_bits width) (uint d) (multiplier m width) (width_bits width + mu_shift m)"
proof (cases "mu_shift m < 64 \<and> width_bits width + mu_shift m < 128")
  case True
  let ?w = "width_bits width" and ?M = "multiplier m width"
  let ?p = "?w + mu_shift m" and ?n = "worst (2 ^ ?w) (uint d)"
  have w: "?w \<le> 64" using width_bits_cases[of width] by auto
  have pos: "0 < uint d" using assms by simp
  define mult where "mult = (if mu_add m then u256_add (from_u64 (mu_magic m)) (one_shl ?w) else from_u64 (mu_magic m))"
  define nc where "nc = from_u64 (word_of_int ?n)"
  have two_w: "(2 :: int) ^ ?w \<le> 2 ^ 64" using w by (intro power_increasing) auto
  have mag: "uint (mu_magic m) < 2 ^ 64" and d64: "uint d < 2 ^ 64" by (rule uint_u64_less)+
  have mult: "u256_ok mult \<and> u256_val mult = ?M"
    using u256.add[of "from_u64 (mu_magic m)" "one_shl ?w"] mag two_w w
    by (auto simp: mult_def multiplier_def u256_val_one_shl)
  have M: "0 \<le> ?M" "?M < 2 ^ 65" using mag two_w by (auto simp: multiplier_def)
  have "?M * uint d < 2 ^ (65 + 64)" using M d64 by (intro mult_bound) auto
  then have pb: "?M * uint d < 2 ^ 129" by simp
  define prd where "prd = u256_mul mult (from_u64 d)"
  have prd: "u256_ok prd" "u256_val prd = ?M * uint d"
    using u256.mul[of mult "from_u64 d"] mult pb by (auto simp: prd_def)
  have n: "0 < ?n" "?n < 2 ^ 64" using worst_props[of "uint d" "2 ^ ?w"] assms two_w by auto
  then have nc: "u256_ok nc" "u256_val nc = ?n" by (simp_all add: nc_def uint_word_of_int)
  have lo: "u256_ok (one_shl ?p)" "u256_val (one_shl ?p) = 2 ^ ?p" using True by (simp_all add: u256_val_one_shl)
  have lob: "(2 :: int) ^ ?p < 2 ^ 128" using True by (intro power_strict_increasing) auto
  have "?M * uint d * ?n < 2 ^ (129 + 64)" using pb M n assms by (intro mult_bound) auto
  moreover have "2 ^ ?p * ?n < 2 ^ (128 + 64)" using lob n by (intro mult_bound) auto
  ultimately have "u256_less (u256_mul prd nc) (u256_add (u256_mul (one_shl ?p) nc) (one_shl ?p)) \<longleftrightarrow>
      ?M * uint d * ?n < 2 ^ ?p * ?n + 2 ^ ?p"
    using u256.upper_test[OF prd(1) nc(1) lo(1)] prd(2) nc(2) lo(2) lob by simp
  moreover have "u256_less prd (one_shl ?p) \<longleftrightarrow> ?M * uint d < 2 ^ ?p"
    using u256.less[OF prd(1) lo(1)] prd(2) lo(2) by simp
  moreover have "band_holds d m width \<longleftrightarrow> \<not> u256_less prd (one_shl ?p) \<and>
      u256_less (u256_mul prd nc) (u256_add (u256_mul (one_shl ?p) nc) (one_shl ?p))"
    unfolding band_holds_def Let_def worst_ones[OF pos] mult_def[symmetric] prd_def[symmetric] nc_def[symmetric]
    using True by auto
  ultimately show ?thesis using True by (auto simp: band_def)
next
  case False
  then show ?thesis by (auto simp: band_holds_def Let_def)
qed

section \<open>The loops\<close>

lemma div_mod_unique:
  fixes a n q r :: int
  assumes "a = n * q + r" and "0 \<le> r" and "r < n"
  shows "a div n = q \<and> a mod n = r"
  using assms int_div_pos_eq[of a n q r] int_mod_pos_eq[of a n q r] by simp

text \<open>Doubling a quotient and remainder, as the loops do.\<close>

lemma double_div:
  fixes a n :: int
  assumes "0 < n"
  shows "(if a mod n \<ge> n - a mod n then (2 * (a div n) + 1, 2 * (a mod n) - n) else (a div n * 2, a mod n * 2))
    = (2 * a div n, 2 * a mod n)"
proof -
  define q r where "q = a div n" and "r = a mod n"
  have r: "0 \<le> r" "r < n" "a = n * q + r" using assms by (auto simp: q_def r_def)
  have "2 * a div n = (if r \<ge> n - r then 2 * q + 1 else q * 2) \<and> 2 * a mod n = (if r \<ge> n - r then 2 * r - n else r * 2)"
    by (rule div_mod_unique) (use r in \<open>auto simp: algebra_simps\<close>)
  then show ?thesis by (auto simp flip: q_def r_def)
qed

lemma double_div1:
  fixes a n :: int
  assumes "0 < n"
  shows "(if a mod n + 1 \<ge> n - a mod n then (2 * (a div n) + 1, 2 * (a mod n) + 1 - n) else (a div n * 2, 2 * (a mod n) + 1))
    = ((2 * a + 1) div n, (2 * a + 1) mod n)"
proof -
  define q r where "q = a div n" and "r = a mod n"
  have r: "0 \<le> r" "r < n" "a = n * q + r" using assms by (auto simp: q_def r_def)
  have "(2 * a + 1) div n = (if r + 1 \<ge> n - r then 2 * q + 1 else q * 2)
      \<and> (2 * a + 1) mod n = (if r + 1 \<ge> n - r then 2 * r + 1 - n else 2 * r + 1)"
    by (rule div_mod_unique) (use r in \<open>auto simp: algebra_simps\<close>)
  then show ?thesis by (auto simp flip: q_def r_def)
qed

text \<open>The exit condition compares the quotient and remainder of \<open>2 ^ p\<close> by \<open>n\<close> with \<open>delta\<close>.\<close>

lemma exit_condition:
  fixes a n delta :: int
  assumes "0 < n"
  shows "\<not> (a div n < delta \<or> (a div n = delta \<and> a mod n = 0)) \<longleftrightarrow> n * delta < a"
proof -
  define q r where "q = a div n" and "r = a mod n"
  have a: "a = n * q + r" "0 \<le> r" "r < n" using assms by (auto simp: q_def r_def)
  consider "q < delta" | "q = delta" | "delta + 1 \<le> q" by linarith
  then show ?thesis
  proof cases
    case 1
    then have "n * (q + 1) \<le> n * delta" using assms by (intro mult_left_mono) auto
    with a 1 show ?thesis by (simp add: algebra_simps flip: q_def r_def)
  next
    case 2
    with a show ?thesis by (auto simp flip: q_def r_def)
  next
    case 3
    then have "n * (delta + 1) \<le> n * q" using assms by (intro mult_left_mono) auto
    with a 3 assms show ?thesis by (simp add: algebra_simps flip: q_def r_def)
  qed
qed

text \<open>Both loops return at the first precision that meets their exit condition.\<close>

lemma loop_first:
  fixes loop :: "nat \<Rightarrow> (nat \<times> int) option"
  assumes step: "\<And>p. w \<le> p + 1 \<Longrightarrow> loop p = (if stop (p + 1) then Some (p + 1, res (p + 1))
      else if p + 1 > 2 * w + 4 then None else loop (p + 1))"
    and "stop N" and "N \<le> 2 * w + 5" and "p < N" and "w \<le> p + 1"
  shows "\<exists>p'. loop p = Some (p', res p') \<and> stop p' \<and> p < p' \<and> p' \<le> N \<and> (\<forall>k. p < k \<and> k < p' \<longrightarrow> \<not> stop k)"
  using assms(4,5)
proof (induction "N - p" arbitrary: p)
  case (Suc n)
  show ?case
  proof (cases "stop (p + 1)")
    case True
    with Suc.prems show ?thesis by (intro exI[of _ "p + 1"]) (auto simp: step)
  next
    case False
    with Suc.prems assms(2) have "p + 1 < N" by (metis Suc_eq_plus1 Suc_lessI)
    have "n = N - (p + 1)" "w \<le> p + 1 + 1" using Suc.hyps(2) Suc.prems by auto
    from Suc.hyps(1)[OF this(1) \<open>p + 1 < N\<close> this(2)] obtain p' where
      p': "loop (p + 1) = Some (p', res p')" "stop p'" "p + 1 < p'" "p' \<le> N" "\<And>k. \<lbrakk>p + 1 < k; k < p'\<rbrakk> \<Longrightarrow> \<not> stop k" by blast
    have "\<not> p + 1 > 2 * w + 4" using \<open>p + 1 < N\<close> assms(3) by simp
    with False p' step[OF Suc.prems(2)] have "loop p = Some (p', res p')" by simp
    moreover have "\<not> stop k" if "p < k" "k < p'" for k using that False p'(5)[of k] by (cases "k = p + 1") auto
    ultimately show ?thesis using p' by auto
  qed
qed simp

subsection \<open>Unsigned\<close>

definition ustop :: "int \<Rightarrow> int \<Rightarrow> nat \<Rightarrow> bool" where
  "ustop nc d p \<longleftrightarrow> nc * (d - 1 - (2 ^ p - 1) mod d) < 2 ^ p"

lemma magicu_loop_step:
  fixes w :: nat
  assumes "0 < nc" and "0 < d"
  defines "loop \<equiv> \<lambda>p. magicu_loop w nc d p (2 ^ p div nc) (2 ^ p mod nc) ((2 ^ p - 1) div d) ((2 ^ p - 1) mod d)"
  shows "loop p = (if ustop nc d (p + 1) then Some (p + 1, (2 ^ (p + 1) - 1) div d)
    else if p + 1 > 2 * w + 4 then None else loop (p + 1))"
proof -
  have pow: "2 * 2 ^ p = (2 :: int) ^ (p + 1)" "2 * (2 ^ p - 1) + 1 = (2 :: int) ^ (p + 1) - 1" by simp_all
  show ?thesis
    unfolding loop_def magicu_loop.simps[of w nc d p] double_div[OF assms(1)] double_div1[OF assms(2)] pow Let_def prod.case
      exit_condition[OF assms(1)] ustop_def ..
qed

lemma multiplier_excess:
  fixes d :: int
  assumes "0 < d"
  shows "((2 ^ p - 1) div d + 1) * d = 2 ^ p + (d - 1 - (2 ^ p - 1) mod d)"
    and "0 \<le> d - 1 - (2 ^ p - 1) mod d" "d - 1 - (2 ^ p - 1) mod d < d"
  using mult_div_mod_eq[of d "2 ^ p - 1"] pos_mod_bound[OF assms, of "2 ^ p - 1"] pos_mod_sign[OF assms, of "2 ^ p - 1"]
  by (auto simp: algebra_simps)

lemma ustop_band: "0 < d \<Longrightarrow> ustop (worst t d) d p \<longleftrightarrow> band t d ((2 ^ p - 1) div d + 1) p"
proof -
  assume d: "0 < d"
  define e where "e = d - 1 - (2 ^ p - 1) mod d"
  note m = multiplier_excess[OF d, of p, folded e_def]
  show ?thesis unfolding ustop_def band_def e_def[symmetric] m(1) using m(2) by (auto simp: algebra_simps)
qed

text \<open>The bit length of a divisor.\<close>

lemma bit_length:
  assumes "1 < (d :: int)" and "d \<le> 2 ^ w"
  obtains l where "0 < l" and "l \<le> w" and "2 ^ (l - 1) < d" and "d \<le> 2 ^ l"
proof -
  define l where "l = (LEAST l. d \<le> 2 ^ l)"
  have ub: "d \<le> 2 ^ l" unfolding l_def by (rule LeastI[of "\<lambda>l. d \<le> 2 ^ l", OF assms(2)])
  have le: "l \<le> w" unfolding l_def using assms(2) by (rule Least_le)
  have pos: "0 < l" using ub assms(1) by (cases l) auto
  then have "\<not> d \<le> 2 ^ (l - 1)" unfolding l_def by (intro not_less_Least) auto
  with pos le ub show thesis by (intro that) auto
qed

lemma multiplier_bound:
  assumes "0 < l" and "2 ^ (l - 1) < d" and "d \<le> 2 ^ w" and "M * d \<le> 2 ^ p + e" and "e < (d :: int)" and "p \<le> w + l"
  shows "M < 2 ^ (w + 1)"
proof -
  have "(2 :: int) ^ p \<le> 2 ^ (w + l)" using assms(6) by (intro power_increasing) auto
  also have "\<dots> = 2 ^ (w + 1) * 2 ^ (l - 1)" using assms(1) by (cases l) (simp_all add: power_add)
  also have "\<dots> \<le> 2 ^ (w + 1) * (d - 1)" using assms(2) by (intro mult_left_mono) auto
  finally have M: "M * d < 2 ^ (w + 1) * (d - 1) + d" using assms(4,5) by simp
  have "0 < (2 :: int) ^ w" by simp
  with assms(3) have "d \<le> 2 ^ (w + 1)" by (simp del: zero_less_power)
  with M have "M * d < 2 ^ (w + 1) * d" by (simp add: algebra_simps)
  moreover have "0 < d" using assms(2) zero_less_power[of "2 :: int" "l - 1"] by linarith
  ultimately show ?thesis by (simp only: mult_less_cancel_right_pos)
qed

lemma and_ones: "(x :: int) AND (2 ^ w - 1) = x mod 2 ^ w"
  by (simp add: take_bit_eq_mod flip: take_bit_eq_mask mask_eq_exp_minus_1)

lemma magicu_spec:
  assumes "1 < uint d" and "uint d < 2 ^ width_bits width"
  shows "\<exists>m. magicu d width = Some m \<and> mu_shift m \<le> width_bits width
    \<and> band (2 ^ width_bits width) (uint d) (multiplier m width) (width_bits width + mu_shift m)
    \<and> multiplier m width < 2 ^ (width_bits width + 1) \<and> uint (mu_magic m) < 2 ^ width_bits width
    \<and> (\<forall>s < mu_shift m. \<not> ustop (worst (2 ^ width_bits width) (uint d)) (uint d) (width_bits width + s))"
proof -
  let ?w = "width_bits width" and ?d = "uint d"
  let ?n = "worst (2 ^ ?w) ?d"
  have w: "1 \<le> ?w" "?w \<le> 64" using width_bits_cases[of width] by auto
  have n: "0 < ?n" "?n < 2 ^ ?w" using worst_props[of ?d "2 ^ ?w"] assms by auto
  from bit_length[OF assms(1) less_imp_le[OF assms(2)]] obtain l where l: "0 < l" "l \<le> ?w" "2 ^ (l - 1) < ?d" "?d \<le> 2 ^ l" .
  define loop where "loop = (\<lambda>p. magicu_loop ?w ?n ?d p (2 ^ p div ?n) (2 ^ p mod ?n) ((2 ^ p - 1) div ?d) ((2 ^ p - 1) mod ?d))"
  have "?n * (?d - 1 - (2 ^ (?w + l) - 1) mod ?d) < 2 ^ (?w + l)"
    using multiplier_excess[of ?d "?w + l"] assms(1) n l(4) by (intro mult_bound) auto
  then have stop: "ustop ?n ?d (?w + l)" by (simp add: ustop_def)
  have step: "loop p = (if ustop ?n ?d (p + 1) then Some (p + 1, (2 ^ (p + 1) - 1) div ?d)
      else if p + 1 > 2 * ?w + 4 then None else loop (p + 1))" for p
    unfolding loop_def using n(1) assms(1) by (intro magicu_loop_step) auto
  have le: "?w + l \<le> 2 * ?w + 5" "?w - 1 < ?w + l" "?w \<le> ?w - 1 + 1" using l w by auto
  from loop_first[where loop = loop and w = ?w and stop = "ustop ?n ?d" and res = "\<lambda>p. (2 ^ p - 1) div ?d",
      OF step stop le]
  obtain p where p: "loop (?w - 1) = Some (p, (2 ^ p - 1) div ?d)" "ustop ?n ?d p" "?w - 1 < p" "p \<le> ?w + l"
    "\<And>k. \<lbrakk>?w - 1 < k; k < p\<rbrakk> \<Longrightarrow> \<not> ustop ?n ?d k"
    by blast
  define M where "M = (2 ^ p - 1) div ?d + 1"
  have "M < 2 ^ (?w + 1)"
    using multiplier_excess[of ?d p] assms l p(4) by (intro multiplier_bound[of l ?d ?w M p "?d - 1 - (2 ^ p - 1) mod ?d"])
      (auto simp: M_def)
  moreover have "0 \<le> M" using assms(1) by (simp add: M_def pos_imp_zdiv_nonneg_iff)
  ultimately have split: "M mod 2 ^ ?w + (if 2 ^ ?w \<le> M then 2 ^ ?w else 0) = M"
    by (auto simp: int_mod_pos_eq[of M "2 ^ ?w" 1 "M - 2 ^ ?w"])
  define m where "m = \<lparr>mu_magic = word_of_int (M AND (2 ^ ?w - 1)), mu_shift = p - ?w, mu_add = (2 ^ ?w \<le> M)\<rparr>"
  have "M mod 2 ^ ?w < 2 ^ ?w" by simp
  also have "(2 :: int) ^ ?w \<le> 2 ^ 64" using w by (intro power_increasing) auto
  finally have mult: "multiplier m width = M"
    and small: "uint (mu_magic m) < 2 ^ ?w"
    using split by (simp_all add: multiplier_def m_def and_ones uint_word_of_int)
  have guards: "\<not> d \<le> 1" "\<not> (?w < 64 \<and> push_bit ?w 1 \<le> d)"
    using assms by (auto simp: word_le_def split: magic_width.splits) (cases width; simp)
  have r: "a - a div k * k = a mod k" for a k :: int by (simp add: minus_div_mult_eq_mod)
  have "magicu d width = Some m"
    unfolding magicu_def Let_def worst_ones[OF order.strict_trans[OF zero_less_one assms(1)]] r
    using guards p(1) by (simp add: m_def M_def loop_def)
  moreover have "mu_shift m \<le> ?w" "?w + mu_shift m = p" using p(3,4) l(2) w by (auto simp: m_def)
  moreover have "band (2 ^ ?w) ?d M p" using p(2) ustop_band[of ?d "2 ^ ?w" p] assms(1) by (simp add: M_def)
  moreover have "\<not> ustop ?n ?d (?w + s)" if "s < mu_shift m" for s using p(5)[of "?w + s"] that w by (simp add: m_def)
  ultimately show ?thesis using \<open>M < 2 ^ (?w + 1)\<close> mult small by auto
qed

section \<open>The signed reciprocal\<close>

lemma dvd_power_of_two: "\<lbrakk>(a :: int) dvd 2 ^ p; 0 < a\<rbrakk> \<Longrightarrow> \<exists>i. a = 2 ^ i"
proof (induction p arbitrary: a)
  case (Suc p)
  show ?case
  proof (cases "even a")
    case True
    then obtain b where b: "a = 2 * b" by auto
    with Suc.prems have "b dvd 2 ^ p" "0 < b" by auto
    with Suc.IH b show ?thesis by (metis power_Suc)
  next
    case False
    then have "coprime a 2" by simp
    then have "a dvd 2 ^ p" using Suc.prems(1) by (simp add: coprime_dvd_mult_right_iff)
    with Suc show ?thesis by blast
  qed
qed (auto intro: exI[of _ 0])

lemma not_pow2_excess:
  assumes "a AND (a - 1) \<noteq> 0" and "0 < (a :: int)"
  shows "M * a \<noteq> 2 ^ p"
proof
  assume "M * a = 2 ^ p"
  then have "a dvd 2 ^ p" by (metis dvd_triv_right)
  then obtain i where "a = 2 ^ i" using dvd_power_of_two assms(2) by blast
  with assms(1) show False by (simp add: and_ones)
qed

text \<open>The largest negative dividend, \<open>- t\<close> with \<open>t = 2 ^ (w - 1)\<close>.\<close>

lemma min_dividend:
  fixes d t M :: int
  assumes "1 < d" and "d < t" and "even t" and "M < 2 * t" and "t * 2 ^ k \<le> M * d"
    and n: "worst t d * (M * d - t * 2 ^ k) < t * 2 ^ k"
  shows "t * (M * d - t * 2 ^ k) \<le> (d - t mod d) * (t * 2 ^ k)"
proof -
  define e where "e = M * d - t * 2 ^ k"
  have e: "0 \<le> e" "worst t d * e < t * 2 ^ k" using assms(5) n by (auto simp: e_def)
  have r: "0 \<le> t mod d" "t mod d < d" using assms(1) by auto
  have w: "d - 1 \<le> worst t d" using worst_props[of d t] assms by simp
  show ?thesis
  proof (cases "t mod d < d - 1")
    case True
    have "(t mod d + 1) * e \<le> worst t d * e" using w True e by (intro mult_right_mono) auto
    then have "t * e < 2 * (t * 2 ^ k)" using e by (simp add: worst_def algebra_simps)
    also have "\<dots> \<le> (d - t mod d) * (t * 2 ^ k)" using True assms by (intro mult_right_mono) auto
    finally show ?thesis by (simp add: e_def)
  next
    case False
    then have td: "t mod d = d - 1" using r by simp
    define c where "c = t div d + 1"
    have c: "t + 1 = d * c" using mult_div_mod_eq[of d t] td by (simp add: c_def algebra_simps)
    have "c \<noteq> 2" using c assms(3) by (metis dvd_add_triv_right_iff even_add even_mult_iff odd_one)
    moreover have "1 < c" using c assms(2) by (metis add_less_cancel_right c_def less_add_one linorder_not_less
      mult.right_neutral mult_le_cancel_left_pos order.strict_trans assms(1) zero_less_one less_imp_le)
    ultimately have "d * 3 \<le> t + 1" unfolding c using assms(1) by (intro mult_left_mono) auto
    have "e \<le> 2 ^ k"
    proof (rule ccontr)
      assume "\<not> e \<le> 2 ^ k"
      define j where "j = M - c * 2 ^ k"
      have "t * 2 ^ k = (d * c - 1) * 2 ^ k" using c by simp
      then have ej: "e = 2 ^ k + d * j" by (simp add: e_def j_def algebra_simps)
      with \<open>\<not> e \<le> 2 ^ k\<close> assms(1) have "1 \<le> j" by (auto simp: not_le zero_less_mult_iff)
      then have "d * 1 \<le> d * j" using assms(1) by (intro mult_left_mono) auto
      with ej have "(t - d) * (2 ^ k + d) \<le> (t - d) * e" using assms(2) by (intro mult_left_mono) auto
      also have "\<dots> < t * 2 ^ k" using e(2) td by (simp add: worst_def)
      finally have "d * (t - 2 ^ k - d) < 0" by (simp add: algebra_simps)
      then have lt: "t < 2 ^ k + d" using assms(1) by (simp add: mult_less_0_iff)
      have "t * 2 ^ k \<le> M * d" by (rule assms(5))
      also have "\<dots> < 2 * t * d" using assms(1,4) by (intro mult_strict_right_mono) auto
      finally have "t * 2 ^ k < t * (2 * d)" by (simp add: algebra_simps)
      then have "2 ^ k < 2 * d" using assms(1,2) by simp
      with lt \<open>d * 3 \<le> t + 1\<close> show False by linarith
    qed
    then have "t * e \<le> t * 2 ^ k" using assms(1,2) by (intro mult_left_mono) auto
    then show ?thesis by (simp add: e_def td)
  qed
qed

text \<open>
  The floor of the scaled product, plus one when negative, is the truncating quotient:
  \<open>x\<close> is any signed \<open>w\<close>-bit number, \<open>M\<close> the magnitude of the effective multiplier.
\<close>

definition tmax :: "nat \<Rightarrow> int \<Rightarrow> int" where
  "tmax w d = 2 ^ (w - 1) + (if d < 0 then 1 else 0)"

lemma signed_quotient:
  fixes d M x :: int
  assumes "2 \<le> w" and "- (2 ^ (w - 1)) \<le> x" and "x < 2 ^ (w - 1)" and "- (2 ^ (w - 1)) \<le> d" and "d < 2 ^ (w - 1)"
    and "1 < \<bar>d\<bar>" and pow2: "\<bar>d\<bar> AND (\<bar>d\<bar> - 1) \<noteq> 0" and "M < 2 ^ w" and band: "band (tmax w d) \<bar>d\<bar> M (w + s)"
  defines "q \<equiv> x * (sgn d * M) div 2 ^ (w + s)"
  shows "q + (if q < 0 then 1 else 0) = x sdiv d"
proof -
  let ?t = "tmax w d" and ?a = "\<bar>d\<bar>" and ?P = "(2 :: int) ^ (w + s)" and ?n = "\<bar>x\<bar>"
  have at: "?a \<le> ?t" using assms by (auto simp: tmax_def)
  have lo: "?P \<le> M * ?a" using band by (simp add: band_def)
  have exact: "?n * M div ?P = ?n div ?a" if "?n < ?t" using quotient_exact[OF assms(6) at band _ that] by simp
  consider "0 \<le> x * sgn d" | "x * sgn d < 0" by linarith
  then show ?thesis
  proof cases
    case 1
    then have y: "x * sgn d = ?n" using assms(6) by (auto simp: sgn_if abs_if mult_le_0_iff zero_le_mult_iff split: if_splits)
    then have "q = ?n div ?a" unfolding q_def using exact assms(2,3,6) 1
      by (simp add: mult.assoc[symmetric]) (auto simp: tmax_def sgn_if abs_if split: if_splits)
    moreover have "0 \<le> ?n div ?a" using assms(6) by (simp add: pos_imp_zdiv_nonneg_iff)
    moreover have "x sdiv d = ?n div ?a" using y assms(6) by (auto simp: signed_divide_int_def sgn_if abs_if split: if_splits)
    ultimately show ?thesis by simp
  next
    case 2
    then have y: "x * sgn d = - ?n" "0 < ?n" using assms(6)
      by (auto simp: sgn_if abs_if mult_less_0_iff split: if_splits)
    define k where "k = ?n div ?a"
    have pos: "0 < ?a" using assms(6) by simp
    have nk: "?n - ?n mod ?a = ?a * k" by (simp add: k_def minus_mod_eq_mult_div)
    have up: "?n * M \<le> (k + 1) * ?P"
    proof (cases "?n < ?t")
      case True
      then show ?thesis using exact[OF True] div_eq_iff[of ?P "?n * M" k] by (simp add: k_def)
    next
      case False
      then have d: "0 < d" and n: "?n = 2 ^ (w - 1)" and t: "?t = 2 ^ (w - 1)" using assms(2,3) 2
        by (auto simp: tmax_def sgn_if abs_if split: if_splits)
      have P: "?P = 2 ^ (w - 1) * 2 ^ (s + 1)" using assms(1) by (cases w) (simp_all add: power_add)
      have "?n * (M * ?a - ?P) \<le> (?a - ?n mod ?a) * ?P"
        unfolding P n using band lo d assms(1,5,6,8) unfolding band_def t P
        by (intro min_dividend) (auto simp: algebra_simps power_Suc[symmetric] simp del: power_Suc)
      then have "?n * M * ?a \<le> (?n - ?n mod ?a + ?a) * ?P" by (simp add: algebra_simps)
      then have "?n * M * ?a \<le> (k + 1) * ?P * ?a" unfolding nk by (simp add: algebra_simps)
      then show ?thesis using pos by (simp only: mult_le_cancel_right_pos)
    qed
    have "k * ?P * ?a = (?n - ?n mod ?a) * ?P" unfolding nk by (simp add: algebra_simps)
    also have "\<dots> \<le> ?n * ?P" using pos by (intro mult_right_mono) auto
    also have "\<dots> < ?n * (M * ?a)"
      using y(2) lo not_pow2_excess[OF pow2 pos, of M "w + s"] by (intro mult_strict_left_mono) auto
    finally have "k * ?P * ?a < ?n * M * ?a" by (simp add: algebra_simps)
    then have down: "k * ?P < ?n * M" using pos by (simp only: mult_less_cancel_right_pos)
    have "x * (sgn d * M) = - (?n * M)" unfolding mult.assoc[symmetric] y by simp
    then have "q = - (k + 1)" unfolding q_def using up down by (subst div_eq_iff) (simp_all add: algebra_simps)
    moreover have "x sdiv d = - k" using y assms(6) by (auto simp: k_def signed_divide_int_def sgn_if abs_if split: if_splits)
    moreover have "0 \<le> k" using pos by (simp add: k_def pos_imp_zdiv_nonneg_iff)
    ultimately show ?thesis by simp
  qed
qed

section \<open>The signed checks and loop\<close>

definition eff_magnitude :: "nat \<Rightarrow> int \<Rightarrow> int \<Rightarrow> int" where
  "eff_magnitude w d mm = (if (0 < d) = (0 < mm) then \<bar>mm\<bar> else 2 ^ w - \<bar>mm\<bar>)"

text \<open>The signed divisors of a width that are neither trivial nor powers of two.\<close>

definition magic_divisor :: "nat \<Rightarrow> int \<Rightarrow> bool" where
  "magic_divisor w d \<longleftrightarrow> - (2 ^ (w - 1)) \<le> d \<and> d < 2 ^ (w - 1) \<and> 1 < \<bar>d\<bar> \<and> \<bar>d\<bar> AND (\<bar>d\<bar> - 1) \<noteq> 0"

lemma uint_word_of_int_u128: "\<lbrakk>0 \<le> x; x < 2 ^ 128\<rbrakk> \<Longrightarrow> uint (word_of_int x :: u128) = x"
  by (simp add: uint_word_of_int)

lemma tmax_bounds:
  assumes "magic_divisor w d" and "w \<le> 64" and "2 \<le> w"
  shows "\<bar>d\<bar> \<le> tmax w d" and "tmax w d \<le> 2 ^ (w - 1) + 1" and "tmax w d \<le> 2 ^ 63 + 1"
proof -
  show "\<bar>d\<bar> \<le> tmax w d" "tmax w d \<le> 2 ^ (w - 1) + 1" using assms by (auto simp: magic_divisor_def tmax_def)
  have "(2 :: int) ^ (w - 1) \<le> 2 ^ 63" using assms by (intro power_increasing) auto
  then show "tmax w d \<le> 2 ^ 63 + 1" by (auto simp: tmax_def)
qed

lemma smagic_band_iff:
  assumes "magic_divisor (width_bits width) d"
    and "- (2 ^ (width_bits width - 1)) \<le> ms_magic m" and "ms_magic m < 2 ^ (width_bits width - 1)"
  shows "smagic_band_holds d m width \<longleftrightarrow> ms_shift m < width_bits width \<and>
    band (tmax (width_bits width) d) \<bar>d\<bar> (eff_magnitude (width_bits width) d (ms_magic m)) (width_bits width + ms_shift m)"
proof (cases "ms_shift m < width_bits width")
  case True
  let ?w = "width_bits width" and ?a = "\<bar>d\<bar>" and ?M = "eff_magnitude (width_bits width) d (ms_magic m)"
  let ?p = "?w + ms_shift m" and ?n = "worst (tmax ?w d) ?a"
  have w: "?w \<le> 64" "2 \<le> ?w" using width_bits_cases[of width] by auto
  note t = tmax_bounds[OF assms(1) w]
  have d: "1 < ?a" "?a AND (?a - 1) \<noteq> 0" "?a \<le> 2 ^ 63 + 1" using assms(1) t by (auto simp: magic_divisor_def)
  have two_w: "(2 :: int) ^ ?w \<le> 2 ^ 64" using w by (intro power_increasing) auto
  have half: "(2 :: int) ^ (?w - 1) \<le> 2 ^ ?w" by (intro power_increasing) auto
  have "\<bar>ms_magic m\<bar> \<le> 2 ^ ?w" using assms(2,3) half by linarith
  with two_w have M: "0 \<le> ?M" "?M \<le> 2 ^ 64" by (auto simp: eff_magnitude_def)
  define prd where "prd = u256_mul (from_u128 (word_of_int ?M)) (from_u128 (word_of_int ?a))"
  define lo where "lo = one_shl ?p"
  define nc where "nc = from_u128 (word_of_int ?n)"
  have "?M * ?a < 2 ^ (65 + 64)" using M d by (intro mult_bound) auto
  then have pb: "?M * ?a < 2 ^ 129" by simp
  have prd: "u256_ok prd" "u256_val prd = ?M * ?a"
    using u256.mul[of "from_u128 (word_of_int ?M)" "from_u128 (word_of_int ?a)"] M d pb
    by (auto simp: prd_def uint_word_of_int_u128)
  have n: "0 < ?n" "?n < 2 ^ 64" using worst_props[OF d(1) t(1)] t(3) by auto
  then have nc: "u256_ok nc" "u256_val nc = ?n" by (simp_all add: nc_def uint_word_of_int_u128)
  have p: "?p < 128" using True w by simp
  then have lo: "u256_ok lo" "u256_val lo = 2 ^ ?p" by (simp_all add: u256_val_one_shl lo_def)
  have lob: "(2 :: int) ^ ?p < 2 ^ 128" using p by (intro power_strict_increasing) auto
  have "?M * ?a * ?n < 2 ^ (129 + 64)" using pb M n d by (intro mult_bound) auto
  moreover have "2 ^ ?p * ?n < 2 ^ (128 + 64)" using lob n by (intro mult_bound) auto
  ultimately have "u256_less (u256_mul prd nc) (u256_add (u256_mul lo nc) lo) \<longleftrightarrow>
      ?M * ?a * ?n < 2 ^ ?p * ?n + 2 ^ ?p"
    using u256.upper_test[OF prd(1) nc(1) lo(1)] prd(2) nc(2) lo(2) lob by simp
  moreover have "u256_le lo prd \<longleftrightarrow> 2 ^ ?p \<le> ?M * ?a" using u256_cmp_val(2)[OF lo(1) prd(1)] prd(2) lo(2) by simp
  moreover have "smagic_band_holds d m width \<longleftrightarrow> u256_le lo prd \<and> u256_less (u256_mul prd nc) (u256_add (u256_mul lo nc) lo)"
    unfolding smagic_band_holds_def Let_def tmax_def[symmetric] worst_def[symmetric] eff_magnitude_def[symmetric]
      prd_def[symmetric] lo_def[symmetric] nc_def[symmetric] using True p d by auto
  ultimately show ?thesis using True by (auto simp: band_def)
next
  case False
  then show ?thesis by (auto simp: smagic_band_holds_def Let_def)
qed

text \<open>The compile-time correction makes the multiplier the effective one.\<close>

lemma effective_multiplier:
  assumes div: "magic_divisor w d" and "2 \<le> w" and "w \<le> 64"
    and "- (2 ^ (w - 1)) \<le> mm" and "mm < 2 ^ (w - 1)" and band: "band (tmax w d) \<bar>d\<bar> (eff_magnitude w d mm) (w + s)"
  shows "(if 0 < d \<and> mm < 0 then mm + 2 ^ w else if d < 0 \<and> 0 < mm then mm - 2 ^ w else mm) = sgn d * eff_magnitude w d mm"
    and "eff_magnitude w d mm < 2 ^ w"
proof -
  have half: "(2 :: int) ^ (w - 1) < 2 ^ w" using assms(2) by (intro power_strict_increasing) auto
  have mag: "\<bar>mm\<bar> < 2 ^ w" using assms(4,5) half by linarith
  have "mm \<noteq> 0"
  proof
    assume 0: "mm = 0"
    show False
    proof (cases "0 < d")
      case True
      with 0 have M: "eff_magnitude w d mm = 2 ^ w" by (simp add: eff_magnitude_def)
      have d: "1 < d" "d AND (d - 1) \<noteq> 0" using div True by (auto simp: magic_divisor_def)
      have "2 ^ w * 2 ^ s \<le> 2 ^ w * d" using band True by (simp add: M band_def power_add)
      then have "2 ^ s \<le> d" by simp
      moreover have "1 * d \<noteq> 2 ^ s" using not_pow2_excess[OF d(2), of 1 s] d(1) by simp
      ultimately have sd: "2 ^ s \<le> d - 1" by simp
      then have "2 ^ w * 1 \<le> 2 ^ w * (d - 2 ^ s)" by (intro mult_left_mono) auto
      then have "worst (tmax w d) d * 2 ^ w \<le> worst (tmax w d) d * (2 ^ w * (d - 2 ^ s))"
        using worst_props[of d "tmax w d"] tmax_bounds[OF div assms(3,2)] d(1) by (intro mult_left_mono) auto
      also have "\<dots> < 2 ^ w * 2 ^ s" using band True by (simp add: M band_def power_add algebra_simps)
      finally have "worst (tmax w d) d < 2 ^ s" by (simp add: mult.commute)
      with sd worst_props(2)[of d "tmax w d"] tmax_bounds[OF div assms(3,2)] d(1) True show False by simp
    next
      case False
      with 0 div have "eff_magnitude w d mm = 0" by (simp add: eff_magnitude_def)
      with band show False by (simp add: band_def not_le)
    qed
  qed
  then show "(if 0 < d \<and> mm < 0 then mm + 2 ^ w else if d < 0 \<and> 0 < mm then mm - 2 ^ w else mm) = sgn d * eff_magnitude w d mm"
    "eff_magnitude w d mm < 2 ^ w"
    using div mag by (auto simp: eff_magnitude_def magic_divisor_def sgn_if)
qed

definition sstop :: "int \<Rightarrow> int \<Rightarrow> nat \<Rightarrow> bool" where
  "sstop anc ad p \<longleftrightarrow> anc * (ad - 2 ^ p mod ad) < 2 ^ p"

lemma double_div':
  fixes a n :: int
  assumes "0 < n"
  shows "(if a mod n * 2 \<ge> n then (a div n * 2 + 1, a mod n * 2 - n) else (a div n * 2, a mod n * 2)) = (2 * a div n, 2 * a mod n)"
  unfolding double_div[OF assms, symmetric] by auto

lemma magics_loop_step:
  fixes w :: nat
  assumes "0 < n" and "0 < d"
  defines "loop \<equiv> \<lambda>p. magics_loop w n d p (2 ^ p div n) (2 ^ p mod n) (2 ^ p div d) (2 ^ p mod d)"
  shows "loop p = (if sstop n d (p + 1) then Some (p + 1, 2 ^ (p + 1) div d)
    else if p + 1 > 2 * w + 4 then None else loop (p + 1))"
proof -
  have pow: "2 * 2 ^ p = (2 :: int) ^ (p + 1)" by simp
  show ?thesis
    unfolding loop_def magics_loop.simps[of w n d p] Let_def double_div'[OF assms(1)] double_div'[OF assms(2)] pow prod.case
      exit_condition[OF assms(1)] sstop_def ..
qed

text \<open>The low \<open>w\<close> bits of a multiplier, read as a signed number, give back its magnitude.\<close>

definition sign_reduce :: "nat \<Rightarrow> int \<Rightarrow> int" where
  "sign_reduce w m = (let low = m AND (2 ^ w - 1) in if drop_bit (w - 1) low AND 1 = 1 then low - 2 ^ w else low)"

lemma sign_reduce_eq:
  assumes "1 \<le> w"
  shows "sign_reduce w m = (let low = m mod 2 ^ w in if 2 ^ (w - 1) \<le> low then low - 2 ^ w else low)"
proof -
  have w: "(2 :: int) ^ w = 2 * 2 ^ (w - 1)" using assms by (cases w) auto
  define low where "low = m mod 2 ^ w"
  have low: "0 \<le> low" "low < 2 * 2 ^ (w - 1)" using w by (auto simp: low_def)
  have "low div 2 ^ (w - 1) mod 2 = (if 2 ^ (w - 1) \<le> low then 1 else 0)"
  proof (cases "2 ^ (w - 1) \<le> low")
    case True
    then have "low div 2 ^ (w - 1) = 1" using low by (subst div_eq_iff) auto
    with True show ?thesis by simp
  next
    case False
    then have "low div 2 ^ (w - 1) = 0" using low by simp
    with False show ?thesis by simp
  qed
  then show ?thesis by (simp add: sign_reduce_def Let_def and_ones drop_bit_eq_div and_one_eq flip: low_def)
qed

lemma sign_reduce_magnitude:
  assumes "0 < M" and "M < 2 ^ w" and "1 \<le> w" and "d \<noteq> 0"
  defines "mm \<equiv> sign_reduce w (if d < 0 then - M else M)"
  shows "eff_magnitude w d mm = M" and "- (2 ^ (w - 1)) \<le> mm" and "mm < 2 ^ (w - 1)"
proof -
  have w: "(2 :: int) ^ w = 2 * 2 ^ (w - 1)" using assms by (cases w) auto
  have "- M mod 2 ^ w = 2 ^ w - M" using assms by (intro int_mod_pos_eq[of _ _ "- 1"]) auto
  then have "mm = (let low = if d < 0 then 2 ^ w - M else M in if 2 ^ (w - 1) \<le> low then low - 2 ^ w else low)"
    using assms by (auto simp: mm_def sign_reduce_eq Let_def)
  then show "eff_magnitude w d mm = M" "- (2 ^ (w - 1)) \<le> mm" "mm < 2 ^ (w - 1)"
    using assms w by (auto simp: eff_magnitude_def Let_def split: if_splits)
qed

lemma signed_excess:
  fixes a x :: int
  assumes "0 < a" and "x mod a \<noteq> 0"
  shows "0 < a - x mod a" and "a - x mod a < a" and "(x div a + 1) * a = x + (a - x mod a)"
proof -
  have r: "0 \<le> x mod a" "x mod a < a" using assms(1) by auto
  then show "0 < a - x mod a" "a - x mod a < a" using assms(2) by linarith+
  have "x div a * a = x - x mod a" by (simp add: minus_mod_eq_div_mult)
  then show "(x div a + 1) * a = x + (a - x mod a)" by (simp add: distrib_right)
qed

lemma magics_spec:
  assumes "magic_divisor (width_bits width) d"
  shows "\<exists>m. magics d width = Some m \<and> ms_shift m + 2 \<le> width_bits width
    \<and> - (2 ^ (width_bits width - 1)) \<le> ms_magic m \<and> ms_magic m < 2 ^ (width_bits width - 1)
    \<and> band (tmax (width_bits width) d) \<bar>d\<bar> (eff_magnitude (width_bits width) d (ms_magic m)) (width_bits width + ms_shift m)"
proof -
  let ?w = "width_bits width" and ?a = "\<bar>d\<bar>"
  let ?n = "worst (tmax ?w d) ?a"
  have w: "?w \<le> 64" "2 \<le> ?w" using width_bits_cases[of width] by auto
  have d: "1 < ?a" "?a AND (?a - 1) \<noteq> 0" "- (2 ^ (?w - 1)) \<le> d" "d < 2 ^ (?w - 1)" using assms by (auto simp: magic_divisor_def)
  have a: "0 < ?a" "?a \<le> 2 ^ (?w - 1)" using d by auto
  note t = tmax_bounds[OF assms w]
  have n: "0 < ?n" "?n \<le> 2 ^ (?w - 1)" using worst_props[OF d(1) t(1)] t(2) by auto
  from bit_length[OF d(1) a(2)] obtain l where l: "0 < l" "l \<le> ?w - 1" "2 ^ (l - 1) < ?a" "?a \<le> 2 ^ l" .
  have nd: "2 ^ p mod ?a \<noteq> 0" for p
    using not_pow2_excess[OF d(2) a(1), of "2 ^ p div ?a" p] by (metis div_mult_mod_eq add.right_neutral)
  have ex: "0 < ?a - 2 ^ p mod ?a" "?a - 2 ^ p mod ?a < ?a" "(2 ^ p div ?a + 1) * ?a = 2 ^ p + (?a - 2 ^ p mod ?a)" for p
    using signed_excess[OF a(1) nd] by blast+
  define loop where "loop = (\<lambda>p. magics_loop ?w ?n ?a p (2 ^ p div ?n) (2 ^ p mod ?n) (2 ^ p div ?a) (2 ^ p mod ?a))"
  have "?n * (?a - 2 ^ (?w - 1 + l) mod ?a) < 2 ^ (?w - 1) * 2 ^ l"
    using ex[of "?w - 1 + l"] n l(4) by (intro mult_le_less_imp_less) auto
  then have stop: "sstop ?n ?a (?w - 1 + l)" by (simp add: sstop_def power_add)
  have step: "loop p = (if sstop ?n ?a (p + 1) then Some (p + 1, 2 ^ (p + 1) div ?a)
      else if p + 1 > 2 * ?w + 4 then None else loop (p + 1))" for p
    unfolding loop_def using n(1) a(1) by (intro magics_loop_step) auto
  have le: "?w - 1 + l \<le> 2 * ?w + 5" "?w - 1 < ?w - 1 + l" "?w \<le> ?w - 1 + 1" using l w by auto
  from loop_first[where loop = loop and w = ?w and stop = "sstop ?n ?a" and res = "\<lambda>p. 2 ^ p div ?a", OF step stop le]
  obtain p where p: "loop (?w - 1) = Some (p, 2 ^ p div ?a)" "sstop ?n ?a p" "?w - 1 < p" "p \<le> ?w - 1 + l" by blast
  define M where "M = 2 ^ p div ?a + 1"
  have "M * ?a \<le> 2 ^ p + (?a - 2 ^ p mod ?a)" unfolding M_def ex(3)[of p] ..
  then have "M < 2 ^ (?w - 1 + 1)" by (rule multiplier_bound[OF l(1,3) a(2) _ ex(2) p(4)])
  moreover have "?w - 1 + 1 = ?w" using w by simp
  moreover have "0 \<le> 2 ^ p div ?a" using a(1) by (simp only: pos_imp_zdiv_nonneg_iff) simp
  ultimately have M: "0 < M" "M < 2 ^ ?w" by (simp_all add: M_def)
  have d0: "d \<noteq> 0" "1 \<le> ?w" using d(1) w by auto
  note sr = sign_reduce_magnitude[OF M d0(2,1)]
  define m where "m = \<lparr>ms_magic = sign_reduce ?w (if d < 0 then - M else M), ms_shift = p - ?w\<rparr>"
  have r: "x - x div k * k = x mod k" for x k :: int by (simp add: minus_div_mult_eq_mod)
  have "magics_bits d ?w = Some (ms_magic m, ms_shift m)"
    unfolding magics_bits_def Let_def tmax_def[symmetric] worst_def[symmetric] r
    using w d p(1) by (auto simp: m_def M_def loop_def sign_reduce_def Let_def)
  then have "magics d width = Some m" by (simp add: magics_def m_def)
  moreover have "?w + ms_shift m = p" "ms_shift m + 2 \<le> ?w" using p(3,4) l(2) w by (auto simp: m_def)
  moreover have "band (tmax ?w d) ?a M p"
    using p(2) ex(1)[of p] unfolding band_def sstop_def M_def ex(3) by (simp add: algebra_simps)
  ultimately show ?thesis using sr by (auto simp: m_def)
qed

section \<open>Properties\<close>

lemma magicu_shift_bound:
  assumes "1 < uint d" and "uint d < 2 ^ width_bits width" and "magicu d width = Some m"
  shows "mu_shift m \<le> width_bits width" and "uint (mu_magic m) < 2 ^ width_bits width"
    and "band (2 ^ width_bits width) (uint d) (multiplier m width) (width_bits width + mu_shift m)"
  using magicu_spec[OF assms(1,2)] assms(3) by auto

lemma band_holds_cases:
  assumes "1 < uint d" and "uint d < 2 ^ width_bits width" and "magicu d width = Some m"
  shows "band_holds d m width \<longleftrightarrow> mu_shift m < 64"
  using band_holds_iff[OF assms(1,2), of m] magicu_shift_bound[OF assms] width_bits_cases[of width] by auto

text \<open>C8. The unsigned band check is exact. For a divisor of at least 2 and any magic number
  whose shift it admits, the check accepts if and only if the scaled product is the
  quotient for every dividend of the width: it never accepts a wrong reciprocal and never refuses
  a right one.\<close>

theorem band_holds_exact:
  assumes "1 < uint d" and "uint d < 2 ^ width_bits width" and "mu_shift m < 64" and "width_bits width + mu_shift m < 128"
  shows "band_holds d m width \<longleftrightarrow> (\<forall>x. 0 \<le> x \<and> x < 2 ^ width_bits width \<longrightarrow>
    x * multiplier m width div 2 ^ (width_bits width + mu_shift m) = x div uint d)"
  using band_holds_iff[OF assms(1,2), of m] assms quotient_exact[of "uint d" "2 ^ width_bits width" "multiplier m width"]
    band_necessary[of "uint d" "2 ^ width_bits width" "multiplier m width"]
  by (meson less_imp_le)

theorem band_holds_exact_witness:
  "band_holds 7 \<lparr>mu_magic = 0x24924925, mu_shift = 3, mu_add = True\<rparr> W32
   \<and> 100 * multiplier \<lparr>mu_magic = 0x24924925, mu_shift = 3, mu_add = True\<rparr> W32 div 2 ^ 35 = (100 :: int) div 7"
proof -
  let ?m = "\<lparr>mu_magic = 0x24924925, mu_shift = 3, mu_add = True\<rparr>"
  have "band_holds 7 ?m W32" using band_holds_iff[of 7 W32 ?m] by (simp add: band_def worst_def multiplier_def)
  with band_holds_exact[of 7 W32 ?m] show ?thesis by auto
qed

text \<open>C10. The magic number computation succeeds on every divisor from 2 up to the width's maximum,
  within its loop bound, and its result passes the band check whenever its shift is below 64;
  at 32 bits that is every divisor.\<close>

theorem magicu_accepted:
  assumes "1 < uint d" and "uint d < 2 ^ width_bits width"
  shows "\<exists>m. magicu d width = Some m \<and> mu_shift m \<le> width_bits width
    \<and> (band_holds d m width \<longleftrightarrow> mu_shift m < 64) \<and> (width = W32 \<longrightarrow> band_holds d m width)"
proof -
  from magicu_spec[OF assms] obtain m where m: "magicu d width = Some m" by blast
  with magicu_shift_bound[OF assms m] band_holds_cases[OF assms m] show ?thesis by (cases width) auto
qed

theorem magicu_accepted_witness: "\<exists>m. magicu 10 W32 = Some m \<and> mu_shift m \<le> 32 \<and> band_holds 10 m W32"
  using magicu_accepted[of 10 W32] by auto


text \<open>The quotient the emitted signed sequence forms: the high half of the product, the
  correction chosen from the signs, the arithmetic shift, and one more when negative.\<close>

definition smagic_quotient :: "nat \<Rightarrow> int \<Rightarrow> magic_s \<Rightarrow> int \<Rightarrow> int" where
  "smagic_quotient w d m x = (let hi = x * ms_magic m div 2 ^ w;
       c = (if 0 < d \<and> ms_magic m < 0 then hi + x else if d < 0 \<and> 0 < ms_magic m then hi - x else hi);
       q = c div 2 ^ ms_shift m
     in q + (if q < 0 then 1 else 0))"

lemma corrected_quotient:
  fixes x mm :: int
  assumes "magic_divisor w d" and "2 \<le> w" and "w \<le> 64" and "- (2 ^ (w - 1)) \<le> mm" and "mm < 2 ^ (w - 1)"
    and "band (tmax w d) \<bar>d\<bar> (eff_magnitude w d mm) (w + s)"
  shows "(if 0 < d \<and> mm < 0 then x * mm div 2 ^ w + x else if d < 0 \<and> 0 < mm then x * mm div 2 ^ w - x else x * mm div 2 ^ w)
    = x * (sgn d * eff_magnitude w d mm) div 2 ^ w"
proof -
  have p: "x * (mm + 2 ^ w) div 2 ^ w = x * mm div 2 ^ w + x" "x * (mm - 2 ^ w) div 2 ^ w = x * mm div 2 ^ w - x"
    using div_mult_self1[of "2 ^ w" "x * mm" x] div_mult_self1[of "2 ^ w" "x * mm" "- x"] by (simp_all add: algebra_simps)
  show ?thesis unfolding effective_multiplier(1)[OF assms, symmetric] using p by simp
qed

lemma smagic_quotient_eq:
  assumes "magic_divisor w d" and "2 \<le> w" and "w \<le> 64" and "- (2 ^ (w - 1)) \<le> ms_magic m" and "ms_magic m < 2 ^ (w - 1)"
    and "band (tmax w d) \<bar>d\<bar> (eff_magnitude w d (ms_magic m)) (w + ms_shift m)"
    and "- (2 ^ (w - 1)) \<le> x" and "x < 2 ^ (w - 1)"
  shows "smagic_quotient w d m x = x sdiv d"
proof -
  let ?M = "eff_magnitude w d (ms_magic m)"
  have "smagic_quotient w d m x = (let q = x * (sgn d * ?M) div 2 ^ w div 2 ^ ms_shift m in q + (if q < 0 then 1 else 0))"
    unfolding smagic_quotient_def Let_def corrected_quotient[OF assms(1-6)] ..
  also have "\<dots> = (let q = x * (sgn d * ?M) div 2 ^ (w + ms_shift m) in q + (if q < 0 then 1 else 0))"
    by (simp add: power_add zdiv_zmult2_eq)
  also have "\<dots> = x sdiv d"
    using signed_quotient[OF assms(2,7,8) _ _ _ _ effective_multiplier(2)[OF assms(1-6)] assms(6)] assms(1)
    by (simp add: magic_divisor_def Let_def)
  finally show ?thesis .
qed

text \<open>C9. The signed band check is sound: when it accepts a magic number of the width, the
  corrected and rounded high product is the truncating quotient for every signed dividend of
  the width, the most negative one included.\<close>

theorem smagic_band_sound:
  assumes "magic_divisor (width_bits width) d"
    and "- (2 ^ (width_bits width - 1)) \<le> ms_magic m" and "ms_magic m < 2 ^ (width_bits width - 1)"
    and "smagic_band_holds d m width"
    and "- (2 ^ (width_bits width - 1)) \<le> x" and "x < 2 ^ (width_bits width - 1)"
  shows "smagic_quotient (width_bits width) d m x = x sdiv d"
  using assms smagic_band_iff[OF assms(1-3)] width_bits_cases[of width] by (intro smagic_quotient_eq) auto

text \<open>C11. The signed magic number computation succeeds on every signed divisor of the width that
  is not zero, one, minus one or a power of two in magnitude, and its result passes the
  signed band check.\<close>

theorem magics_accepted:
  assumes "magic_divisor (width_bits width) d"
  shows "\<exists>m. magics d width = Some m \<and> smagic_band_holds d m width \<and> ms_shift m + 2 \<le> width_bits width
    \<and> - (2 ^ (width_bits width - 1)) \<le> ms_magic m \<and> ms_magic m < 2 ^ (width_bits width - 1)"
  using magics_spec[OF assms] smagic_band_iff[OF assms] by fastforce

lemma magic_divisor_7: "magic_divisor 32 (- 7)"
  by (simp add: magic_divisor_def)

theorem magics_accepted_witness:
  "magic_divisor 32 (- 7) \<and> (\<exists>m. magics (- 7) W32 = Some m \<and> smagic_band_holds (- 7) m W32)"
  using magics_accepted[of W32 "- 7"] magic_divisor_7 by auto

theorem smagic_band_sound_witness:
  "smagic_band_holds (- 7) \<lparr>ms_magic = 0x6DB6DB6D, ms_shift = 2\<rparr> W32
   \<and> smagic_quotient 32 (- 7) \<lparr>ms_magic = 0x6DB6DB6D, ms_shift = 2\<rparr> (- 2147483648) = (- 2147483648) sdiv (- 7)"
proof -
  let ?m = "\<lparr>ms_magic = 0x6DB6DB6D, ms_shift = 2\<rparr>"
  have "smagic_band_holds (- 7) ?m W32"
    using smagic_band_iff[of W32 "- 7" ?m] magic_divisor_7 by (simp add: band_def worst_def tmax_def eff_magnitude_def)
  with smagic_band_sound[of W32 "- 7" ?m "- 2147483648"] magic_divisor_7 show ?thesis by simp
qed

end
