(* ===== verification/Const_Div.thy ===== *)
theory Const_Div
  imports A64_Logic Magic_Div
begin

text \<open>
  Division and remainder by a compile-time constant on AArch64:
  \<open>try_select_const_div_rem\<close> and \<open>finish_const_div_rem\<close> of
  \<open>trust-cg-lower/src/isel.rs\<close>. A path of the first function is a definition that returns
  the quotient register; \<open>disabled\<close> is the kill switch \<open>TCG_NO_SMULL_DIV\<close>. The lemmas show that
  the code every path emits leaves the quotient, or the remainder, in the register it returns,
  for every dividend.
\<close>

section \<open>Powers of two\<close>

definition count_ones :: "u64 \<Rightarrow> nat" where
  "count_ones v = length (filter (bit v) [0 ..< 64])"

definition is_power_of_two :: "u64 \<Rightarrow> bool" where
  "is_power_of_two v \<longleftrightarrow> count_ones v = 1"

definition trailing_zeros :: "u64 \<Rightarrow> nat" where
  "trailing_zeros v = length (takeWhile (\<lambda>i. \<not> bit v i) [0 ..< 64])"

section \<open>The quotient\<close>

definition narrow_result :: "bool \<Rightarrow> vreg \<Rightarrow> selector \<Rightarrow> vreg \<times> selector" where
  "narrow_result is_32 src st =
     (if is_32 \<and> v_class src \<noteq> Gpr32
      then let (d, st) = new_vreg Gpr32 st in (d, emit MovR [VReg d, VReg src] st)
      else (src, st))"

definition pow2_quotient :: "bool \<Rightarrow> reg_class \<Rightarrow> int \<Rightarrow> isel_operand \<Rightarrow> int \<Rightarrow> int \<Rightarrow> selector \<Rightarrow> vreg \<times> selector" where
  "pow2_quotient is_signed opw wbits x k divisor_s st =
     (if \<not> is_signed then magic_shift_imm LsrRI opw x k st
      else let (t1, st) = magic_shift_imm AsrRI opw x (k - 1) st;
               (t2, st) = magic_shift_imm LsrRI opw (VReg t1) (wbits - k) st;
               (sm, st) = magic_rr AddRR opw x (VReg t2) st;
               (q, st) = magic_shift_imm AsrRI opw (VReg sm) k st
           in if divisor_s < 0 then magic_rr SubRR opw (PReg XZR) (VReg q) st else (q, st))"

text \<open>The add-back of a multiplier that does not fit its register.\<close>

definition add_back :: "reg_class \<Rightarrow> isel_operand \<Rightarrow> vreg \<Rightarrow> nat \<Rightarrow> selector \<Rightarrow> vreg \<times> selector" where
  "add_back cl x mh shift st =
     (let (sub, st) = magic_rr SubRR cl x (VReg mh) st;
          (sub1, st) = magic_shift_imm LsrRI cl (VReg sub) 1 st;
          (t, st) = magic_rr AddRR cl (VReg mh) (VReg sub1) st
      in if shift = 1 then (t, st) else magic_shift_imm LsrRI cl (VReg t) (int shift - 1) st)"

definition umull_quotient :: "isel_operand \<Rightarrow> magic_u \<Rightarrow> selector \<Rightarrow> vreg \<times> selector" where
  "umull_quotient x m st =
     (let (mm, st) = magic_mat I32 (signed_take_bit 31 (uint (mu_magic m))) st;
          (xp, st) = magic_rr64 Umull x (VReg mm) st
      in if \<not> mu_add m
         then let (q64, st) = magic_shift_imm LsrRI Gpr64 (VReg xp) (32 + int (mu_shift m)) st in narrow_result True q64 st
         else let (mh64, st) = magic_shift_imm LsrRI Gpr64 (VReg xp) 32 st;
                  (mh, st) = narrow_result True mh64 st
              in add_back Gpr32 x mh (mu_shift m) st)"

text \<open>The correction by the signs of the divisor and the multiplier, in either class.\<close>

definition sign_correct :: "reg_class \<Rightarrow> int \<Rightarrow> int \<Rightarrow> vreg \<Rightarrow> isel_operand \<Rightarrow> selector \<Rightarrow> vreg \<times> selector" where
  "sign_correct cl divisor_s magic mh x st =
     (if divisor_s > 0 \<and> magic < 0 then magic_rr AddRR cl (VReg mh) x st
      else if divisor_s < 0 \<and> magic > 0 then magic_rr SubRR cl (VReg mh) x st
      else (mh, st))"

definition smull_quotient :: "isel_operand \<Rightarrow> magic_s \<Rightarrow> int \<Rightarrow> selector \<Rightarrow> vreg \<times> selector" where
  "smull_quotient x m divisor_s st =
     (let (mm, st) = magic_mat I32 (signed_take_bit 31 (ms_magic m)) st;
          (xp, st) = magic_rr64 Smull x (VReg mm) st;
          (mh, st) = magic_shift_imm LsrRI Gpr64 (VReg xp) 32 st;
          (corrected, st) = sign_correct Gpr32 divisor_s (ms_magic m) mh x st;
          (shifted, st) = (if ms_shift m = 0 then (corrected, st)
            else magic_shift_imm AsrRI Gpr32 (VReg corrected) (int (ms_shift m)) st);
          (sb, st) = magic_shift_imm LsrRI Gpr32 (VReg shifted) 31 st
      in magic_rr AddRR Gpr32 (VReg shifted) (VReg sb) st)"

definition widen :: "bool \<Rightarrow> bool \<Rightarrow> isel_operand \<Rightarrow> selector \<Rightarrow> isel_operand \<times> selector" where
  "widen is_32 is_signed x st =
     (if is_32 then let (d, st) = new_vreg Gpr64 st;
          opc = (if is_signed then Sxtw else Uxtw)
        in (VReg d, emit opc [VReg d, x] st)
      else (x, st))"

definition wide_quotient_u :: "bool \<Rightarrow> isel_operand \<Rightarrow> isel_operand \<Rightarrow> magic_u \<Rightarrow> selector \<Rightarrow> vreg \<times> selector" where
  "wide_quotient_u is_32 x x64 m st =
     (let (mm, st) = magic_mat I64 (sint (mu_magic m)) st in
      if is_32
      then let (xp, st) = magic_rr64 MulRR x64 (VReg mm) st in
        if \<not> mu_add m then magic_shift_imm LsrRI Gpr64 (VReg xp) (32 + int (mu_shift m)) st
        else let (mh64, st) = magic_shift_imm LsrRI Gpr64 (VReg xp) 32 st;
                 (mh, st) = narrow_result is_32 mh64 st
             in add_back Gpr32 x mh (mu_shift m) st
      else let (mh, st) = magic_rr64 Umulh x64 (VReg mm) st in
        if \<not> mu_add m
        then if mu_shift m = 0 then (mh, st) else magic_shift_imm LsrRI Gpr64 (VReg mh) (int (mu_shift m)) st
        else add_back Gpr64 x64 mh (mu_shift m) st)"

definition wide_quotient_s :: "bool \<Rightarrow> isel_operand \<Rightarrow> magic_s \<Rightarrow> int \<Rightarrow> selector \<Rightarrow> vreg \<times> selector" where
  "wide_quotient_s is_32 x64 m divisor_s st =
     (let (mm, st) = magic_mat I64 (ms_magic m) st;
          (smulhi, st) = (if is_32
            then let (xp, st) = magic_rr64 MulRR x64 (VReg mm) st in magic_shift_imm AsrRI Gpr64 (VReg xp) 32 st
            else magic_rr64 Smulh x64 (VReg mm) st);
          (corrected, st) = sign_correct Gpr64 divisor_s (ms_magic m) smulhi x64 st;
          (shifted, st) = (if ms_shift m = 0 then (corrected, st)
            else magic_shift_imm AsrRI Gpr64 (VReg corrected) (int (ms_shift m)) st)
      in if is_32
         then let (qw, st) = narrow_result is_32 shifted st;
                  (sb, st) = magic_shift_imm LsrRI Gpr32 (VReg qw) 31 st
              in magic_rr AddRR Gpr32 (VReg qw) (VReg sb) st
         else let (sb, st) = magic_shift_imm LsrRI Gpr64 (VReg shifted) 63 st
              in magic_rr64 AddRR (VReg shifted) (VReg sb) st)"

text \<open>
  The paths of \<open>try_select_const_div_rem\<close> after its guards. \<open>None\<close> is a declined divisor;
  the widening of the dividend that the last path emits first then stays in the block.
\<close>

definition const_quotient :: "bool \<Rightarrow> bool \<Rightarrow> magic_width \<Rightarrow> isel_operand \<Rightarrow> int \<Rightarrow> u64 \<Rightarrow> selector \<Rightarrow> vreg option \<times> selector" where
  "const_quotient disabled is_signed width x divisor_s divisor_u st =
     (let is_32 = (width = W32);
          opw = (if is_32 then Gpr32 else Gpr64);
          wbits = (if is_32 then 32 else 64);
          abs_d = (if is_signed then word_of_int \<bar>divisor_s\<bar> else divisor_u);
          found = (\<lambda>(q, st). (Some q, st))
      in if is_power_of_two abs_d
         then found (pow2_quotient is_signed opw wbits x (int (trailing_zeros abs_d)) divisor_s st)
         else if is_32 \<and> \<not> disabled
         then if \<not> is_signed
              then (case magicu divisor_u width of None \<Rightarrow> (None, st)
                | Some m \<Rightarrow> if \<not> band_holds divisor_u m width \<or> (mu_add m \<and> mu_shift m = 0) then (None, st)
                    else found (umull_quotient x m st))
              else (case magics divisor_s width of None \<Rightarrow> (None, st)
                | Some m \<Rightarrow> if \<not> smagic_band_holds divisor_s m width then (None, st)
                    else found (smull_quotient x m divisor_s st))
         else let (x64, st) = widen is_32 is_signed x st in
              if \<not> is_signed
              then (case magicu divisor_u width of None \<Rightarrow> (None, st)
                | Some m \<Rightarrow> if \<not> band_holds divisor_u m width \<or> (mu_add m \<and> mu_shift m = 0) then (None, st)
                    else found (let (q, st) = wide_quotient_u is_32 x x64 m st in narrow_result is_32 q st))
              else (case magics divisor_s width of None \<Rightarrow> (None, st)
                | Some m \<Rightarrow> if \<not> smagic_band_holds divisor_s m width then (None, st)
                    else found (let (q, st) = wide_quotient_s is_32 x64 m divisor_s st in narrow_result is_32 q st)))"

section \<open>The remainder\<close>

text \<open>\<open>|c|\<close> as \<open>2 ^ k - 1\<close> or \<open>2 ^ k + 1\<close>.\<close>

definition mersenne_form :: "bool \<Rightarrow> nat \<Rightarrow> u64 \<Rightarrow> (int \<times> bool) option" where
  "mersenne_form disabled wb a =
     (if disabled \<or> a < 3 then None
      else if a \<noteq> - 1 \<and> is_power_of_two (a + 1)
      then let k = trailing_zeros (a + 1) in if 1 \<le> k \<and> k < wb then Some (int k, True) else None
      else if is_power_of_two (a - 1)
      then let k = trailing_zeros (a - 1) in if 1 \<le> k \<and> k < wb then Some (int k, False) else None
      else None)"

definition mersenne_rem :: "reg_class \<Rightarrow> bool \<Rightarrow> isel_operand \<Rightarrow> vreg \<Rightarrow> int \<Rightarrow> bool \<Rightarrow> selector \<Rightarrow> vreg \<times> selector" where
  "mersenne_rem opw neg x quotient_w k is_minus st =
     (let (dst, st) = new_vreg opw st in
      if is_minus
      then let (t, st) = new_vreg opw st;
               st = emit SubRRShift [VReg t, VReg quotient_w, VReg quotient_w, Imm k] st;
               opc = (if neg then SubRR else AddRR)
           in (dst, emit opc [VReg dst, x, VReg t] st)
      else let (u, st) = new_vreg opw st;
               u_opc = (if neg then AddRR else SubRR);
               st = emit u_opc [VReg u, x, VReg quotient_w] st;
               shift_opc = (if neg then AddRRShift else SubRRShift)
           in (dst, emit shift_opc [VReg dst, VReg u, VReg quotient_w, Imm k] st))"

definition msub_rem :: "bool \<Rightarrow> bool \<Rightarrow> lir_type \<Rightarrow> isel_operand \<Rightarrow> vreg \<Rightarrow> int \<Rightarrow> u64 \<Rightarrow> selector \<Rightarrow> vreg \<times> selector" where
  "msub_rem is_signed is_32 ty x quotient_w divisor_s divisor_u st =
     (let cimm = (if is_32 then if is_signed then signed_take_bit 31 divisor_s else uint (take_bit 32 divisor_u)
                  else divisor_s);
          (c, st) = magic_mat ty cimm st;
          (dst, st) = new_vreg (reg_class_for_type ty) st
      in (dst, emit Msub [VReg dst, VReg quotient_w, VReg c, x] st))"

definition finish_const_div_rem ::
    "bool \<Rightarrow> bool \<Rightarrow> bool \<Rightarrow> bool \<Rightarrow> lir_type \<Rightarrow> nat \<Rightarrow> isel_operand \<Rightarrow> vreg \<Rightarrow> int \<Rightarrow> u64 \<Rightarrow> selector \<Rightarrow> selector" where
  "finish_const_div_rem disabled is_rem is_signed is_32 ty result_val x quotient_w divisor_s divisor_u st =
     (if \<not> is_rem then define_value result_val (VReg quotient_w) ty st
      else let opw = reg_class_for_type ty;
               wb = (if is_32 then 32 else 64);
               ds = (if is_32 then signed_take_bit 31 divisor_s else divisor_s);
               a = (if is_signed then word_of_int \<bar>ds\<bar> else if is_32 then divisor_u AND 0xFFFFFFFF else divisor_u);
               neg = (is_signed \<and> ds < 0);
               (dst, st) = (case mersenne_form disabled wb a of
                   Some (k, is_minus) \<Rightarrow> mersenne_rem opw neg x quotient_w k is_minus st
                 | None \<Rightarrow> msub_rem is_signed is_32 ty x quotient_w divisor_s divisor_u st)
           in define_value result_val (VReg dst) ty st)"

definition try_select_const_div_rem ::
    "bool \<Rightarrow> instruction \<Rightarrow> bool \<Rightarrow> bool \<Rightarrow> lir_type \<Rightarrow> selector \<Rightarrow> (isel_error, bool \<times> selector) result" where
  "try_select_const_div_rem disabled inst is_signed is_rem ty st =
     (if ty \<noteq> I32 \<and> ty \<noteq> I64 then Inr (False, st)
      else let width = (if ty = I32 then W32 else W64); is_32 = (width = W32) in
        case iconst_origins st (args inst ! 1) of None \<Rightarrow> Inr (False, st)
        | Some (_, imm) \<Rightarrow>
          let divisor_u = (if is_32 then take_bit 32 (word_of_int imm) else word_of_int imm);
              divisor_s = (if is_32 then signed_take_bit 31 imm else imm)
          in if (if is_signed then divisor_s = 0 \<or> divisor_s = 1 \<or> divisor_s = - 1 else divisor_u \<le> 1)
             then Inr (False, st)
             else rbind (use_value (args inst ! 0) st) (\<lambda>(x, st).
               case const_quotient disabled is_signed width x divisor_s divisor_u st of
                 (None, st) \<Rightarrow> Inr (False, st)
               | (Some q, st) \<Rightarrow> Inr (True,
                   finish_const_div_rem disabled is_rem is_signed is_32 ty (results inst ! 0) x q divisor_s divisor_u st)))"

section \<open>Arithmetic of the paths\<close>

lemma power_of_two_bit:
  assumes "is_power_of_two v"
  shows "\<exists>k < 64. v = push_bit k 1"
proof -
  from assms obtain k where k: "filter (bit v) [0 ..< 64] = [k]"
    by (auto simp: is_power_of_two_def count_ones_def length_Suc_conv)
  have b: "bit v i \<longleftrightarrow> i = k" if "i < 64" for i
    using arg_cong[OF k, of set] that by auto
  have "k < 64" using arg_cong[OF k, of set] by auto
  moreover have "v = push_bit k 1" using b \<open>k < 64\<close> by (intro bit_word_eqI) (auto simp: bit_simps)
  ultimately show ?thesis by blast
qed

lemma trailing_zeros_push: "k < 64 \<Longrightarrow> trailing_zeros (push_bit k 1) = k"
proof -
  assume k: "k < 64"
  have split: "[0 ..< 64] = [0 ..< k] @ k # [Suc k ..< 64]"
    using k upt_add_eq_append[of 0 k "64 - k"] upt_conv_Cons[of k 64] by simp
  have "\<not> bit (push_bit k (1 :: u64)) i" if "i \<in> set [0 ..< k]" for i using that by (auto simp: bit_simps)
  moreover have "bit (push_bit k (1 :: u64)) k" using k by (simp add: bit_simps)
  ultimately show ?thesis unfolding trailing_zeros_def split by (simp add: takeWhile_append)
qed

lemma power_of_two:
  assumes "is_power_of_two v"
  shows "uint v = 2 ^ trailing_zeros v" and "trailing_zeros v < 64"
proof -
  from power_of_two_bit[OF assms] obtain k where k: "k < 64" "v = push_bit k 1" by blast
  then have t: "trailing_zeros v = k" using trailing_zeros_push[OF k(1)] by (simp only:)
  have "(2 :: int) ^ k < 2 ^ 64" using k(1) by (intro power_strict_increasing) auto
  then have "uint (word_of_int (2 ^ k) :: u64) = 2 ^ k" using k(1) by (simp only: uint_u64) (simp add: take_bit_int_eq_self)
  moreover have "v = word_of_int (2 ^ k)" by (simp add: k(2) push_bit_eq_mult)
  ultimately show "uint v = 2 ^ trailing_zeros v" unfolding t by simp
  show "trailing_zeros v < 64" using k t by simp
qed

lemma int_div_less:
  fixes S K B :: int
  assumes "0 < K" and "S < B * K"
  shows "S div K < B"
proof (rule ccontr)
  assume "\<not> S div K < B"
  then have "B * K \<le> S div K * K" using assms(1) by (intro mult_right_mono) auto
  also have "\<dots> \<le> S" using div_eq_iff[OF assms(1), of S "S div K"] by simp
  finally show False using assms(2) by simp
qed

lemma int_le_div: "0 < K \<Longrightarrow> B * K \<le> S \<Longrightarrow> B \<le> S div (K :: int)"
  using zdiv_mono1[of "B * K" S K] by simp

text \<open>The bias of the round-toward-zero idiom.\<close>

lemma pow2_bias:
  fixes S :: int
  assumes "1 \<le> k" and "k < w" and "- (2 ^ (w - 1)) \<le> S" and "S < 2 ^ (w - 1)"
  shows "take_bit w (S div 2 ^ (k - 1)) div 2 ^ (w - k) = (if S < 0 then 2 ^ k - 1 else 0)"
proof -
  let ?t = "S div 2 ^ (k - 1)" and ?B = "(2 :: int) ^ (w - k)"
  have w1: "(2 :: int) ^ (w - 1) = ?B * 2 ^ (k - 1)" using assms by (simp flip: power_add)
  have w: "(2 :: int) ^ w = 2 ^ k * ?B" using assms by (simp flip: power_add)
  have lo: "- ?B \<le> ?t" using zdiv_mono1[of "- (2 ^ (w - 1))" S "2 ^ (k - 1)"] assms(3)
      nonzero_mult_div_cancel_right[of "2 ^ (k - 1)" "- ?B"] unfolding w1 by simp
  have hi: "?t < ?B" using assms(4) unfolding w1 by (intro int_div_less) auto
  have Bw: "?B \<le> 2 ^ w" by (intro power_increasing) auto
  show ?thesis
  proof (cases "S < 0")
    case True
    then have neg: "?t < 0" using int_div_less[of "2 ^ (k - 1)" S 0] by simp
    have "take_bit w ?t = ?t + 2 ^ w"
      using lo neg Bw int_mod_pos_eq[of ?t "2 ^ w" "- 1" "?t + 2 ^ w"] by (simp add: take_bit_eq_mod del: power_increasing_iff)
    moreover have "(?t + 2 ^ w) div ?B = 2 ^ k - 1"
      using lo neg unfolding w by (subst div_eq_iff) (auto simp: algebra_simps)
    ultimately show ?thesis using True by simp
  next
    case False
    then have "0 \<le> ?t" by (simp add: pos_imp_zdiv_nonneg_iff)
    moreover have "?t < 2 ^ w" using hi Bw by linarith
    ultimately have "take_bit w ?t = ?t" "?t div ?B = 0" using hi by (simp_all add: take_bit_int_eq_self)
    with False show ?thesis by simp
  qed
qed

lemma pow2_sdiv: "(S + (if S < 0 then 2 ^ k - 1 else 0)) div 2 ^ k = S sdiv (2 ^ k :: int)"
proof (cases "S < 0")
  case True
  have "(S + (2 ^ k - 1)) div 2 ^ k = - ((- S) div 2 ^ k)"
    using div_eq_iff[of "2 ^ k" "S + (2 ^ k - 1)" "- ((- S) div 2 ^ k)"] div_eq_iff[of "2 ^ k" "- S" "(- S) div 2 ^ k"]
    by (simp add: algebra_simps)
  with True show ?thesis by (simp add: signed_divide_int_def)
qed (auto simp: signed_divide_int_def sgn_if)

lemma sdiv_minus: "x sdiv (- d) = - (x sdiv d :: int)"
  by (simp add: signed_divide_int_def)

text \<open>The add-back forms the sum of the dividend and the high product without overflow.\<close>

lemma add_back_value:
  fixes X h :: int
  assumes "1 \<le> s"
  shows "(h + (X - h) div 2) div 2 ^ (s - 1) = (X + h) div 2 ^ s"
proof -
  have "h + (X - h) div 2 = (X + h) div 2"
    using div_mult_self1[of 2 "X - h" h] by (simp add: algebra_simps)
  moreover have "(2 :: int) ^ s = 2 * 2 ^ (s - 1)" using assms by (cases s) auto
  ultimately show ?thesis by (simp add: zdiv_zmult2_eq)
qed

section \<open>The emitted quotients\<close>

lemma yields_narrow:
  assumes "arg st r b (VReg d) n" and "v_class d = Gpr32 \<or> 32 \<le> b"
  shows "yields st r (min b 32) Gpr32 n (narrow_result True d st)"
proof (cases "v_class d = Gpr32")
  case True
  then show ?thesis using assms arg_mono[OF assms(1), of "min b 32"] by (auto simp: narrow_result_def intro: yields_ret)
next
  case False
  have m: "rep (min b 32) (opval (regs_of st r) (VReg d)) n" using assms(1) rep_mono[of b _ n "min b 32"] by (simp add: arg_def)
  have "rep (min b 32) (alu MovR Gpr32 old [opval (regs_of st r) (VReg d)]) n" for old
    by (rule rep_alu(10)[OF _ m m]) simp
  then show ?thesis using False assms(1) unfolding narrow_result_def Let_def
    by (auto simp: arg_def imms_def simp del: alu.simps intro!: yields_emit)
qed

lemma yields_add_back:
  assumes "arg st r (cbits cl) x X" and "arg st r (cbits cl) (VReg mh) h" and "0 \<le> h" and "h \<le> X" and "X < 2 ^ cbits cl"
    and "1 \<le> s" and "s \<le> cbits cl" and "v_class mh = cl"
  shows "yields st r (cbits cl) cl ((X + h) div 2 ^ s) (add_back cl x mh s st)"
  unfolding add_back_def Let_def
proof (rule yields_bind[OF yields_arith(2)[OF assms(1,2) order.refl]])
  fix sub s1
  assume k1: "keeps st s1 r" and a1: "arg s1 r (cbits cl) (VReg sub) (X - h)"
  have "1 < int (cbits cl)" by (cases cl) auto
  with assms have l: "yields s1 r (cbits cl) cl ((X - h) div 2 ^ nat 1) (magic_shift_imm LsrRI cl (VReg sub) 1 s1)"
    by (intro yields_lsr[OF a1]) auto
  show "yields s1 r (cbits cl) cl ((X + h) div 2 ^ s) (case magic_shift_imm LsrRI cl (VReg sub) 1 s1 of (sub1, st) \<Rightarrow>
      case magic_rr AddRR cl (VReg mh) (VReg sub1) st of
        (t, st) \<Rightarrow> if s = 1 then (t, st) else magic_shift_imm LsrRI cl (VReg t) (int s - 1) st)"
  proof (rule yields_bind[OF l])
    fix sub1 s2
    assume k2: "keeps s1 s2 r" and a2: "arg s2 r (cbits cl) (VReg sub1) ((X - h) div 2 ^ nat 1)"
    have mh: "arg s2 r (cbits cl) (VReg mh) h" using arg_keeps[OF keeps_trans[OF k1 k2] assms(2)] .
    let ?t = "h + (X - h) div 2 ^ nat 1"
    show "yields s2 r (cbits cl) cl ((X + h) div 2 ^ s) (case magic_rr AddRR cl (VReg mh) (VReg sub1) s2 of
        (t, st) \<Rightarrow> if s = 1 then (t, st) else magic_shift_imm LsrRI cl (VReg t) (int s - 1) st)"
    proof (rule yields_bind[OF yields_arith(1)[OF mh a2 order.refl]])
      fix t s3
      assume t: "v_class t = cl" "arg s3 r (cbits cl) (VReg t) ?t"
      have b: "0 \<le> ?t" "?t \<le> X" "?t < 2 ^ cbits cl" "int s - 1 < int (cbits cl)" using assms by auto
      have e: "(X + h) div 2 ^ s = ?t div 2 ^ nat (int s - 1)" using add_back_value[OF assms(6), of h X] assms(6)
        by (simp add: nat_diff_distrib nat_int)
      show "yields s3 r (cbits cl) cl ((X + h) div 2 ^ s)
          (if s = 1 then (t, s3) else magic_shift_imm LsrRI cl (VReg t) (int s - 1) s3)"
        unfolding e using t b assms(6) by (auto intro!: yields_lsr yields_ret)
    qed
  qed
qed

lemma yields_pow2_unsigned:
  assumes "arg st r (cbits cl) x X" and "0 \<le> X" and "X < 2 ^ cbits cl" and "0 \<le> k" and "k < int (cbits cl)"
  shows "yields st r (cbits cl) cl (X div 2 ^ nat k) (pow2_quotient False cl w x k d st)"
  using yields_lsr[OF assms] by (simp add: pow2_quotient_def)

lemma yields_pow2_signed:
  assumes x: "arg st r (cbits cl) x S" and S: "- (2 ^ (cbits cl - 1)) \<le> S" "S < 2 ^ (cbits cl - 1)"
    and k: "1 \<le> k" "k < cbits cl"
  shows "yields st r (cbits cl) cl (S sdiv (if d < 0 then - (2 ^ k) else 2 ^ k))
    (pow2_quotient True cl (int (cbits cl)) x (int k) d st)"
proof -
  let ?w = "cbits cl" and ?b = "if S < 0 then 2 ^ k - 1 else 0 :: int"
  define t1 where "t1 = take_bit ?w (S div 2 ^ (k - 1))"
  have n: "nat (int k - 1) = k - 1" "nat (int ?w - int k) = ?w - k" using k by auto
  have a: "yields st r ?w cl (S div 2 ^ (k - 1)) (magic_shift_imm AsrRI cl x (int k - 1) st)"
    using yields_asr[OF x S, of "int k - 1"] k by (simp add: n)
  have "(2 :: int) ^ k \<le> 2 ^ (?w - 1)" using k by (intro power_increasing) auto
  then have "S + ?b < 2 ^ (?w - 1)" using S(2) by (cases "S < 0") (simp_all del: power_increasing_iff)
  moreover have "- (2 ^ (?w - 1)) \<le> S + ?b" using S(1) one_le_power[of "2 :: int" k] by (auto simp del: one_le_power)
  ultimately have b: "- (2 ^ (?w - 1)) \<le> S + ?b" "S + ?b < 2 ^ (?w - 1)" by blast+
  have "yields st r ?w cl (if d < 0 then 0 - S sdiv 2 ^ k else S sdiv 2 ^ k) (pow2_quotient True cl (int ?w) x (int k) d st)"
    unfolding pow2_quotient_def Let_def not_True_eq_False if_False
  proof (rule yields_bind[OF a])
    fix u s1
    assume k1: "keeps st s1 r" and u: "arg s1 r ?w (VReg u) (S div 2 ^ (k - 1))"
    have "arg s1 r ?w (VReg u) t1" using arg_eqI[OF u, of t1] by (simp add: t1_def take_bit_take_bit)
    then have "yields s1 r ?w cl (t1 div 2 ^ nat (int ?w - int k)) (magic_shift_imm LsrRI cl (VReg u) (int ?w - int k) s1)"
      using k by (intro yields_lsr) (auto simp: t1_def)
    then have l: "yields s1 r ?w cl ?b (magic_shift_imm LsrRI cl (VReg u) (int ?w - int k) s1)"
      using pow2_bias[OF k S] by (simp add: n t1_def)
    show "yields s1 r ?w cl (if d < 0 then 0 - S sdiv 2 ^ k else S sdiv 2 ^ k)
      (case magic_shift_imm LsrRI cl (VReg u) (int ?w - int k) s1 of (t2, st) \<Rightarrow> case magic_rr AddRR cl x (VReg t2) st of (sm, st) \<Rightarrow>
        case magic_shift_imm AsrRI cl (VReg sm) (int k) st of (q, st) \<Rightarrow>
          if d < 0 then magic_rr SubRR cl (PReg XZR) (VReg q) st else (q, st))"
    proof (rule yields_bind[OF l])
      fix v s2
      assume k2: "keeps s1 s2 r" and v: "arg s2 r ?w (VReg v) ?b"
      have x2: "arg s2 r ?w x S" using arg_keeps[OF keeps_trans[OF k1 k2] x] .
      have q: "yields s3 r ?w cl (S sdiv 2 ^ k) (magic_shift_imm AsrRI cl (VReg t) (int k) s3)"
        if "arg s3 r ?w (VReg t) (S + ?b)" for t s3 using yields_asr[OF that b, of "int k"] k by (simp add: pow2_sdiv)
      have neg: "yields s4 r ?w cl (if d < 0 then 0 - S sdiv 2 ^ k else S sdiv 2 ^ k)
          (if d < 0 then magic_rr SubRR cl (PReg XZR) (VReg q) s4 else (q, s4))"
        if "v_class q = cl" "arg s4 r ?w (VReg q) (S sdiv 2 ^ k)" for q s4
        using yields_arith(2)[OF arg_zero[of s4 r ?w XZR] that(2) order.refl] that by (auto intro: yields_ret)
      show "yields s2 r ?w cl (if d < 0 then 0 - S sdiv 2 ^ k else S sdiv 2 ^ k)
        (case magic_rr AddRR cl x (VReg v) s2 of (sm, st) \<Rightarrow> case magic_shift_imm AsrRI cl (VReg sm) (int k) st of (q, st) \<Rightarrow>
            if d < 0 then magic_rr SubRR cl (PReg XZR) (VReg q) st else (q, st))"
        by (rule yields_bind[OF yields_arith(1)[OF x2 v order.refl]], rule yields_bind[OF q], assumption, rule neg)
    qed
  qed
  then show ?thesis by (rule yields_cong) (simp add: sdiv_minus)
qed

text \<open>The two forms of the scaled product.\<close>

lemma add_form:
  fixes X M :: int
  shows "(X + X * M div 2 ^ w) div 2 ^ s = X * (M + 2 ^ w) div 2 ^ (w + s)"
proof -
  have "X * (M + 2 ^ w) div 2 ^ w = X + X * M div 2 ^ w"
    using div_mult_self1[of "2 ^ w" "X * M" X] by (simp add: algebra_simps)
  then show ?thesis by (simp add: power_add zdiv_zmult2_eq)
qed

lemma high_product:
  fixes X M :: int
  assumes "0 \<le> X" and "X < 2 ^ w" and "0 \<le> M" and "M < 2 ^ w"
  shows "0 \<le> X * M div 2 ^ w" and "X * M div 2 ^ w \<le> X" and "X * M < 2 ^ (2 * w)" and "0 \<le> X * M"
proof -
  show "0 \<le> X * M" "0 \<le> X * M div 2 ^ w" using assms by (simp_all add: pos_imp_zdiv_nonneg_iff)
  have "X * M \<le> X * 2 ^ w" using assms by (intro mult_left_mono) auto
  then show "X * M div 2 ^ w \<le> X" using zdiv_mono1[of "X * M" "X * 2 ^ w" "2 ^ w"] by simp
  show "X * M < 2 ^ (2 * w)" using mult_bound[OF assms] by (simp add: mult_2)
qed

text \<open>What the checks on an unsigned magic number leave: the shift fits and the add form shifts.\<close>

definition umagic_ok :: "nat \<Rightarrow> magic_u \<Rightarrow> bool" where
  "umagic_ok w m \<longleftrightarrow> uint (mu_magic m) < 2 ^ w \<and> mu_shift m \<le> w \<and> (\<not> mu_add m \<longrightarrow> mu_shift m < w) \<and> (mu_add m \<longrightarrow> 1 \<le> mu_shift m)"

definition umagic_val :: "nat \<Rightarrow> magic_u \<Rightarrow> int \<Rightarrow> int" where
  "umagic_val w m X = X * (uint (mu_magic m) + (if mu_add m then 2 ^ w else 0)) div 2 ^ (w + mu_shift m)"

text \<open>From the full product of a 32-bit dividend to the quotient.\<close>

lemma yields_product32:
  assumes x: "arg st r 32 x X" and X: "0 \<le> X" "X < 2 ^ 32" and m: "umagic_ok 32 m"
    and xp: "arg st r 64 (VReg xp) (X * uint (mu_magic m))"
  shows "\<not> mu_add m \<Longrightarrow> yields st r b Gpr64 (umagic_val 32 m X) (magic_shift_imm LsrRI Gpr64 (VReg xp) (32 + int (mu_shift m)) st)"
    and "mu_add m \<Longrightarrow> yields st r 32 Gpr32 (umagic_val 32 m X)
      (case magic_shift_imm LsrRI Gpr64 (VReg xp) 32 st of (mh64, st) \<Rightarrow> case narrow_result True mh64 st of (mh, st) \<Rightarrow>
        add_back Gpr32 x mh (mu_shift m) st)"
proof -
  let ?M = "uint (mu_magic m)" and ?h = "X * uint (mu_magic m) div 2 ^ 32"
  have M: "0 \<le> ?M" "?M < 2 ^ 32" and s: "mu_shift m \<le> 32" using m by (simp_all add: umagic_ok_def)
  note hp = high_product[OF X M]
  have xp': "arg st r (cbits Gpr64) (VReg xp) (X * ?M)" using xp by simp
  have b: "X * ?M < 2 ^ cbits Gpr64" using hp(3) by simp
  show "yields st r b Gpr64 (umagic_val 32 m X) (magic_shift_imm LsrRI Gpr64 (VReg xp) (32 + int (mu_shift m)) st)" if "\<not> mu_add m"
  proof -
    have n: "nat (32 + int (mu_shift m)) = 32 + mu_shift m" by simp
    have "mu_shift m < 32" using that m by (simp add: umagic_ok_def)
    then show ?thesis using yields_lsr[OF xp' hp(4) b, of "32 + int (mu_shift m)" b] that unfolding n
      by (simp add: umagic_val_def del: of_nat_add)
  qed
  show "yields st r 32 Gpr32 (umagic_val 32 m X)
      (case magic_shift_imm LsrRI Gpr64 (VReg xp) 32 st of (mh64, st) \<Rightarrow> case narrow_result True mh64 st of (mh, st) \<Rightarrow>
        add_back Gpr32 x mh (mu_shift m) st)" if "mu_add m"
  proof (rule yields_bind[OF yields_lsr[OF xp' hp(4) b, of 32 64]], goal_cases)
    case (3 mh64 s1)
    have n: "yields s1 r (min 64 32) Gpr32 ?h (narrow_result True mh64 s1)" using 3 by (intro yields_narrow) auto
    show ?case
    proof (rule yields_bind[OF n], goal_cases)
      case (1 mh s2)
      have x2: "arg s2 r (cbits Gpr32) x X" using arg_keeps[OF keeps_trans[OF 3(1) 1(1)] x] by simp
      have "yields s2 r (cbits Gpr32) Gpr32 ((X + ?h) div 2 ^ mu_shift m) (add_back Gpr32 x mh (mu_shift m) s2)"
        using 1 hp X m that by (intro yields_add_back[OF x2]) (auto simp: umagic_ok_def)
      then show ?case using that unfolding add_form by (simp add: umagic_val_def)
    qed
  qed simp_all
qed

lemma yields_umull:
  assumes x: "arg st r 32 x X" and X: "0 \<le> X" "X < 2 ^ 32" and m: "umagic_ok 32 m"
  shows "yields st r 32 Gpr32 (umagic_val 32 m X) (umull_quotient x m st)"
  unfolding umull_quotient_def Let_def
proof (rule yields_bind[OF yields_mat], goal_cases)
  case (2 mm s1)
  let ?M = "uint (mu_magic m)"
  have M: "0 \<le> ?M" "?M < 2 ^ 32" using m by (simp_all add: umagic_ok_def)
  have mm: "arg s1 r 32 (VReg mm) ?M" using arg_eqI[OF 2(3), of ?M] by (simp add: take_bit_signed_take_bit)
  note x1 = arg_keeps[OF 2(1) x]
  show ?case
  proof (rule yields_bind[OF yields_umull_rr[OF x1 mm X M]], goal_cases)
    case (1 xp s2)
    note p = yields_product32[OF arg_keeps[OF 1(1) x1] X m 1(3)]
    show ?case
    proof (cases "mu_add m")
      case True
      then show ?thesis using p(2) by simp
    next
      case False
      have "yields s2 r 32 Gpr32 (umagic_val 32 m X)
          (case magic_shift_imm LsrRI Gpr64 (VReg xp) (32 + int (mu_shift m)) s2 of (q64, st) \<Rightarrow> narrow_result True q64 st)"
        using yields_narrow[where b = 32] by (intro yields_bind[OF p(1)[OF False, of 32]]) auto
      with False show ?thesis by simp
    qed
  qed
qed simp

lemma widen_correct:
  assumes "arg st r (if is_32 then 32 else 64) x n"
    and "is_32 \<Longrightarrow> if is_signed then - (2 ^ 31) \<le> n \<and> n < 2 ^ 31 else 0 \<le> n \<and> n < 2 ^ 32"
    and "widen is_32 is_signed x st = (x64, s)"
  shows "keeps st s r \<and> arg s r 64 x64 n"
proof (cases is_32)
  case True
  define opc where "opc = (if is_signed then Sxtw else Uxtw)"
  have x: "operand_ok st x" "rep 32 (opval (regs_of st r) x) n" using assms(1) True by (auto simp: arg_def)
  have "rep 64 (alu opc Gpr64 old [opval (regs_of st r) x]) n" for old
    using assms(2)[OF True] rep_signed_ops(3)[OF x(2)] rep_unsigned_ops(3)[OF _ _ x(2), of n]
    by (auto simp: opc_def simp del: alu.simps)
  moreover have "imms [x] = []" using x(1) by (auto simp: imms_def operand_ok_def split: isel_operand.splits)
  ultimately have "yields st r 64 Gpr64 n (case new_vreg Gpr64 st of (d, s) \<Rightarrow> (d, emit opc [VReg d, x] s))"
    using x(1) by (intro yields_emit) (auto simp: opc_def simp del: alu.simps)
  then show ?thesis using assms(3) True by (auto simp: widen_def yields_def opc_def Let_def new_vreg_def)
next
  case False
  then show ?thesis using assms by (simp add: widen_def)
qed

lemma gives_wide_u32:
  assumes x: "arg st r 32 x X" and x64: "arg st r 64 x64 X" and X: "0 \<le> X" "X < 2 ^ 32" and m: "umagic_ok 32 m"
  shows "gives st r 32 (umagic_val 32 m X) (wide_quotient_u True x x64 m st)"
  unfolding wide_quotient_u_def Let_def if_True
proof (rule gives_bind(1)[OF yields_gives[OF yields_mat]], goal_cases)
  case (2 mm s1)
  have mm: "arg s1 r 64 (VReg mm) (uint (mu_magic m))"
    using arg_eqI[OF 2(2), of "uint (mu_magic m)"] by (simp add: sint_uint take_bit_signed_take_bit)
  note x1 = arg_keeps[OF 2(1) x] and w1 = arg_keeps[OF 2(1) x64]
  show ?case unfolding magic_rr64_def
  proof (rule gives_bind(1)[OF yields_gives[OF yields_arith(3)[OF w1 mm]]], goal_cases)
    case (2 xp s2)
    note p = yields_product32[OF arg_keeps[OF 2(1) x1] X m 2(2), THEN yields_gives]
    show ?case using p(1)[of 32] p(2) by simp
  qed simp
qed simp

lemma yields_wide_u64:
  assumes x: "arg st r 64 x X" and X: "0 \<le> X" "X < 2 ^ 64" and m: "umagic_ok 64 m" and s: "mu_shift m < 64"
  shows "yields st r 64 Gpr64 (umagic_val 64 m X) (wide_quotient_u False y x m st)"
  unfolding wide_quotient_u_def Let_def if_False
proof (rule yields_bind[OF yields_mat], goal_cases)
  case (2 mm s1)
  let ?M = "uint (mu_magic m)"
  have mm: "arg s1 r 64 (VReg mm) ?M" using arg_eqI[OF 2(3), of ?M] by (simp add: sint_uint take_bit_signed_take_bit)
  have M: "0 \<le> ?M" "?M < 2 ^ 64" using m by (simp_all add: umagic_ok_def)
  note x1 = arg_keeps[OF 2(1) x] and hp = high_product[OF X M]
  show ?case
  proof (rule yields_bind[OF yields_umulh[OF x1 mm X M]], goal_cases)
    case (1 mh s2)
    have mh: "arg s2 r (cbits Gpr64) (VReg mh) (X * ?M div 2 ^ 64)" using 1(3) by simp
    have x2: "arg s2 r (cbits Gpr64) x X" using arg_keeps[OF 1(1) x1] by simp
    show ?case
    proof (cases "mu_add m")
      case True
      have "yields s2 r (cbits Gpr64) Gpr64 ((X + X * ?M div 2 ^ 64) div 2 ^ mu_shift m) (add_back Gpr64 x mh (mu_shift m) s2)"
        using 1(2) hp X m True by (intro yields_add_back[OF x2 mh]) (auto simp: umagic_ok_def)
      then show ?thesis using True unfolding add_form by (simp add: umagic_val_def)
    next
      case False
      have v: "umagic_val 64 m X = X * ?M div 2 ^ 64 div 2 ^ mu_shift m"
        using False by (simp add: umagic_val_def power_add zdiv_zmult2_eq)
      have "yields s2 r 64 Gpr64 (X * ?M div 2 ^ 64 div 2 ^ nat (int (mu_shift m))) (magic_shift_imm LsrRI Gpr64 (VReg mh) (int (mu_shift m)) s2)"
        using hp(1,2) X s by (intro yields_lsr[OF mh]) auto
      then show ?thesis using False 1 by (auto simp: v intro: yields_ret)
    qed
  qed
qed simp

text \<open>Rounding toward zero adds the sign bit.\<close>

lemma sign_bit:
  fixes q :: int
  assumes "1 \<le> w" and "- (2 ^ (w - 1)) \<le> q" and "q < 2 ^ (w - 1)"
  shows "take_bit w q div 2 ^ (w - 1) = (if q < 0 then 1 else 0)"
proof -
  have w: "(2 :: int) ^ w = 2 * 2 ^ (w - 1)" using assms(1) by (cases w) auto
  show ?thesis
  proof (cases "q < 0")
    case True
    then have "take_bit w q = q + 2 ^ w"
      using assms w int_mod_pos_eq[of q "2 ^ w" "- 1" "q + 2 ^ w"] by (simp add: take_bit_eq_mod)
    moreover have "(q + 2 ^ w) div 2 ^ (w - 1) = 1" using True assms unfolding w by (subst div_eq_iff) auto
    ultimately show ?thesis using True by simp
  next
    case False
    then have "take_bit w q = q" using assms w by (simp add: take_bit_int_eq_self)
    with False assms show ?thesis by simp
  qed
qed

lemma yields_round:
  assumes q: "arg st r (cbits cl) (VReg v) q" and b: "- (2 ^ (cbits cl - 1)) \<le> q" "q < 2 ^ (cbits cl - 1)"
    and k: "k = int (cbits cl) - 1"
  shows "yields st r (cbits cl) cl (q + (if q < 0 then 1 else 0))
    (case magic_shift_imm LsrRI cl (VReg v) k st of (sb, st) \<Rightarrow> magic_rr AddRR cl (VReg v) (VReg sb) st)"
proof -
  have n: "nat k = cbits cl - 1" "0 \<le> k" "k < int (cbits cl)" using k by (cases cl; simp)+
  have "arg st r (cbits cl) (VReg v) (take_bit (cbits cl) q)" using arg_eqI[OF q] by (simp add: take_bit_take_bit)
  then have l: "yields st r (cbits cl) cl (if q < 0 then 1 else 0) (magic_shift_imm LsrRI cl (VReg v) k st)"
    using yields_lsr[of st r cl "VReg v" "take_bit (cbits cl) q" k "cbits cl"] n sign_bit[OF _ b]
    by (simp add: Suc_leI)
  show ?thesis by (rule yields_bind[OF l], rule yields_arith(1)[OF arg_keeps[OF _ q] _ order.refl])
qed

definition corrected :: "int \<Rightarrow> int \<Rightarrow> int \<Rightarrow> int \<Rightarrow> int" where
  "corrected d mm hi x = (if 0 < d \<and> mm < 0 then hi + x else if d < 0 \<and> 0 < mm then hi - x else hi)"

lemma gives_sign_correct:
  assumes "arg st r b (VReg mh) hi" and "arg st r b x S" and "b \<le> cbits cl"
  shows "gives st r b (corrected d mm hi S) (sign_correct cl d mm mh x st)"
  using yields_arith(1,2)[OF assms, THEN yields_gives] gives_ret[OF assms(1)] by (auto simp: sign_correct_def corrected_def)

text \<open>What the checks on a signed magic number leave, at width \<open>w\<close>.\<close>

definition smagic_ok :: "nat \<Rightarrow> int \<Rightarrow> magic_s \<Rightarrow> bool" where
  "smagic_ok w d m \<longleftrightarrow> magic_divisor w d \<and> - (2 ^ (w - 1)) \<le> ms_magic m \<and> ms_magic m < 2 ^ (w - 1)
     \<and> band (tmax w d) \<bar>d\<bar> (eff_magnitude w d (ms_magic m)) (w + ms_shift m) \<and> ms_shift m < w"

lemma smagic_bounds:
  fixes S :: int
  assumes m: "smagic_ok w d m" and w: "w = 32 \<or> w = 64" and S: "- (2 ^ (w - 1)) \<le> S" "S < 2 ^ (w - 1)"
  defines "c \<equiv> corrected d (ms_magic m) (S * ms_magic m div 2 ^ w) S"
  shows "- (2 ^ (w - 1)) \<le> c" and "c < 2 ^ (w - 1)"
    and "- (2 ^ (w - 1)) \<le> c div 2 ^ ms_shift m" and "c div 2 ^ ms_shift m < 2 ^ (w - 1)"
    and "c div 2 ^ ms_shift m + (if c div 2 ^ ms_shift m < 0 then 1 else 0) = S sdiv d"
proof -
  have w2: "2 \<le> w" "w \<le> 64" using w by auto
  note m' = m[unfolded smagic_ok_def]
  let ?M = "eff_magnitude w d (ms_magic m)"
  have c: "c = S * (sgn d * ?M) div 2 ^ w"
    using corrected_quotient[of w d "ms_magic m" "ms_shift m" S] m' w2 by (simp add: c_def corrected_def)
  have M: "?M < 2 ^ w" using effective_multiplier(2)[of w d "ms_magic m" "ms_shift m"] m' w2 by simp
  have "0 < (2 :: int) ^ (w + ms_shift m)" by simp
  then have "0 < ?M * \<bar>d\<bar>" using m' by (simp add: band_def del: zero_less_power)
  then have M0: "0 < ?M" using m' by (simp add: magic_divisor_def zero_less_mult_iff)
  have d: "\<bar>sgn d\<bar> = 1" using m' by (auto simp: magic_divisor_def)
  have "\<bar>S * (sgn d * ?M)\<bar> = \<bar>S\<bar> * ?M" using M0 d by (simp add: abs_mult)
  also have "\<dots> \<le> 2 ^ (w - 1) * ?M" using S M0 by (intro mult_right_mono) auto
  also have "\<dots> < 2 ^ (w - 1) * 2 ^ w" using M by (intro mult_strict_left_mono) auto
  finally have p: "\<bar>S * (sgn d * ?M)\<bar> < 2 ^ (w - 1) * 2 ^ w" .
  show hi: "c < 2 ^ (w - 1)" unfolding c using p by (intro int_div_less) auto
  show lo: "- (2 ^ (w - 1)) \<le> c" unfolding c using p by (intro int_le_div) auto
  have P: "(2 :: int) ^ (w - 1) \<le> 2 ^ (w - 1) * 2 ^ ms_shift m" by simp
  show "c div 2 ^ ms_shift m < 2 ^ (w - 1)" using less_le_trans[OF hi P] by (intro int_div_less) auto
  have "- (2 ^ (w - 1)) * 2 ^ ms_shift m \<le> c" unfolding mult_minus_left using lo P by linarith
  then show "- (2 ^ (w - 1)) \<le> c div 2 ^ ms_shift m" by (intro int_le_div) auto
  show "c div 2 ^ ms_shift m + (if c div 2 ^ ms_shift m < 0 then 1 else 0) = S sdiv d"
    using smagic_quotient_eq[of w d m S] m' w2 S by (simp add: smagic_quotient_def c_def corrected_def Let_def)
qed

text \<open>The correction and the shift, in a class of the width of the dividend.\<close>

lemma gives_shifted:
  assumes "arg st r (cbits cl) (VReg v) c" and "- (2 ^ (cbits cl - 1)) \<le> c" "c < 2 ^ (cbits cl - 1)" and "s < cbits cl"
  shows "gives st r (cbits cl) (c div 2 ^ s) (if s = 0 then (v, st) else magic_shift_imm AsrRI cl (VReg v) (int s) st)"
  using yields_gives[OF yields_asr[OF assms(1-3), of "int s"]] gives_ret[OF assms(1)] assms(4) by auto

lemma high_half: "take_bit 32 (take_bit 64 z div 2 ^ 32) = take_bit 32 (z div 2 ^ 32 :: int)"
  unfolding drop_bit_eq_div[symmetric] by (rule bit_eqI) (auto simp: bit_simps)

lemma yields_smull:
  assumes x: "arg st r 32 x S" and S: "- (2 ^ 31) \<le> S" "S < 2 ^ 31" and m: "smagic_ok 32 d m"
  shows "yields st r 32 Gpr32 (S sdiv d) (smull_quotient x m d st)"
  unfolding smull_quotient_def Let_def
proof (rule yields_bind[OF yields_mat], goal_cases)
  case (2 mm s1)
  let ?M = "ms_magic m" and ?c = "corrected d (ms_magic m) (S * ms_magic m div 2 ^ 32) S"
  have M: "- (2 ^ 31) \<le> ?M" "?M < 2 ^ 31" using m by (simp_all add: smagic_ok_def)
  have mm: "arg s1 r 32 (VReg mm) ?M" using arg_eqI[OF 2(3), of ?M] by (simp add: take_bit_signed_take_bit)
  note x1 = arg_keeps[OF 2(1) x] and b = smagic_bounds[OF m, of S]
  show ?case
  proof (rule yields_bind[OF yields_smull_rr[OF x1 mm S M]], goal_cases)
    case (1 xp s2)
    have xp: "arg s2 r (cbits Gpr64) (VReg xp) (take_bit 64 (S * ?M))" using arg_eqI[OF 1(3)] by (simp add: take_bit_take_bit)
    note x2 = arg_keeps[OF 1(1) x1]
    show ?case
    proof (rule yields_bind[OF yields_lsr[OF xp, of 32 32]], goal_cases)
      case (5 mh s3)
      have mh: "arg s3 r 32 (VReg mh) (S * ?M div 2 ^ 32)" using arg_eqI[OF 5(3)] high_half by simp
      note x3 = arg_keeps[OF 5(1) x2]
      show ?case
      proof (rule gives_bind(2)[OF gives_sign_correct[OF mh x3]], goal_cases)
        case (2 co s4)
        have co: "arg s4 r (cbits Gpr32) (VReg co) ?c" using 2 by simp
        show ?case
        proof (rule gives_bind(2)[OF gives_shifted[OF co, of "ms_shift m"]], goal_cases)
          case (4 sh s5)
          have "yields s5 r (cbits Gpr32) Gpr32 (S sdiv d)
              (case magic_shift_imm LsrRI Gpr32 (VReg sh) 31 s5 of (sb, st) \<Rightarrow> magic_rr AddRR Gpr32 (VReg sh) (VReg sb) st)"
            using yields_round[OF 4(2), of 31] b S by simp
          then show ?case by simp
        qed (use b S m in \<open>auto simp: smagic_ok_def\<close>)
      qed simp
    qed (use take_bit_int_less_exp[of 64 "S * ?M"] in simp_all)
  qed
qed simp

lemma signed_product:
  fixes S M :: int
  assumes "- (2 ^ 31) \<le> S" "S < 2 ^ 31" "- (2 ^ 31) \<le> M" "M < 2 ^ 31"
  shows "- (2 ^ 63) \<le> S * M" and "S * M < 2 ^ 63"
proof -
  have "\<bar>S * M\<bar> \<le> 2 ^ 31 * 2 ^ 31" unfolding abs_mult using assms by (intro mult_mono) auto
  then show "- (2 ^ 63) \<le> S * M" "S * M < 2 ^ 63" by auto
qed

lemma yields_wide_s:
  assumes x: "arg st r 64 x S" and m: "smagic_ok w d m" and w: "w = (if is_32 then 32 else 64)"
    and S: "- (2 ^ (w - 1)) \<le> S" "S < 2 ^ (w - 1)"
  shows "yields st r w (if is_32 then Gpr32 else Gpr64) (S sdiv d)
    (case wide_quotient_s is_32 x m d st of (q, st) \<Rightarrow> narrow_result is_32 q st)"
proof -
  let ?M = "ms_magic m" and ?q = "corrected d (ms_magic m) (S * ms_magic m div 2 ^ w) S div 2 ^ ms_shift m"
    and ?cl = "if is_32 then Gpr32 else Gpr64"
  have w': "w = 32 \<or> w = 64" "cbits ?cl = w" using w by auto
  have M: "- (2 ^ (w - 1)) \<le> ?M" "?M < 2 ^ (w - 1)" using m by (simp_all add: smagic_ok_def)
  note b = smagic_bounds[OF m w'(1) S]
  have s64: "ms_shift m < 64" using m w by (auto simp: smagic_ok_def split: if_splits)
  have nar: "narrow_result is_32 q s = (q, s)" if "v_class q = ?cl" for q s using that by (simp add: narrow_result_def)
  have tail: "yields s r w ?cl (S sdiv d) (if is_32
      then case narrow_result is_32 sh s of (qw, st) \<Rightarrow> case magic_shift_imm LsrRI Gpr32 (VReg qw) 31 st of (sb, st) \<Rightarrow>
        magic_rr AddRR Gpr32 (VReg qw) (VReg sb) st
      else case magic_shift_imm LsrRI Gpr64 (VReg sh) 63 s of (sb, st) \<Rightarrow> magic_rr64 AddRR (VReg sh) (VReg sb) st)"
    if sh: "arg s r 64 (VReg sh) ?q" for s sh
  proof (cases is_32)
    case True
    have "yields s r (min 64 32) Gpr32 ?q (narrow_result True sh s)" using sh by (intro yields_narrow) auto
    then have n: "yields s r (cbits Gpr32) Gpr32 ?q (narrow_result True sh s)" by simp
    have "yields s r (cbits Gpr32) Gpr32 (S sdiv d) (case narrow_result True sh s of (qw, st) \<Rightarrow>
        case magic_shift_imm LsrRI Gpr32 (VReg qw) 31 st of (sb, st) \<Rightarrow> magic_rr AddRR Gpr32 (VReg qw) (VReg sb) st)"
      by (rule yields_bind[OF n], subst b(5)[symmetric], rule yields_round) (use b(3,4) w True in auto)
    with True w show ?thesis by simp
  next
    case False
    then show ?thesis using yields_round[of s r Gpr64 sh ?q 63] sh b w unfolding magic_rr64_def by simp
  qed
  have "yields st r w ?cl (S sdiv d) (wide_quotient_s is_32 x m d st)"
    unfolding wide_quotient_s_def Let_def
  proof (rule yields_bind[OF yields_mat], goal_cases)
    case (2 mm s1)
    note x1 = arg_keeps[OF 2(1) x]
    have mm: "arg s1 r 64 (VReg mm) ?M" using 2(3) by simp
    have hi: "gives s1 r 64 (S * ?M div 2 ^ w) (if is_32
        then case magic_rr64 MulRR x (VReg mm) s1 of (xp, st) \<Rightarrow> magic_shift_imm AsrRI Gpr64 (VReg xp) 32 st
        else magic_rr64 Smulh x (VReg mm) s1)"
    proof (cases is_32)
      case True
      have "gives s1 r 64 (S * ?M div 2 ^ 32) (case magic_rr64 MulRR x (VReg mm) s1 of (xp, st) \<Rightarrow> magic_shift_imm AsrRI Gpr64 (VReg xp) 32 st)"
        unfolding magic_rr64_def
      proof (rule gives_bind(1)[OF yields_gives[OF yields_arith(3)[OF x1 mm]]], goal_cases)
        case (2 xp s2)
        show ?case using yields_gives[OF yields_asr[of s2 r Gpr64 "VReg xp" "S * ?M" 32]] 2 signed_product[of S ?M] S M w True by simp
      qed simp
      with True w show ?thesis by simp
    next
      case False
      then show ?thesis using yields_gives[OF yields_smulh[OF x1 mm]] S M w by simp
    qed
    show ?case
    proof (rule gives_bind(2)[OF hi], goal_cases)
      case (1 h s2)
      show ?case
      proof (rule gives_bind(2)[OF gives_sign_correct[OF 1(2) arg_keeps[OF 1(1) x1]]], goal_cases)
        case (2 co s3)
        have "(2 :: int) ^ (w - 1) \<le> 2 ^ 63" using w by auto
        with b(1,2) 2(2) have sh: "gives s3 r (cbits Gpr64) ?q
            (if ms_shift m = 0 then (co, s3) else magic_shift_imm AsrRI Gpr64 (VReg co) (int (ms_shift m)) s3)"
          using s64 by (intro gives_shifted) auto
        show ?case
        proof (rule gives_bind(2)[OF sh], goal_cases)
          case (1 sh s4)
          then show ?case using tail by simp
        qed
      qed simp
    qed
  qed simp
  then show ?thesis using nar by (auto simp: yields_def split: prod.splits)
qed

section \<open>Every path computes the quotient\<close>

lemma power_less_cases: "\<lbrakk>1 < (2 :: int) ^ k; 2 ^ k < (2 :: int) ^ w\<rbrakk> \<Longrightarrow> 1 \<le> k \<and> k < w"
  by (metis One_nat_def Suc_leI bot_nat_0.not_eq_extremum less_irrefl one_less_numeral_iff power_0 power_less_imp_less_exp semiring_norm(76))

lemma umagic_checked:
  assumes d: "1 < uint d" "uint d < 2 ^ width_bits width" and m: "magicu d width = Some m" "band_holds d m width"
    "\<not> (mu_add m \<and> mu_shift m = 0)"
  shows "umagic_ok (width_bits width) m" and "mu_shift m < 64"
    and "\<lbrakk>0 \<le> X; X < 2 ^ width_bits width\<rbrakk> \<Longrightarrow> umagic_val (width_bits width) m X = X div uint d"
proof -
  let ?w = "width_bits width"
  note b = magicu_shift_bound[OF d m(1)]
  show "mu_shift m < 64" using band_holds_cases[OF d m(1)] m(2) by simp
  have "mu_shift m < ?w" if "\<not> mu_add m"
  proof -
    have "2 ^ (?w + mu_shift m) \<le> uint (mu_magic m) * uint d" using b(3) that by (simp add: band_def multiplier_def)
    also have "\<dots> < 2 ^ (?w + ?w)" using b(2) d(2) by (intro mult_bound) auto
    finally show ?thesis using power_less_imp_less_exp[of "2 :: int" "?w + mu_shift m" "?w + ?w"] by simp
  qed
  then show "umagic_ok ?w m" using b m(3) by (auto simp: umagic_ok_def)
  show "umagic_val ?w m X = X div uint d" if "0 \<le> X" "X < 2 ^ ?w"
    using quotient_exact[OF d(1) less_imp_le[OF d(2)] b(3) that] by (simp add: umagic_val_def multiplier_def)
qed

lemma smagic_checked:
  assumes d: "- (2 ^ (width_bits width - 1)) \<le> d" "d < 2 ^ (width_bits width - 1)" "d \<noteq> 0" "d \<noteq> 1" "d \<noteq> - 1"
    and m: "magics d width = Some m" "smagic_band_holds d m width"
  shows "smagic_ok (width_bits width) d m"
proof -
  have "\<bar>d\<bar> AND (\<bar>d\<bar> - 1) \<noteq> 0" using m(2) d by (auto simp: smagic_band_holds_def Let_def split: if_splits)
  then have div: "magic_divisor (width_bits width) d" using d by (auto simp: magic_divisor_def)
  then show ?thesis using magics_spec[OF div] m smagic_band_iff[OF div, of m] by (auto simp: smagic_ok_def)
qed

definition opw :: "magic_width \<Rightarrow> reg_class" where
  "opw width = (if width = W32 then Gpr32 else Gpr64)"

lemma cbits_opw [simp]: "cbits (opw width) = width_bits width"
  by (cases width) (simp_all add: opw_def)

definition quotient_of :: "bool \<Rightarrow> int \<Rightarrow> u64 \<Rightarrow> int \<Rightarrow> int" where
  "quotient_of is_signed ds du n = (if is_signed then n sdiv ds else n div uint du)"

text \<open>The operands of a division: the dividend and the divisor in the range of the width.\<close>

definition in_range :: "bool \<Rightarrow> nat \<Rightarrow> int \<Rightarrow> bool" where
  "in_range is_signed w n = (if is_signed then - (2 ^ (w - 1)) \<le> n \<and> n < 2 ^ (w - 1) else 0 \<le> n \<and> n < 2 ^ w)"

definition divisor_ok :: "bool \<Rightarrow> nat \<Rightarrow> int \<Rightarrow> u64 \<Rightarrow> bool" where
  "divisor_ok is_signed w ds du = (if is_signed then in_range True w ds \<and> ds \<noteq> 0 \<and> ds \<noteq> 1 \<and> ds \<noteq> - 1 else 1 < uint du \<and> uint du < 2 ^ w)"

lemma yields_pow2:
  assumes "arg st r (width_bits width) x n" and "in_range sg (width_bits width) n" and "divisor_ok sg (width_bits width) ds du"
    and p: "is_power_of_two (if sg then word_of_int \<bar>ds\<bar> else du)"
  shows "yields st r (width_bits width) (opw width) (quotient_of sg ds du n)
    (pow2_quotient sg (opw width) (int (width_bits width)) x (int (trailing_zeros (if sg then word_of_int \<bar>ds\<bar> else du))) ds st)"
proof (cases sg)
  case True
  let ?k = "trailing_zeros (word_of_int \<bar>ds\<bar>)" and ?w = "width_bits width"
  have ds: "- (2 ^ (?w - 1)) \<le> ds" "ds < 2 ^ (?w - 1)" "1 < \<bar>ds\<bar>" using assms(3) True by (auto simp: divisor_ok_def in_range_def)
  have "(2 :: int) ^ (?w - 1) < 2 ^ 64" using width_bits_cases[of width] by auto
  then have "\<bar>ds\<bar> < 2 ^ 64" using ds by linarith
  then have "uint (word_of_int \<bar>ds\<bar> :: u64) = \<bar>ds\<bar>" by (simp add: take_bit_int_eq_self)
  then have k: "\<bar>ds\<bar> = 2 ^ ?k" using power_of_two(1)[of "word_of_int \<bar>ds\<bar>"] p True by simp
  have "(2 :: int) ^ (?w - 1) < 2 ^ ?w" using width_bits_cases[of width] by auto
  then have "1 \<le> ?k \<and> ?k < ?w" using power_less_cases[of ?k ?w] ds unfolding k[symmetric] by linarith
  moreover have "ds = (if ds < 0 then - (2 ^ ?k) else 2 ^ ?k)" using k by (auto simp: abs_if split: if_splits)
  ultimately show ?thesis
    using yields_pow2_signed[of st r "opw width" x n ?k ds] assms(1,2) True by (simp add: in_range_def quotient_of_def)
next
  case False
  let ?k = "trailing_zeros du" and ?w = "width_bits width"
  have k: "uint du = 2 ^ ?k" using power_of_two(1)[of du] p False by simp
  then have "1 \<le> ?k \<and> ?k < ?w" using assms(3) False by (intro power_less_cases) (auto simp: divisor_ok_def)
  then show ?thesis using yields_pow2_unsigned[of st r "opw width" x n "int ?k"] assms(1,2) False k
    by (simp add: in_range_def quotient_of_def)
qed

definition quotient_in :: "selector \<Rightarrow> regs \<Rightarrow> magic_width \<Rightarrow> int \<Rightarrow> vreg option \<times> selector \<Rightarrow> bool" where
  "quotient_in st r width v p = (case p of
       (None, s) \<Rightarrow> keeps st s r
     | (Some q, s) \<Rightarrow> yields st r (width_bits width) (opw width) v (q, s))"

lemma quotient_found: "yields st r (width_bits width) (opw width) v p \<Longrightarrow> quotient_in st r width v (case p of (q, st) \<Rightarrow> (Some q, st))"
  by (cases p) (simp add: quotient_in_def)

lemma quotient_declined: "keeps st s r \<Longrightarrow> quotient_in st r width v (None, s)"
  by (simp add: quotient_in_def)

lemma yields_keeps: "keeps st s r \<Longrightarrow> yields s r b cl v p \<Longrightarrow> yields st r b cl v p"
  using keeps_trans by (auto simp: yields_def split: prod.splits)

lemma const_quotient_unsigned:
  assumes x: "arg st r (width_bits width) x n" and n: "0 \<le> n" "n < 2 ^ width_bits width"
    and d: "1 < uint du" "uint du < 2 ^ width_bits width" and pow2: "\<not> is_power_of_two du"
  shows "quotient_in st r width (n div uint du) (const_quotient disabled False width x ds du st)"
proof -
  obtain x64 s1 where w: "widen (width = W32) False x st = (x64, s1)" by (metis surj_pair)
  have w1: "keeps st s1 r" "arg s1 r 64 x64 n" using widen_correct[OF _ _ w, of r n] x n by (cases width; simp)+
  from magicu_spec[OF d] obtain m where m: "magicu du width = Some m" by blast
  show ?thesis
  proof (cases "band_holds du m width \<and> \<not> (mu_add m \<and> mu_shift m = 0)")
    case True
    note um = umagic_checked[OF d m conjunct1[OF True] conjunct2[OF True]]
    have T: "band_holds du m width" "mu_add m \<Longrightarrow> mu_shift m \<noteq> 0" using True by auto
    have x1: "arg s1 r (width_bits width) x n" using arg_keeps[OF w1(1) x] .
    show ?thesis
    proof (cases width)
      case W32
      have y: "yields st r 32 Gpr32 (n div uint du) (umull_quotient x m st)"
        using yields_umull[of st r x n m] x n um W32 by simp
      have "gives s1 r 32 (umagic_val 32 m n) (wide_quotient_u True x x64 m s1)"
        using gives_wide_u32[of s1 r x n x64 m] x1 w1(2) n um(1) W32 by simp
      then have "yields s1 r 32 Gpr32 (n div uint du) (case wide_quotient_u True x x64 m s1 of (q, st) \<Rightarrow> narrow_result True q st)"
        using um(3)[OF n] W32 yields_narrow[where b = 32] by (intro gives_bind(2)) auto
      note z = yields_keeps[OF w1(1) this]
      note f = quotient_found[where width = W32]
      have "quotient_in st r W32 (n div uint du) (case umull_quotient x m st of (q, st) \<Rightarrow> (Some q, st))"
        "quotient_in st r W32 (n div uint du) (case case wide_quotient_u True x x64 m s1 of (q, st) \<Rightarrow> narrow_result True q st of
           (q, st) \<Rightarrow> (Some q, st))"
        using y z by (auto intro!: f simp: opw_def)
      then show ?thesis unfolding const_quotient_def Let_def using m w T W32 by (cases disabled; cases "mu_add m") (simp_all add: pow2)
    next
      case W64
      have "yields s1 r 64 Gpr64 (n div uint du) (wide_quotient_u False x x64 m s1)"
        using yields_wide_u64[of s1 r x64 n m] w1(2) n um W64 by simp
      note z = yields_keeps[OF w1(1) this]
      have "(case wide_quotient_u False x x64 m s1 of (q, st) \<Rightarrow> narrow_result False q st) = wide_quotient_u False x x64 m s1"
        by (auto simp: narrow_result_def split: prod.splits)
      moreover have "quotient_in st r W64 (n div uint du) (case wide_quotient_u False x x64 m s1 of (q, st) \<Rightarrow> (Some q, st))"
        using z by (intro quotient_found) (simp add: opw_def)
      ultimately show ?thesis unfolding const_quotient_def Let_def using m w T W64 by (cases "mu_add m") (simp_all add: pow2)
    qed
  next
    case False
    then have "(\<not> band_holds du m width \<or> mu_add m \<and> mu_shift m = 0) = True" by blast
    then show ?thesis unfolding const_quotient_def Let_def
      using quotient_declined[OF w1(1)] quotient_declined[OF keeps_refl] m w by (cases width) (simp_all add: pow2)
  qed
qed

lemma const_quotient_signed:
  assumes x: "arg st r (width_bits width) x n" and n: "- (2 ^ (width_bits width - 1)) \<le> n" "n < 2 ^ (width_bits width - 1)"
    and d: "- (2 ^ (width_bits width - 1)) \<le> ds" "ds < 2 ^ (width_bits width - 1)" "ds \<noteq> 0" "ds \<noteq> 1" "ds \<noteq> - 1"
    and pow2: "\<not> is_power_of_two (word_of_int \<bar>ds\<bar>)"
  shows "quotient_in st r width (n sdiv ds) (const_quotient disabled True width x ds du st)"
proof -
  obtain x64 s1 where w: "widen (width = W32) True x st = (x64, s1)" by (metis surj_pair)
  have w1: "keeps st s1 r" "arg s1 r 64 x64 n" using widen_correct[OF _ _ w, of r n] x n by (cases width; simp)+
  have decline: ?thesis if "magics ds width = None \<or> (\<exists>m. magics ds width = Some m \<and> \<not> smagic_band_holds ds m width)"
    using that quotient_declined[OF w1(1)] quotient_declined[OF keeps_refl] pow2 w by (auto simp: const_quotient_def Let_def)
  show ?thesis
  proof (cases "\<exists>m. magics ds width = Some m \<and> smagic_band_holds ds m width")
    case True
    then obtain m where m: "magics ds width = Some m" "smagic_band_holds ds m width" by blast
    note sm = smagic_checked[OF d m]
    have "yields s1 r (width_bits width) (opw width) (n sdiv ds)
        (case wide_quotient_s (width = W32) x64 m ds s1 of (q, st) \<Rightarrow> narrow_result (width = W32) q st)"
      using yields_wide_s[OF w1(2) sm _ n, of "width = W32"] by (cases width) (simp_all add: opw_def)
    note z = yields_keeps[OF w1(1) this]
    show ?thesis
    proof (cases "width = W32 \<and> \<not> disabled")
      case True
      then have y: "yields st r (width_bits width) (opw width) (n sdiv ds) (smull_quotient x m ds st)"
        using yields_smull[of st r x n ds m] x n sm by (simp add: opw_def)
      show ?thesis using quotient_found[OF y] True m by (simp add: const_quotient_def Let_def opw_def pow2)
    next
      case False
      then have F: "(width = W32 \<and> \<not> disabled) = False" by blast
      show ?thesis unfolding const_quotient_def Let_def F if_False using quotient_found[OF z] m w by (simp add: pow2)
    qed
  next
    case False
    then show ?thesis using decline by (cases "magics ds width") auto
  qed
qed

lemma const_quotient_correct:
  assumes x: "arg st r (width_bits width) x n" and n: "in_range sg (width_bits width) n"
    and d: "divisor_ok sg (width_bits width) ds du"
  shows "quotient_in st r width (quotient_of sg ds du n) (const_quotient disabled sg width x ds du st)"
proof (cases "is_power_of_two (if sg then word_of_int \<bar>ds\<bar> else du)")
  case True
  have "int (width_bits width) = (if width = W32 then 32 else 64)" by (cases width) auto
  with quotient_found[OF yields_pow2[OF x n d True]] True show ?thesis by (simp add: const_quotient_def Let_def opw_def)
next
  case False
  then show ?thesis using assms const_quotient_unsigned const_quotient_signed
    by (cases sg) (simp_all add: in_range_def divisor_ok_def quotient_of_def)
qed

section \<open>The remainder is computed from the quotient\<close>

lemma mersenne_formD:
  assumes "mersenne_form disabled w a = Some (k, mi)"
  shows "1 \<le> k" and "k < int w" and "uint a = (if mi then 2 ^ nat k - 1 else 2 ^ nat k + 1)"
proof -
  consider "mi" "a \<noteq> - 1" "is_power_of_two (a + 1)" "k = int (trailing_zeros (a + 1))"
    | "\<not> mi" "3 \<le> a" "is_power_of_two (a - 1)" "k = int (trailing_zeros (a - 1))"
    using assms by (auto simp: mersenne_form_def Let_def not_less split: if_splits)
  then show "uint a = (if mi then 2 ^ nat k - 1 else 2 ^ nat k + 1)"
  proof cases
    case 1
    have "uint a \<noteq> uint (- 1 :: u64)" using 1(2) by (simp only: word_uint_eq_iff) simp
    then have "uint a + 1 < 2 ^ 64"
      using uint_bounded[of a] by (simp add: unsigned_minus_1_eq_mask mask_eq_exp_minus_1)
    then have "uint (a + 1) = uint a + 1" by (simp add: uint_word_ariths(1))
    with 1 power_of_two(1)[OF 1(3)] show ?thesis by simp
  next
    case 2
    then have "1 \<le> a" using order.trans[of 1 3 a] by simp
    then have "uint (a - 1) = uint a - 1" by (simp add: uint_minus_simple_alt)
    with 2 power_of_two(1)[OF 2(3)] show ?thesis by simp
  qed
  show "1 \<le> k" "k < int w" using assms by (auto simp: mersenne_form_def Let_def split: if_splits)
qed

lemma opval_fresh: "operand_ok st p \<Longrightarrow> next_vreg st \<le> i \<Longrightarrow> opval (f(i := v)) p = opval f p"
  by (cases p) (auto simp: operand_ok_def)

lemma yields_mersenne:
  assumes x: "arg st r (cbits cl) x X" and q: "arg st r (cbits cl) (VReg q) Q" and k: "1 \<le> k" "k < int (cbits cl)"
  shows "yields st r (cbits cl) cl (X - Q * ((if neg then - 1 else 1) * (if mi then 2 ^ nat k - 1 else 2 ^ nat k + 1)))
    (mersenne_rem cl neg x q k mi st)"
proof -
  have k64: "0 \<le> k" "k < 64" using k cbits_le(1)[of cl] by linarith+
  have qo: "v_id q < next_vreg st" and xo: "operand_ok st x" using x q by (simp_all add: arg_def operand_ok_def)
  have reps: "rep (cbits cl) (opval (regs_of st r) x) X" "rep (cbits cl) (regs_of st r (v_id q)) Q"
    using x q by (simp_all add: arg_def)
  note a = rep_alu(1,2)[OF order.refl reps(1)] and sh = rep_alu(7,8)[OF order.refl _ reps(2) k64]
  let ?X = "opval (regs_of st r) x" and ?Q = "regs_of st r (v_id q)"
  have minus: "rep (cbits cl) (alu SubRR cl old [?X, alu SubRRShift cl old' [?Q, ?Q, word_of_int k]]) (X - (Q - Q * 2 ^ nat k))"
    "rep (cbits cl) (alu AddRR cl old [?X, alu SubRRShift cl old' [?Q, ?Q, word_of_int k]]) (X + (Q - Q * 2 ^ nat k))"
    for old old' by (rule a(2)[OF sh(2)[OF reps(2)]], rule a(1)[OF sh(2)[OF reps(2)]])
  have plus: "rep (cbits cl) (alu AddRRShift cl old [alu AddRR cl old' [?X, ?Q], ?Q, word_of_int k]) (X + Q + Q * 2 ^ nat k)"
    "rep (cbits cl) (alu SubRRShift cl old [alu SubRR cl old' [?X, ?Q], ?Q, word_of_int k]) (X - Q - Q * 2 ^ nat k)"
    for old old' by (rule sh(1)[OF a(1)[OF reps(2)]], rule sh(2)[OF a(2)[OF reps(2)]])
  have im: "imms [x, VReg v] = []" "imms [VReg u, VReg v, Imm j] = [j]" for u v j
    using xo by (auto simp: imms_def operand_ok_def split: isel_operand.splits)
  have xf: "opval ((regs_of st r)(i := v)) x = ?X" if "next_vreg st \<le> i" for i v using opval_fresh[OF xo that] .
  show ?thesis
    using minus plus qo k by (cases neg; cases mi)
      (simp_all add: mersenne_rem_def Let_def yields_def keeps_def arg_def new_vreg_def operand_ok_def emission enc_ok_emit
        encodable_def im xf algebra_simps del: alu.simps)
qed

lemma yields_msub:
  assumes x: "arg st r (cbits (reg_class_for_type ty)) x X" and q: "arg st r (cbits (reg_class_for_type ty)) (VReg q) Q" and "ty \<noteq> B1"
  shows "yields st r (cbits (reg_class_for_type ty)) (reg_class_for_type ty) (X - Q * c)
    (case magic_mat ty c st of (c, s) \<Rightarrow> case new_vreg (reg_class_for_type ty) s of (dst, s) \<Rightarrow> (dst, emit Msub [VReg dst, VReg q, VReg c, x] s))"
proof (rule yields_bind[OF yields_mat[OF assms(3)]], goal_cases)
  case (1 d s)
  note x1 = arg_keeps[OF 1(1) x] and q1 = arg_keeps[OF 1(1) q]
  have "imms [VReg q, VReg d, x] = []" using x1 by (auto simp: imms_def arg_def operand_ok_def split: isel_operand.splits)
  then show ?case using x1 q1 1(3) rep_alu(9)[OF order.refl[of "cbits (reg_class_for_type ty)"]]
    by (intro yields_emit) (auto simp: arg_def simp del: alu.simps)
qed

text \<open>The remainder of a truncating or an unsigned division.\<close>

definition remainder_of :: "bool \<Rightarrow> int \<Rightarrow> u64 \<Rightarrow> int \<Rightarrow> int" where
  "remainder_of sg ds du n = (if sg then n smod ds else n mod uint du)"

lemma remainder_eq: "n - quotient_of sg ds du n * (if sg then ds else uint du) = remainder_of sg ds du n"
  by (simp add: quotient_of_def remainder_of_def minus_div_mult_eq_mod minus_sdiv_mult_eq_smod)

lemma yields_eqI: "yields st r b cl m p \<Longrightarrow> take_bit b m = take_bit b n \<Longrightarrow> yields st r b cl n p"
  by (auto simp: yields_def split: prod.splits intro: arg_eqI)

lemma take_bit_minus_mult: "take_bit b c = take_bit b d \<Longrightarrow> take_bit b (n - q * c) = take_bit b (n - q * (d :: int))"
  by (metis take_bit_diff take_bit_mult)

lemma finish_correct:
  assumes ty: "ty = (if width = W32 then I32 else I64)"
    and x: "arg st r (width_bits width) x n" and q: "arg st r (width_bits width) (VReg q) (quotient_of sg ds du n)"
    and d: "divisor_ok sg (width_bits width) ds du" and cl: "v_class q = opw width" and ds: "\<not> sg \<Longrightarrow> width = W64 \<Longrightarrow> take_bit 64 ds = uint du"
  shows "\<exists>dst s. finish_const_div_rem disabled rem sg (width = W32) ty res x q ds du st = define_value res (VReg dst) ty s
    \<and> yields st r (width_bits width) (opw width) (if rem then remainder_of sg ds du n else quotient_of sg ds du n) (dst, s)"
proof (cases rem)
  case False
  then show ?thesis using q cl by (auto simp: finish_const_div_rem_def intro: yields_ret)
next
  case True
  let ?w = "width_bits width" and ?c = "if sg then ds else uint du"
  have cls: "reg_class_for_type ty = opw width" "ty \<noteq> B1" using ty by (auto simp: opw_def)
  define ds' where "ds' = (if width = W32 then signed_take_bit 31 ds else ds)"
  define a where "a = (if sg then word_of_int \<bar>ds'\<bar> else if width = W32 then du AND 0xFFFFFFFF else du)"
  have ds': "ds' = ds" if sg using d that by (cases width) (auto simp: ds'_def divisor_ok_def in_range_def signed_take_bit_int_eq_self)
  have du32: "uint (take_bit 32 du) = uint du" "du AND 0xFFFFFFFF = du" if "\<not> sg" "width = W32"
  proof -
    have "uint du < 2 ^ 32" using d that by (simp add: divisor_ok_def)
    then show 1: "uint (take_bit 32 du) = uint du" by (simp add: unsigned_take_bit_eq take_bit_int_eq_self)
    have "du AND 0xFFFFFFFF = take_bit 32 du" by (simp add: take_bit_eq_mask mask_eq_exp_minus_1)
    with 1 show "du AND 0xFFFFFFFF = du" by (simp add: word_uint_eq_iff)
  qed
  have "uint (word_of_int \<bar>ds\<bar> :: u64) = \<bar>ds\<bar>" if sg
  proof -
    have "\<bar>ds\<bar> \<le> 2 ^ (?w - 1)" using d that by (auto simp: divisor_ok_def in_range_def)
    also have "(2 :: int) ^ (?w - 1) < 2 ^ 64" using width_bits_cases[of width] by auto
    finally show ?thesis by (simp add: take_bit_int_eq_self)
  qed
  then have c: "?c = (if sg \<and> ds' < 0 then - 1 else 1) * uint a" using ds' du32 by (auto simp: a_def)
  let ?rem = "case mersenne_form disabled (if width = W32 then 32 else 64) a of
      Some (k, is_minus) \<Rightarrow> mersenne_rem (reg_class_for_type ty) (sg \<and> ds' < 0) x q k is_minus st
    | None \<Rightarrow> msub_rem sg (width = W32) ty x q ds du st"
  have w: "(if width = W32 then 32 else 64) = ?w" by (cases width) auto
  have "yields st r ?w (opw width) (n - quotient_of sg ds du n * ?c) ?rem"
  proof (cases "mersenne_form disabled ?w a")
    case None
    define ci where "ci = (if width = W32 then if sg then signed_take_bit 31 ds else uint (take_bit 32 du) else ds)"
    have "take_bit ?w (n - quotient_of sg ds du n * ci) = take_bit ?w (n - quotient_of sg ds du n * ?c)"
      using ds' du32(1) ds uint_bounded[of du]
      by (cases width) (auto simp: ci_def ds'_def take_bit_int_eq_self intro!: take_bit_minus_mult)
    moreover have "yields st r ?w (opw width) (n - quotient_of sg ds du n * ci) (msub_rem sg (width = W32) ty x q ds du st)"
      using yields_msub[of st r ty x n q _ ci] x q cls by (simp add: msub_rem_def Let_def ci_def)
    ultimately show ?thesis unfolding w using None by (simp add: yields_eqI)
  next
    case (Some p)
    obtain k mi where p: "p = (k, mi)" by (cases p)
    note mf = mersenne_formD[OF Some[unfolded p]]
    show ?thesis unfolding c mf(3) w using yields_mersenne[of st r "opw width" x n q, OF _ _ mf(1)] x q cls mf(2) Some p by simp
  qed
  then have y: "yields st r ?w (opw width) (remainder_of sg ds du n) ?rem" unfolding remainder_eq .
  obtain dst s where p: "?rem = (dst, s)" by (metis surj_pair)
  have "finish_const_div_rem disabled rem sg (width = W32) ty res x q ds du st = define_value res (VReg dst) ty s"
    unfolding finish_const_div_rem_def Let_def ds'_def[symmetric] a_def[symmetric] p using True by simp
  with y p True show ?thesis by auto
qed

end
