(* ===== verification/A64_Arith.thy ===== *)
theory A64_Arith
  imports Const_Div
begin

text \<open>
  The selection of integer arithmetic, \<open>select_binop\<close> and \<open>select_remainder\<close> of
  \<open>trust-cg-lower/src/isel.rs\<close>, with constant folding into immediates, the extension of
  narrow operands and the constant division. The theorems are a simulation: when the
  registers hold the values of the operands, the code the selector emits leaves the value of
  the LIR operation in the register it binds to the result, and every other value stays
  where it was.
\<close>

section \<open>The selectors\<close>

datatype a64_binop = Add | Sub | Mul | Sdiv | Udiv

definition aarch64_add_imm12_form :: "int \<Rightarrow> (opcode \<times> int) option" where
  "aarch64_add_imm12_form off =
     (if off < 0 then None
      else if off \<le> 0xFFF then Some (AddRI, off)
      else if off AND 0xFFF = 0 \<and> drop_bit 12 off \<le> 0xFFF then Some (AddRIShift12, drop_bit 12 off)
      else None)"

definition mixed_int_binop_result_type :: "a64_binop \<Rightarrow> lir_type \<Rightarrow> lir_type \<Rightarrow> lir_type option" where
  "mixed_int_binop_result_type op lhs rhs =
     (if op \<notin> {Add, Sub, Mul} then None
      else if (is_int32ish lhs \<and> rhs = I64) \<or> (lhs = I64 \<and> is_int32ish rhs) then Some I64
      else None)"

definition extend_narrow_for_width_op ::
    "nat \<Rightarrow> lir_type \<Rightarrow> bool \<Rightarrow> selector \<Rightarrow> (isel_error, isel_operand \<times> selector) result" where
  "extend_narrow_for_width_op val ty is_signed st = rbind (use_value val st) (\<lambda>(src, st).
     if ty = I8 \<or> ty = I16
     then let opc = (if ty = I8 then if is_signed then Sxtb else Uxtb else if is_signed then Sxth else Uxth);
              (dst, st) = new_vreg Gpr32 st
          in Inr (VReg dst, emit opc [VReg dst, src] st)
     else Inr (src, st))"

definition runtime_alloc_size_operand :: "nat \<Rightarrow> selector \<Rightarrow> (isel_error, isel_operand \<times> selector) result" where
  "runtime_alloc_size_operand val st = rbind (use_value val st) (\<lambda>(operand, st).
     case operand of
       VReg vreg \<Rightarrow> if v_class vreg = Gpr64 then Inr (operand, st)
         else let (widened, st) = new_vreg Gpr64 st in Inr (VReg widened, emit Uxtw [VReg widened, VReg vreg] st)
     | PReg XZR \<Rightarrow> Inr (operand, st)
     | PReg WZR \<Rightarrow> let (widened, st) = new_vreg Gpr64 st in Inr (VReg widened, emit Uxtw [VReg widened, PReg WZR] st)
     | Imm _ \<Rightarrow> Inr (operand, st))"

definition alloc_or_use :: "reg_class \<Rightarrow> nat \<Rightarrow> lir_type \<Rightarrow> selector \<Rightarrow> (isel_error, isel_operand \<times> selector) result" where
  "alloc_or_use class val ty st =
     (if class = Gpr64 \<and> is_int32ish ty then runtime_alloc_size_operand val st else use_value val st)"

text \<open>An addition with one constant operand that an immediate can hold: the other operand, its
  type, the opcode and the encoded immediate.\<close>

definition add_imm_form :: "a64_binop \<Rightarrow> nat \<Rightarrow> nat \<Rightarrow> lir_type \<Rightarrow> lir_type \<Rightarrow> selector \<Rightarrow> (nat \<times> lir_type \<times> opcode \<times> int) option" where
  "add_imm_form op lhs_val rhs_val lhs_ty rhs_ty st =
     (if op \<noteq> Add then None
      else let rhs_c = map_option snd (iconst_origins st rhs_val);
               lhs_c = map_option snd (iconst_origins st lhs_val);
               folded = (case (rhs_c, lhs_c) of
                   (Some c, None) \<Rightarrow> Some (lhs_val, lhs_ty, c)
                 | (None, Some c) \<Rightarrow> Some (rhs_val, rhs_ty, c)
                 | _ \<Rightarrow> None)
           in case folded of None \<Rightarrow> None
              | Some (reg_val, reg_ty, c) \<Rightarrow> (case aarch64_add_imm12_form c of
                    Some (oc, enc) \<Rightarrow> Some (reg_val, reg_ty, oc, enc)
                  | None \<Rightarrow> if 1 \<le> - c \<and> - c \<le> 0xFFF then Some (reg_val, reg_ty, SubRI, - c) else None))"

definition binop_opcode :: "a64_binop \<Rightarrow> opcode" where
  "binop_opcode op = (case op of Add \<Rightarrow> AddRR | Sub \<Rightarrow> SubRR | Mul \<Rightarrow> MulRR | Sdiv \<Rightarrow> SDiv | Udiv \<Rightarrow> UDiv)"

definition binop_reg_operands ::
    "a64_binop \<Rightarrow> reg_class \<Rightarrow> lir_type \<Rightarrow> nat \<Rightarrow> nat \<Rightarrow> lir_type \<Rightarrow> lir_type \<Rightarrow> selector \<Rightarrow>
      (isel_error, isel_operand \<times> isel_operand \<times> selector) result" where
  "binop_reg_operands op class ty lhs_val rhs_val lhs_ty rhs_ty st =
     (if op \<in> {Sdiv, Udiv} \<and> ty \<in> {I8, I16}
      then rbind (extend_narrow_for_width_op lhs_val ty (op = Sdiv) st) (\<lambda>(lhs, st).
           rbind (extend_narrow_for_width_op rhs_val ty (op = Sdiv) st) (\<lambda>(rhs, st). Inr (lhs, rhs, st)))
      else rbind (alloc_or_use class lhs_val lhs_ty st) (\<lambda>(lhs, st).
           rbind (alloc_or_use class rhs_val rhs_ty st) (\<lambda>(rhs, st). Inr (lhs, rhs, st))))"

definition select_binop :: "bool \<Rightarrow> a64_binop \<Rightarrow> instruction \<Rightarrow> selector \<Rightarrow> (isel_error, selector) result" where
  "select_binop disabled op inst st =
     rbind (require_args inst 2 ''BinOp'') (\<lambda>_. rbind (require_result inst ''BinOp'') (\<lambda>_.
     let lhs_val = args inst ! 0; rhs_val = args inst ! 1; result_val = results inst ! 0;
         lhs_ty = value_type st lhs_val; rhs_ty = value_type st rhs_val;
         ty = (case mixed_int_binop_result_type op lhs_ty rhs_ty of Some t \<Rightarrow> t | None \<Rightarrow> lhs_ty);
         class = reg_class_for_type ty
     in case add_imm_form op lhs_val rhs_val lhs_ty rhs_ty st of
          Some (reg_val, reg_ty, oc, enc_imm) \<Rightarrow>
            rbind (alloc_or_use class reg_val reg_ty st) (\<lambda>(reg, st).
              let (dst, st) = new_vreg class st;
                  st = emit oc [VReg dst, reg, Imm enc_imm] st
              in Inr (define_value result_val (VReg dst) ty st))
        | None \<Rightarrow>
            rbind (if op \<in> {Sdiv, Udiv} then try_select_const_div_rem disabled inst (op = Sdiv) False ty st else Inr (False, st))
              (\<lambda>(done, st). if done then Inr st
                else let (dst, st) = new_vreg class st in
                  rbind (binop_reg_operands op class ty lhs_val rhs_val lhs_ty rhs_ty st) (\<lambda>(lhs, rhs, st).
                    let st = emit (binop_opcode op) [VReg dst, lhs, rhs] st
                    in Inr (define_value result_val (VReg dst) ty st)))))"

definition select_remainder :: "bool \<Rightarrow> bool \<Rightarrow> instruction \<Rightarrow> selector \<Rightarrow> (isel_error, selector) result" where
  "select_remainder disabled is_signed inst st =
     rbind (require_args inst 2 ''Remainder'') (\<lambda>_. rbind (require_result inst ''Remainder'') (\<lambda>_.
     let lhs_val = args inst ! 0; rhs_val = args inst ! 1; result_val = results inst ! 0;
         ty = value_type st lhs_val;
         class = reg_class_for_type ty
     in rbind (try_select_const_div_rem disabled inst is_signed True ty st) (\<lambda>(done, st).
        if done then Inr st
        else rbind (if ty \<in> {I8, I16} then extend_narrow_for_width_op lhs_val ty is_signed st else use_value lhs_val st) (\<lambda>(lhs, st).
             rbind (if ty \<in> {I8, I16} then extend_narrow_for_width_op rhs_val ty is_signed st else use_value rhs_val st) (\<lambda>(rhs, st).
               let (tmp, st) = new_vreg class st;
                   st = emit (if is_signed then SDiv else UDiv) [VReg tmp, lhs, rhs] st;
                   (dst, st) = new_vreg class st;
                   st = emit Msub [VReg dst, VReg tmp, rhs, lhs] st
               in Inr (define_value result_val (VReg dst) ty st))))))"

section \<open>Values in registers\<close>

fun lir_bits :: "lir_type \<Rightarrow> nat" where
  "lir_bits B1 = 1"
| "lir_bits I8 = 8"
| "lir_bits I16 = 16"
| "lir_bits I32 = 32"
| "lir_bits I64 = 64"
| "lir_bits I128 = 128"

definition int_type :: "lir_type \<Rightarrow> bool" where
  "int_type ty \<longleftrightarrow> ty \<in> {I8, I16, I32, I64}"

lemma lir_bits_class: "int_type ty \<Longrightarrow> lir_bits ty \<le> cbits (reg_class_for_type ty)"
  by (auto simp: int_type_def)

text \<open>
  A value of an integer type is held when it is bound to a register of its class whose low bits
  are its number, or when it is a constant not yet materialized; if it is a constant, the
  pre-scan recorded that number. Only the low bits count: the selector leaves the upper
  bits of narrow values unspecified.
\<close>

definition value_holds :: "selector \<Rightarrow> regs \<Rightarrow> nat \<Rightarrow> lir_type \<Rightarrow> int \<Rightarrow> bool" where
  "value_holds st r v ty n \<longleftrightarrow> value_type st v = ty
     \<and> (case value_map st v of
          None \<Rightarrow> iconst_origins st v \<noteq> None
        | Some p \<Rightarrow> (\<exists>d. p = VReg d \<and> v_class d = reg_class_for_type ty) \<and> arg st r (lir_bits ty) p n)
     \<and> (case iconst_origins st v of
          None \<Rightarrow> True
        | Some (cty, imm) \<Rightarrow> cty = ty \<and> - (2 ^ 63) \<le> imm \<and> imm < 2 ^ 63 \<and> take_bit (lir_bits ty) imm = take_bit (lir_bits ty) n)"

text \<open>Selection may bind constants it materializes and emit code, but every held value stays
  held, no register allocated before changes, and the encodability of the code is kept.\<close>

definition extends :: "selector \<Rightarrow> selector \<Rightarrow> regs \<Rightarrow> bool" where
  "extends st s r \<longleftrightarrow> next_vreg st \<le> next_vreg s \<and> iconst_origins s = iconst_origins st \<and> (enc_ok st \<longrightarrow> enc_ok s)
     \<and> (\<forall>i < next_vreg st. regs_of s r i = regs_of st r i)
     \<and> (\<forall>v. value_map s v = value_map st v \<or> (\<exists>d. value_map s v = Some (VReg d) \<and> next_vreg st \<le> v_id d))
     \<and> (\<forall>v ty n. int_type ty \<longrightarrow> value_holds st r v ty n \<longrightarrow> value_holds s r v ty n)"

lemma extends_refl [simp]: "extends st st r"
  by (simp add: extends_def)

lemma extends_trans:
  assumes a: "extends st s r" and b: "extends s t r"
  shows "extends st t r"
proof -
  have "value_map t v = value_map st v \<or> (\<exists>d. value_map t v = Some (VReg d) \<and> next_vreg st \<le> v_id d)" for v
  proof (cases "value_map t v = value_map s v")
    case True
    then show ?thesis using a by (simp add: extends_def)
  next
    case False
    then obtain d where "value_map t v = Some (VReg d)" "next_vreg s \<le> v_id d" using b by (auto simp: extends_def)
    moreover have "next_vreg st \<le> next_vreg s" using a by (simp add: extends_def)
    ultimately show ?thesis by auto
  qed
  then show ?thesis using a b by (simp add: extends_def)
qed

lemma extends_holds: "extends st s r \<Longrightarrow> int_type ty \<Longrightarrow> value_holds st r v ty n \<Longrightarrow> value_holds s r v ty n"
  by (simp add: extends_def)

lemma extends_arg: "extends st s r \<Longrightarrow> arg st r b p n \<Longrightarrow> arg s r b p n"
  by (cases p) (auto simp: extends_def arg_def operand_ok_def)

lemma keeps_holds: "keeps st s r \<Longrightarrow> value_holds st r v ty n \<Longrightarrow> value_holds s r v ty n"
  using frame_fields[of s st] arg_keeps[of st s r]
  by (auto simp: value_holds_def keeps_def value_type_def split: option.splits)

lemma keeps_extends: "keeps st s r \<Longrightarrow> extends st s r"
  using keeps_holds[of st s r] frame_fields[of s st] by (auto simp: extends_def keeps_def)

lemma yields_extends: "yields st r b cl n (d, s) \<Longrightarrow> extends st s r \<and> v_class d = cl \<and> arg s r b (VReg d) n"
  by (simp add: yields_def keeps_extends)

section \<open>Binding the result\<close>

lemma arg_define [simp]: "arg (define_value v op ty st) r b p n = arg st r b p n"
  by (auto simp: arg_def operand_ok_def split: isel_operand.splits)

lemma define_fields [simp]:
  "value_map (define_value v p ty st) = (value_map st)(v \<mapsto> p)" "iconst_origins (define_value v p ty st) = iconst_origins st"
  "value_type (define_value v p ty st) = (value_type st)(v := ty)"
  by (auto simp: define_value_def value_type_def)

lemma define_holds:
  assumes "arg st r (lir_bits ty) (VReg d) n" and "v_class d = reg_class_for_type ty"
  shows "iconst_origins st v = None \<Longrightarrow> value_holds (define_value v (VReg d) ty st) r v ty n"
    and "u \<noteq> v \<Longrightarrow> value_holds st r u ty' n' \<Longrightarrow> value_holds (define_value v (VReg d) ty st) r u ty' n'"
  using assms by (auto simp: value_holds_def split: option.splits)

text \<open>What a selector promises: the result holds its number and nothing else is lost.\<close>

definition selects :: "selector \<Rightarrow> regs \<Rightarrow> nat \<Rightarrow> lir_type \<Rightarrow> int \<Rightarrow> (isel_error, selector) result \<Rightarrow> bool" where
  "selects st r res ty n out \<longleftrightarrow> (\<exists>s. out = Inr s \<and> value_holds s r res ty n \<and> (enc_ok st \<longrightarrow> enc_ok s)
     \<and> (\<forall>v ty' n'. v \<noteq> res \<longrightarrow> int_type ty' \<longrightarrow> value_holds st r v ty' n' \<longrightarrow> value_holds s r v ty' n'))"

lemma selectsI:
  assumes "extends st s r" and "arg s r (lir_bits ty) (VReg d) n" and "v_class d = reg_class_for_type ty"
    and "iconst_origins st res = None"
  shows "selects st r res ty n (Inr (define_value res (VReg d) ty s))"
proof -
  have "iconst_origins s res = None" using assms by (simp add: extends_def)
  with define_holds[OF assms(2,3)] assms(1) show ?thesis by (auto simp: selects_def extends_def)
qed

section \<open>Using values\<close>

lemma use_value_holds:
  assumes "int_type ty" and h: "value_holds st r v ty n"
  shows "\<exists>d s. use_value v st = Inr (VReg d, s) \<and> extends st s r \<and> v_class d = reg_class_for_type ty \<and> arg s r (lir_bits ty) (VReg d) n"
proof (cases "value_map st v")
  case (Some p)
  then show ?thesis using h by (auto simp: value_holds_def use_value_def)
next
  case None
  then obtain imm where c: "iconst_origins st v = Some (ty, imm)" "take_bit (lir_bits ty) imm = take_bit (lir_bits ty) n"
    using h by (auto simp: value_holds_def split: option.splits)
  have ty: "ty \<noteq> B1" "ty \<noteq> I128" using assms(1) by (auto simp: int_type_def)
  obtain d s where ds: "(case new_vreg (reg_class_for_type ty) st of (d, s) \<Rightarrow> (d, emit_iconst_materialization d ty imm s)) = (d, s)"
    by (rule prod.exhaust)
  have y: "yields st r (lir_bits ty) (reg_class_for_type ty) imm (d, s)"
    using yields_mono[OF yields_iconst[OF ty(1)] lir_bits_class[OF assms(1)], of st r imm] unfolding ds .
  note e = yields_extends[OF y]
  have u: "use_value v st = Inr (VReg d, define_value v (VReg d) ty s)"
    using ds None c ty by (auto simp: use_value_def rematerialize_iconst_def Let_def split: prod.splits)
  have a: "arg s r (lir_bits ty) (VReg d) n" using arg_eqI[of s r _ _ imm n] e c(2) by blast
  have keep: "value_holds (define_value v (VReg d) ty s) r u ty' n'" if "int_type ty'" "value_holds st r u ty' n'" for u ty' n'
  proof (cases "u = v")
    case True
    then have "value_holds s r v ty' n'" using that e extends_holds by blast
    moreover have "ty' = ty" "take_bit (lir_bits ty) imm = take_bit (lir_bits ty) n'" using that True c(1) by (auto simp: value_holds_def)
    ultimately show ?thesis using True e arg_eqI[of s r _ _ imm n'] by (auto simp: value_holds_def)
  next
    case False
    then show ?thesis using define_holds(2)[OF a] e that extends_holds by blast
  qed
  have "next_vreg st \<le> v_id d" using ds by (auto simp: new_vreg_def)
  then have "extends st (define_value v (VReg d) ty s) r"
    using e keep unfolding extends_def by auto
  then show ?thesis using u a e by auto
qed

text \<open>The number an operation of a signedness reads from the low \<open>b\<close> bits.\<close>

definition ext :: "bool \<Rightarrow> nat \<Rightarrow> int \<Rightarrow> int" where
  "ext sg b n = (if sg then signed_take_bit (b - 1) n else take_bit b n)"

lemma ext_range: "0 < b \<Longrightarrow> in_range sg b (ext sg b n)"
  using signed_take_bit_int_greater_eq_minus_exp[of "b - 1" n] signed_take_bit_int_less_exp[of "b - 1" n]
  by (auto simp: in_range_def ext_def)

lemma take_bit_ext: "0 < b \<Longrightarrow> take_bit b (ext sg b n) = take_bit b n"
  by (simp add: ext_def take_bit_signed_take_bit take_bit_take_bit)

lemma arg_ext: "0 < b \<Longrightarrow> arg st r b p n \<Longrightarrow> arg st r b p (ext sg b n)"
  by (erule arg_eqI) (simp add: take_bit_ext)

lemma lir_bits_pos: "0 < lir_bits ty"
  by (cases ty) auto

lemma extend_narrow_holds:
  assumes ty: "int_type ty" and h: "value_holds st r v ty n"
  shows "\<exists>d s. extend_narrow_for_width_op v ty sg st = Inr (VReg d, s) \<and> extends st s r \<and> v_class d = reg_class_for_type ty
    \<and> arg s r (cbits (reg_class_for_type ty)) (VReg d) (ext sg (lir_bits ty) n)"
proof -
  from use_value_holds[OF assms] obtain d s where u: "use_value v st = Inr (VReg d, s)" "extends st s r"
    "v_class d = reg_class_for_type ty" "arg s r (lir_bits ty) (VReg d) n" by blast
  note a = arg_ext[OF lir_bits_pos u(4), of sg]
  show ?thesis
  proof (cases "ty = I8 \<or> ty = I16")
    case True
    define oc where "oc = (if ty = I8 then if sg then Sxtb else Uxtb else if sg then Sxth else Uxth)"
    have "rep 32 (alu oc Gpr32 old [opval (regs_of s r) (VReg d)]) (ext sg (lir_bits ty) n)" for old
      using True a ext_range[OF lir_bits_pos, of sg ty n] rep_extend(1,2)[where cl = Gpr32] rep_extend(3,4)[where b = 32 and cl = Gpr32]
      by (auto simp: oc_def arg_def in_range_def simp del: alu.simps)
    moreover have "imm_ok oc 32 (imms [VReg d])" by (simp add: oc_def imms_def)
    ultimately have y: "yields s r 32 Gpr32 (ext sg (lir_bits ty) n) (case new_vreg Gpr32 s of (e, t) \<Rightarrow> (e, emit oc [VReg e, VReg d] t))"
      using a by (intro yields_emit) (auto simp: arg_def simp del: alu.simps)
    obtain e t where et: "(case new_vreg Gpr32 s of (e, t) \<Rightarrow> (e, emit oc [VReg e, VReg d] t)) = (e, t)" by (rule prod.exhaust)
    have "extend_narrow_for_width_op v ty sg st = Inr (VReg e, t)"
      using et u(1) True by (auto simp: extend_narrow_for_width_op_def oc_def new_vreg_def Let_def)
    then show ?thesis using yields_extends[OF y[unfolded et]] extends_trans[OF u(2)] True by auto
  next
    case False
    then show ?thesis using u a ty by (auto simp: extend_narrow_for_width_op_def int_type_def)
  qed
qed

text \<open>The hardware path reserves the destination before it uses the operands.\<close>

lemma reserve_holds: "value_holds st r v ty k \<Longrightarrow> value_holds (st\<lparr>next_vreg := next_vreg st + 1\<rparr>) r v ty k"
  by (auto simp: value_holds_def value_type_def arg_def operand_ok_def split: option.splits isel_operand.splits)

lemma reserved_emit:
  fixes st :: selector and cl :: reg_class
  assumes e: "extends (st\<lparr>next_vreg := next_vreg st + 1\<rparr>) s r"
    and ops: "\<And>p. p \<in> set ops \<Longrightarrow> operand_ok s p \<or> (\<exists>k. p = Imm k)" and imm: "imm_ok op (cbits cl) (imms ops)"
    and alu: "\<And>old. rep b (alu op cl old (map (opval (regs_of s r)) ops)) n"
  defines "d \<equiv> \<lparr>v_id = next_vreg st, v_class = cl\<rparr>"
  shows "extends st (emit op (VReg d # ops) s) r" and "arg (emit op (VReg d # ops) s) r b (VReg d) n"
proof -
  let ?st = "st\<lparr>next_vreg := next_vreg st + 1\<rparr>" and ?s = "emit op (VReg d # ops) s"
  have regs: "regs_of ?s r = (regs_of s r)(next_vreg st := alu op cl (regs_of s r (next_vreg st)) (map (opval (regs_of s r)) ops))"
    by (simp add: emission d_def)
  have nx: "next_vreg st + 1 \<le> next_vreg s" using e by (simp add: extends_def)
  have d: "v_id d = next_vreg st" by (simp add: d_def)
  show "arg ?s r b (VReg d) n" using alu nx by (simp add: arg_def operand_ok_def regs d)
  have fields: "value_map ?s = value_map s" "iconst_origins ?s = iconst_origins s" "value_type ?s = value_type s"
    by (auto simp: emit_def value_type_def)
  have vm: "value_map s v = value_map st v \<or> (\<exists>d. value_map s v = Some (VReg d) \<and> next_vreg st < v_id d)" for v
    using e by (fastforce simp: extends_def)
  have "value_holds ?s r v ty k" if "int_type ty" "value_holds st r v ty k" for v ty k
  proof -
    have "value_holds ?st r v ty k" using that(2) by (rule reserve_holds)
    then have h: "value_holds s r v ty k" using extends_holds[OF e that(1)] by blast
    have "v_id x \<noteq> next_vreg st" if "value_map s v = Some (VReg x)" for x
      using vm[of v] that \<open>value_holds st r v ty k\<close> by (auto simp: value_holds_def arg_def operand_ok_def split: option.splits)
    then show ?thesis using h by (auto simp: value_holds_def fields arg_def operand_ok_def regs split: option.splits)
  qed
  moreover have "enc_ok st \<longrightarrow> enc_ok ?s" using e imm by (auto simp: extends_def enc_ok_emit encodable_def d_def)
  moreover have "\<forall>i < next_vreg st. regs_of ?s r i = regs_of st r i" using e by (auto simp: extends_def regs)
  ultimately show "extends st ?s r" using e vm fields nx unfolding extends_def by fastforce
qed

section \<open>Division and remainder\<close>

text \<open>The LIR division and remainder at \<open>b\<close> bits; a zero divisor gives zero and the
  dividend, as the hardware divide and multiply-subtract do.\<close>

definition div_sem :: "bool \<Rightarrow> nat \<Rightarrow> int \<Rightarrow> int \<Rightarrow> int" where
  "div_sem sg b x y = (if sg then ext sg b x sdiv ext sg b y else ext sg b x div ext sg b y)"

definition rem_sem :: "bool \<Rightarrow> nat \<Rightarrow> int \<Rightarrow> int \<Rightarrow> int" where
  "rem_sem sg b x y = (if sg then ext sg b x smod ext sg b y else ext sg b x mod ext sg b y)"

lemma rem_div_sem: "ext sg b x - div_sem sg b x y * ext sg b y = rem_sem sg b x y"
  by (simp add: div_sem_def rem_sem_def minus_sdiv_mult_eq_smod minus_div_mult_eq_mod)

lemma const_div_rem_holds:
  assumes ty: "ty = (if width = W32 then I32 else I64)"
    and a: "value_holds st r (args inst ! 0) ty x" and b: "value_holds st r (args inst ! 1) ty y"
    and res: "iconst_origins st (results inst ! 0) = None"
  shows "\<exists>fin s. try_select_const_div_rem disabled inst sg rem ty st = Inr (fin, s) \<and>
    (if fin then selects st r (results inst ! 0) ty (if rem then rem_sem sg (lir_bits ty) x y else div_sem sg (lir_bits ty) x y) (Inr s)
     else extends st s r)"
proof -
  have int: "int_type ty" and bits: "lir_bits ty = width_bits width" and cl: "reg_class_for_type ty = opw width"
    and W: "(if ty = I32 then W32 else W64) = width" and nty: "(ty \<noteq> I32 \<and> ty \<noteq> I64) = False"
    using ty by (cases width; simp add: int_type_def opw_def)+
  show ?thesis
  proof (cases "iconst_origins st (args inst ! 1)")
    case None
    then show ?thesis using ty by (auto simp: try_select_const_div_rem_def Let_def)
  next
    case (Some c)
    then obtain imm where c: "iconst_origins st (args inst ! 1) = Some (ty, imm)" and imm: "- (2 ^ 63) \<le> imm" "imm < 2 ^ 63"
      "take_bit (width_bits width) imm = take_bit (width_bits width) y" using b bits by (auto simp: value_holds_def split: option.splits)
    define du where "du = (if width = W32 then take_bit 32 (word_of_int imm) else word_of_int imm :: u64)"
    define ds where "ds = (if width = W32 then signed_take_bit 31 imm else imm)"
    have du: "uint du = take_bit (width_bits width) imm"
      by (cases width) (simp_all add: du_def unsigned_take_bit_eq take_bit_take_bit)
    have ds: "ds = signed_take_bit (width_bits width - 1) imm"
      using imm by (cases width) (simp_all add: ds_def signed_take_bit_int_eq_self)
    have ext: "ext False (width_bits width) y = uint du" "ext True (width_bits width) y = ds"
      unfolding du ds ext_def using imm(3) width_bits_cases[of width]
      by (auto simp: signed_take_bit_eq_iff_take_bit_eq)
    have eq: "try_select_const_div_rem disabled inst sg rem ty st =
        (if (if sg then ds = 0 \<or> ds = 1 \<or> ds = - 1 else du \<le> 1) then Inr (False, st)
         else rbind (use_value (args inst ! 0) st) (\<lambda>(x, st). case const_quotient disabled sg width x ds du st of
            (None, st) \<Rightarrow> Inr (False, st)
          | (Some q, st) \<Rightarrow> Inr (True, finish_const_div_rem disabled rem sg (width = W32) ty (results inst ! 0) x q ds du st)))"
      unfolding try_select_const_div_rem_def Let_def W c option.case prod.case nty if_False du_def[symmetric] ds_def[symmetric] ..
    show ?thesis
    proof (cases "if sg then ds = 0 \<or> ds = 1 \<or> ds = - 1 else du \<le> 1")
      case True
      then show ?thesis unfolding eq by auto
    next
      case False
      from use_value_holds[OF int a] obtain d s where u: "use_value (args inst ! 0) st = Inr (VReg d, s)" "extends st s r"
        "arg s r (width_bits width) (VReg d) x" by (auto simp: bits)
      have pos: "0 < width_bits width" by (cases width) auto
      let ?n = "ext sg (width_bits width) x"
      have n: "arg s r (width_bits width) (VReg d) ?n" "in_range sg (width_bits width) ?n"
        using arg_ext[OF pos u(3)] ext_range[OF pos] by auto
      have "divisor_ok sg (width_bits width) ds du"
        using False ext ext_range[OF pos, of sg y] by (auto simp: divisor_ok_def in_range_def word_le_def)
      note q = const_quotient_correct[OF n this, of disabled]
      obtain res t where qt: "const_quotient disabled sg width (VReg d) ds du s = (res, t)" by (rule prod.exhaust)
      have sem: "quotient_of sg ds du ?n = div_sem sg (width_bits width) x y" "remainder_of sg ds du ?n = rem_sem sg (width_bits width) x y"
        using ext by (cases sg; simp add: quotient_of_def remainder_of_def div_sem_def rem_sem_def)+
      show ?thesis
      proof (cases res)
        case None
        then have "extends s t r" using q qt by (auto simp: quotient_in_def intro: keeps_extends)
        then have "extends st t r" by (rule extends_trans[OF u(2)])
        then show ?thesis using False u(1) qt None unfolding eq by auto
      next
        case (Some qv)
        then have y: "yields s r (width_bits width) (opw width) (quotient_of sg ds du ?n) (qv, t)" using q qt by (simp add: quotient_in_def)
        note e = yields_extends[OF y]
        from finish_correct[OF ty extends_arg[OF conjunct1[OF e] n(1)], of qv sg ds du disabled rem "results inst ! 0"] e
          \<open>divisor_ok sg (width_bits width) ds du\<close> imm(1,2) du
        obtain dst t2 where f: "finish_const_div_rem disabled rem sg (width = W32) ty (results inst ! 0) (VReg d) qv ds du t
            = define_value (results inst ! 0) (VReg dst) ty t2"
          "yields t r (width_bits width) (opw width) (if rem then remainder_of sg ds du ?n else quotient_of sg ds du ?n) (dst, t2)"
          by (auto simp: ds_def)
        note e2 = yields_extends[OF f(2)]
        have "extends st t2 r" using extends_trans[OF u(2)] extends_trans[of s t r t2] e e2 by blast
        moreover have "try_select_const_div_rem disabled inst sg rem ty st = Inr (True, define_value (results inst ! 0) (VReg dst) ty t2)"
          unfolding eq if_not_P[OF False] using u(1) qt Some f(1) by simp
        moreover have "arg t2 r (lir_bits ty) (VReg dst) (if rem then rem_sem sg (lir_bits ty) x y else div_sem sg (lir_bits ty) x y)"
          "v_class dst = reg_class_for_type ty" using e2 unfolding bits cl sem by auto
        ultimately show ?thesis using selectsI[OF _ _ _ res] by auto
      qed
    qed
  qed
qed

lemma const_div_rem_any:
  assumes int: "int_type ty" and "value_holds st r (args inst ! 0) ty x" "value_holds st r (args inst ! 1) ty y"
    "iconst_origins st (results inst ! 0) = None"
  shows "\<exists>fin s. try_select_const_div_rem disabled inst sg rem ty st = Inr (fin, s) \<and>
    (if fin then selects st r (results inst ! 0) ty (if rem then rem_sem sg (lir_bits ty) x y else div_sem sg (lir_bits ty) x y) (Inr s)
     else extends st s r)"
proof -
  consider "ty = I32" | "ty = I64" | "ty = I8 \<or> ty = I16" using int by (auto simp: int_type_def)
  then show ?thesis
  proof cases
    case 1
    then show ?thesis using const_div_rem_holds[of ty W32] assms by simp
  next
    case 2
    then show ?thesis using const_div_rem_holds[of ty W64] assms by simp
  qed (auto simp: try_select_const_div_rem_def)
qed

text \<open>The hardware divide on extended operands.\<close>

lemma hardware_div:
  assumes "int_type ty" and "arg s r (cbits (reg_class_for_type ty)) l (ext sg (lir_bits ty) x)"
    and "arg s r (cbits (reg_class_for_type ty)) q (ext sg (lir_bits ty) y)"
  shows "rep (cbits (reg_class_for_type ty)) (alu (if sg then SDiv else UDiv) (reg_class_for_type ty) old [opval (regs_of s r) l, opval (regs_of s r) q])
    (div_sem sg (lir_bits ty) x y)"
proof -
  let ?c = "cbits (reg_class_for_type ty)" and ?b = "lir_bits ty"
  have "in_range sg ?c n" if "in_range sg ?b n" for n
    using that assms(1) by (auto simp: int_type_def in_range_def split: if_splits)
  then have r: "in_range sg ?c (ext sg ?b x)" "in_range sg ?c (ext sg ?b y)" using ext_range[OF lir_bits_pos] by blast+
  have a: "rep ?c (opval (regs_of s r) l) (ext sg ?b x)" "rep ?c (opval (regs_of s r) q) (ext sg ?b y)"
    using assms(2,3) by (simp_all add: arg_def)
  show ?thesis using rep_signed_ops(4)[OF a] rep_unsigned_ops(4)[OF _ _ a] r
    by (cases sg) (simp_all add: div_sem_def in_range_def del: alu.simps)
qed

section \<open>Immediate forms\<close>

text \<open>The number an addition immediate adds.\<close>

definition imm_value :: "opcode \<Rightarrow> int \<Rightarrow> int" where
  "imm_value oc enc = (if oc = SubRI then - enc else if oc = AddRIShift12 then enc * 2 ^ 12 else enc)"

definition add_imm_ok :: "opcode \<Rightarrow> int \<Rightarrow> bool" where
  "add_imm_ok oc enc \<longleftrightarrow> oc \<in> {AddRI, AddRIShift12, SubRI} \<and> 0 \<le> enc \<and> enc < 2 ^ 12"

lemma add_imm12_form:
  "aarch64_add_imm12_form c = Some (oc, enc) \<Longrightarrow> add_imm_ok oc enc \<and> imm_value oc enc = c"
proof -
  have "drop_bit 12 c * 2 ^ 12 = c" if "c AND 0xFFF = 0"
  proof -
    have "take_bit 12 c = 0" using that by (simp add: take_bit_eq_mask mask_eq_exp_minus_1)
    then show ?thesis using bits_ident[of 12 c] by (simp add: push_bit_eq_mult)
  qed
  moreover have "0 \<le> drop_bit 12 c" if "0 \<le> c" using that by simp
  ultimately show "aarch64_add_imm12_form c = Some (oc, enc) \<Longrightarrow> add_imm_ok oc enc \<and> imm_value oc enc = c"
    by (auto simp: aarch64_add_imm12_form_def add_imm_ok_def imm_value_def split: if_splits)
qed

lemma sub_imm12_form: "\<lbrakk>c \<le> - 1; - c \<le> 0xFFF\<rbrakk> \<Longrightarrow> add_imm_ok SubRI (- c)" "imm_value SubRI (- c) = c"
  by (auto simp: add_imm_ok_def imm_value_def)

lemma add_imm_formD:
  assumes "add_imm_form op l v lty vty st = Some (u, uty, oc, enc)"
  shows "op = Add \<and> add_imm_ok oc enc \<and>
    ((u = l \<and> uty = lty \<and> map_option snd (iconst_origins st v) = Some (imm_value oc enc)) \<or>
     (u = v \<and> uty = vty \<and> map_option snd (iconst_origins st l) = Some (imm_value oc enc)))"
  using assms by (auto simp: add_imm_form_def Let_def sub_imm12_form split: option.splits if_splits dest!: add_imm12_form)

lemma rep_add_imm:
  assumes "add_imm_ok oc enc" and "rep b x m" and "b \<le> cbits cl"
  shows "rep b (alu oc cl old [x, word_of_int enc]) (m + imm_value oc enc)"
proof -
  have "rep b (word_of_int enc) enc" using assms(3) cbits_le(1)[of cl] by (intro rep_word_of_int) linarith
  from rep_alu(4-6)[OF assms(3,2) this] assms(1) show ?thesis
    by (auto simp: add_imm_ok_def imm_value_def simp del: alu.simps)
qed

section \<open>The simulation\<close>

definition binop_sem :: "a64_binop \<Rightarrow> nat \<Rightarrow> int \<Rightarrow> int \<Rightarrow> int" where
  "binop_sem op b x y = (case op of Add \<Rightarrow> x + y | Sub \<Rightarrow> x - y | Mul \<Rightarrow> x * y
     | Sdiv \<Rightarrow> div_sem True b x y | Udiv \<Rightarrow> div_sem False b x y)"

lemma alloc_or_use_int: "int_type ty \<Longrightarrow> alloc_or_use (reg_class_for_type ty) v ty st = use_value v st"
  by (auto simp: alloc_or_use_def is_int32ish_def int_type_def)

lemma mixed_same: "int_type ty \<Longrightarrow> mixed_int_binop_result_type op ty ty = None"
  by (auto simp: mixed_int_binop_result_type_def is_int32ish_def int_type_def)

lemma binop_rr:
  assumes "int_type ty" and "op \<in> {Add, Sub, Mul}" and "rep (lir_bits ty) x m" and "rep (lir_bits ty) y n"
  shows "rep (lir_bits ty) (alu (binop_opcode op) (reg_class_for_type ty) old [x, y]) (binop_sem op (lir_bits ty) m n)"
  using rep_alu(1-3)[OF lir_bits_class[OF assms(1)] assms(3,4)] assms(2)
  by (auto simp: binop_opcode_def binop_sem_def simp del: alu.simps)

text \<open>The operands of the register forms.\<close>

lemma binop_reg_operands_hold:
  assumes ty: "int_type ty" and a: "value_holds st r l ty x" and b: "value_holds st r v ty y"
  shows "\<exists>p q s. binop_reg_operands op (reg_class_for_type ty) ty l v ty ty st = Inr (p, q, s) \<and> extends st s r
    \<and> operand_ok s p \<and> operand_ok s q
    \<and> (\<forall>old. rep (lir_bits ty) (alu (binop_opcode op) (reg_class_for_type ty) old [opval (regs_of s r) p, opval (regs_of s r) q])
        (binop_sem op (lir_bits ty) x y))"
proof (cases "op \<in> {Sdiv, Udiv} \<and> ty \<in> {I8, I16}")
  case True
  from extend_narrow_holds[OF ty a, of "op = Sdiv"] obtain d s where
    d: "extend_narrow_for_width_op l ty (op = Sdiv) st = Inr (VReg d, s)" "extends st s r"
    "arg s r (cbits (reg_class_for_type ty)) (VReg d) (ext (op = Sdiv) (lir_bits ty) x)" by blast
  from extend_narrow_holds[OF ty extends_holds[OF d(2) ty b], of "op = Sdiv"] obtain e t where
    e: "extend_narrow_for_width_op v ty (op = Sdiv) s = Inr (VReg e, t)" "extends s t r"
    "arg t r (cbits (reg_class_for_type ty)) (VReg e) (ext (op = Sdiv) (lir_bits ty) y)" by blast
  have "rep (lir_bits ty) (alu (binop_opcode op) (reg_class_for_type ty) old [opval (regs_of t r) (VReg d), opval (regs_of t r) (VReg e)])
      (binop_sem op (lir_bits ty) x y)" for old
    using rep_mono[OF hardware_div[OF ty extends_arg[OF e(2) d(3)] e(3), of old] lir_bits_class[OF ty]] True
    by (auto simp: binop_opcode_def binop_sem_def simp del: alu.simps)
  then show ?thesis using d e True extends_trans extends_arg[OF e(2) d(3)]
    by (auto simp: binop_reg_operands_def arg_def simp del: alu.simps)
next
  case False
  from use_value_holds[OF ty a] obtain d s where d: "use_value l st = Inr (VReg d, s)" "extends st s r"
    "arg s r (lir_bits ty) (VReg d) x" by blast
  from use_value_holds[OF ty extends_holds[OF d(2) ty b]] obtain e t where e: "use_value v s = Inr (VReg e, t)" "extends s t r"
    "arg t r (lir_bits ty) (VReg e) y" by blast
  note d' = extends_arg[OF e(2) d(3)]
  have "rep (lir_bits ty) (alu (binop_opcode op) (reg_class_for_type ty) old [opval (regs_of t r) (VReg d), opval (regs_of t r) (VReg e)])
      (binop_sem op (lir_bits ty) x y)" for old
  proof (cases "op \<in> {Add, Sub, Mul}")
    case True
    then show ?thesis using binop_rr[OF ty True] d' e(3) by (simp add: arg_def del: alu.simps)
  next
    case nd: False
    then have op: "op = Sdiv \<or> op = Udiv" and w: "lir_bits ty = cbits (reg_class_for_type ty)"
      using False ty by (cases op; auto simp: int_type_def)+
    have "rep (lir_bits ty) (alu (if op = Sdiv then SDiv else UDiv) (reg_class_for_type ty) old
        [opval (regs_of t r) (VReg d), opval (regs_of t r) (VReg e)]) (div_sem (op = Sdiv) (lir_bits ty) x y)"
      using hardware_div[OF ty, of t r "VReg d" "op = Sdiv" x "VReg e" y old] arg_ext[OF lir_bits_pos d'] arg_ext[OF lir_bits_pos e(3)] w
      by (simp del: alu.simps)
    then show ?thesis using op by (auto simp: binop_opcode_def binop_sem_def simp del: alu.simps)
  qed
  then show ?thesis using d e False extends_trans d' by (auto simp: binop_reg_operands_def alloc_or_use_int[OF ty] arg_def simp del: alu.simps)
qed

definition binary_ready :: "selector \<Rightarrow> regs \<Rightarrow> instruction \<Rightarrow> lir_type \<Rightarrow> int \<Rightarrow> int \<Rightarrow> bool" where
  "binary_ready st r inst ty x y \<longleftrightarrow> int_type ty \<and> 2 \<le> length (args inst) \<and> results inst \<noteq> []
     \<and> value_holds st r (args inst ! 0) ty x \<and> value_holds st r (args inst ! 1) ty y
     \<and> iconst_origins st (results inst ! 0) = None"

lemma binary_readyD:
  assumes "binary_ready st r inst ty x y"
  shows "int_type ty" "value_holds st r (args inst ! 0) ty x" "value_holds st r (args inst ! 1) ty y"
    "iconst_origins st (results inst ! 0) = None" "require_args inst 2 w = Inr ()" "require_result inst w = Inr ()"
    "value_type st (args inst ! 0) = ty" "value_type st (args inst ! 1) = ty"
  using assms by (auto simp: binary_ready_def require_args_def require_result_def value_holds_def)

lemma take_bit_add_cong: "take_bit b (i :: int) = take_bit b j \<Longrightarrow> take_bit b (m + i) = take_bit b (m + j)"
  by (metis take_bit_add)

lemma binop_imm:
  assumes "int_type ty" and "value_holds st r l ty x" and "value_holds st r v ty y"
    and "add_imm_form op l v ty ty st = Some (u, uty, oc, enc)"
  shows "\<exists>m. value_holds st r u ty m \<and> uty = ty \<and> add_imm_ok oc enc
    \<and> take_bit (lir_bits ty) (m + imm_value oc enc) = take_bit (lir_bits ty) (binop_sem op (lir_bits ty) x y)"
proof -
  from add_imm_formD[OF assms(4)] have op: "op = Add" and ok: "add_imm_ok oc enc" and
    w: "(u = l \<and> uty = ty \<and> map_option snd (iconst_origins st v) = Some (imm_value oc enc)) \<or>
     (u = v \<and> uty = ty \<and> map_option snd (iconst_origins st l) = Some (imm_value oc enc))" by auto
  have c: "take_bit (lir_bits ty) (imm_value oc enc) = take_bit (lir_bits ty) k"
    if "map_option snd (iconst_origins st z) = Some (imm_value oc enc)" "value_holds st r z ty k" for z k
    using that by (auto simp: value_holds_def split: option.splits)
  from w show ?thesis
  proof (elim disjE conjE)
    assume "u = l" "uty = ty" "map_option snd (iconst_origins st v) = Some (imm_value oc enc)"
    then show ?thesis using c[OF _ assms(3)] assms(2) ok op
      by (intro exI[of _ x]) (auto simp: binop_sem_def intro: take_bit_add_cong)
  next
    assume "u = v" "uty = ty" "map_option snd (iconst_origins st l) = Some (imm_value oc enc)"
    then show ?thesis using c[OF _ assms(2)] assms(3) ok op
      by (intro exI[of _ y]) (auto simp: binop_sem_def add.commute[of x y] intro: take_bit_add_cong)
  qed
qed

lemma select_binop_holds:
  assumes "binary_ready st r inst ty x y"
  shows "selects st r (results inst ! 0) ty (binop_sem op (lir_bits ty) x y) (select_binop disabled op inst st)"
proof -
  note R = binary_readyD[OF assms]
  let ?l = "args inst ! 0" and ?v = "args inst ! 1" and ?res = "results inst ! 0" and ?cl = "reg_class_for_type ty"
  show ?thesis
  proof (cases "add_imm_form op ?l ?v ty ty st")
    case (Some f)
    obtain u uty oc enc where f: "f = (u, uty, oc, enc)" by (rule prod_cases4)
    from binop_imm[OF R(1-3) Some[unfolded f]] obtain m where m: "value_holds st r u ty m" "uty = ty" "add_imm_ok oc enc"
      "take_bit (lir_bits ty) (m + imm_value oc enc) = take_bit (lir_bits ty) (binop_sem op (lir_bits ty) x y)" by blast
    from use_value_holds[OF R(1) m(1)] obtain d s where d: "use_value u st = Inr (VReg d, s)" "extends st s r"
      "arg s r (lir_bits ty) (VReg d) m" by blast
    have "yields s r (lir_bits ty) ?cl (m + imm_value oc enc) (case new_vreg ?cl s of (e, t) \<Rightarrow> (e, emit oc [VReg e, VReg d, Imm enc] t))"
      using rep_add_imm[OF m(3) _ lir_bits_class[OF R(1)]] d(3) m(3)
      by (intro yields_emit) (auto simp: arg_def add_imm_ok_def imms_def simp del: alu.simps)
    note y = yields_extends[OF this[unfolded new_vreg_def prod.case]]
    have "select_binop disabled op inst st = rbind (alloc_or_use ?cl u uty st) (\<lambda>(reg, st). let (dst, st) = new_vreg ?cl st;
        st = emit oc [VReg dst, reg, Imm enc] st in Inr (define_value ?res (VReg dst) ty st))"
      unfolding select_binop_def R rbind_simps Let_def mixed_same[OF R(1)] option.case Some f prod.case ..
    also have "\<dots> = Inr (define_value ?res (VReg \<lparr>v_id = next_vreg s, v_class = ?cl\<rparr>) ty
        (emit oc [VReg \<lparr>v_id = next_vreg s, v_class = ?cl\<rparr>, VReg d, Imm enc] (s\<lparr>next_vreg := next_vreg s + 1\<rparr>)))"
      by (simp add: m(2) alloc_or_use_int[OF R(1)] new_vreg_def d(1))
    finally have eq: "select_binop disabled op inst st = \<dots>" .
    show ?thesis unfolding eq
    proof (rule selectsI[OF extends_trans[OF d(2)] _ _ R(4)])
      show "arg (emit oc [VReg \<lparr>v_id = next_vreg s, v_class = ?cl\<rparr>, VReg d, Imm enc] (s\<lparr>next_vreg := next_vreg s + 1\<rparr>))
          r (lir_bits ty) (VReg \<lparr>v_id = next_vreg s, v_class = ?cl\<rparr>) (binop_sem op (lir_bits ty) x y)"
        by (rule arg_eqI[OF conjunct2[OF conjunct2[OF y]] m(4)])
    qed (rule conjunct1[OF y], simp)
  next
    case None
    have "\<exists>fin s. (if op \<in> {Sdiv, Udiv} then try_select_const_div_rem disabled inst (op = Sdiv) False ty st else Inr (False, st)) = Inr (fin, s) \<and>
      (if fin then selects st r ?res ty (binop_sem op (lir_bits ty) x y) (Inr s) else extends st s r)"
    proof (cases "op \<in> {Sdiv, Udiv}")
      case True
      then have "binop_sem op (lir_bits ty) x y = div_sem (op = Sdiv) (lir_bits ty) x y" by (auto simp: binop_sem_def)
      then show ?thesis unfolding if_P[OF True]
        using const_div_rem_any[OF R(1-4), of disabled "op = Sdiv" False, unfolded if_False] by (simp only:)
    qed auto
    then obtain fin s where fin: "(if op \<in> {Sdiv, Udiv} then try_select_const_div_rem disabled inst (op = Sdiv) False ty st else Inr (False, st)) = Inr (fin, s)"
      "if fin then selects st r ?res ty (binop_sem op (lir_bits ty) x y) (Inr s) else extends st s r" by blast
    have eq: "select_binop disabled op inst st = (if fin then Inr s else let (dst, st) = new_vreg ?cl s in
        rbind (binop_reg_operands op ?cl ty ?l ?v ty ty st) (\<lambda>(lhs, rhs, st).
          let st = emit (binop_opcode op) [VReg dst, lhs, rhs] st in Inr (define_value ?res (VReg dst) ty st)))"
      unfolding select_binop_def R rbind_simps Let_def mixed_same[OF R(1)] option.case None fin(1) prod.case ..
    show ?thesis
    proof (cases fin)
      case True
      then show ?thesis using fin(2) unfolding eq by simp
    next
      case False
      then have e: "extends st s r" using fin(2) by simp
      note h = reserve_holds[OF extends_holds[OF e R(1) R(2)]] reserve_holds[OF extends_holds[OF e R(1) R(3)]]
      from binop_reg_operands_hold[OF R(1) h, of op] obtain p q t where
        t: "binop_reg_operands op ?cl ty ?l ?v ty ty (s\<lparr>next_vreg := next_vreg s + 1\<rparr>) = Inr (p, q, t)"
        "extends (s\<lparr>next_vreg := next_vreg s + 1\<rparr>) t r" "operand_ok t p" "operand_ok t q"
        "\<And>old. rep (lir_bits ty) (alu (binop_opcode op) ?cl old [opval (regs_of t r) p, opval (regs_of t r) q]) (binop_sem op (lir_bits ty) x y)"
        by blast
      let ?d = "\<lparr>v_id = next_vreg s, v_class = ?cl\<rparr>"
      have i: "imm_ok (binop_opcode op) (cbits ?cl) (imms [p, q])"
        using t(3,4) by (cases op) (auto simp: binop_opcode_def imms_def operand_ok_def split: isel_operand.splits)
      note r = reserved_emit[OF t(2), of "[p, q]" "binop_opcode op" ?cl "lir_bits ty" "binop_sem op (lir_bits ty) x y"]
      have "extends s (emit (binop_opcode op) [VReg ?d, p, q] t) r"
        "arg (emit (binop_opcode op) [VReg ?d, p, q] t) r (lir_bits ty) (VReg ?d) (binop_sem op (lir_bits ty) x y)"
        using r t(3-5) i by (auto simp del: alu.simps)
      then show ?thesis using selectsI[OF extends_trans[OF e] _ _ R(4)] False t(1)
        unfolding eq by (simp add: new_vreg_def)
    qed
  qed
qed

lemma width_operand_holds:
  assumes ty: "int_type ty" and h: "value_holds st r v ty n"
  shows "\<exists>d s. (if ty \<in> {I8, I16} then extend_narrow_for_width_op v ty sg st else use_value v st) = Inr (VReg d, s)
    \<and> extends st s r \<and> arg s r (cbits (reg_class_for_type ty)) (VReg d) (ext sg (lir_bits ty) n)"
proof (cases "ty \<in> {I8, I16}")
  case True
  then show ?thesis using extend_narrow_holds[OF assms, of sg] by auto
next
  case False
  then have "lir_bits ty = cbits (reg_class_for_type ty)" using ty by (auto simp: int_type_def)
  then show ?thesis using use_value_holds[OF assms] arg_ext[OF lir_bits_pos] False by fastforce
qed

lemma select_remainder_holds:
  assumes "binary_ready st r inst ty x y"
  shows "selects st r (results inst ! 0) ty (rem_sem sg (lir_bits ty) x y) (select_remainder disabled sg inst st)"
proof -
  note R = binary_readyD[OF assms]
  let ?l = "args inst ! 0" and ?v = "args inst ! 1" and ?res = "results inst ! 0" and ?cl = "reg_class_for_type ty"
  from const_div_rem_any[OF R(1-4), of disabled sg True, unfolded if_True] obtain fin s where
    fin: "try_select_const_div_rem disabled inst sg True ty st = Inr (fin, s)"
    "if fin then selects st r ?res ty (rem_sem sg (lir_bits ty) x y) (Inr s) else extends st s r" by blast
  show ?thesis
  proof (cases fin)
    case True
    then show ?thesis using fin by (simp add: select_remainder_def R Let_def)
  next
    case False
    then have e: "extends st s r" using fin(2) by simp
    from width_operand_holds[OF R(1) extends_holds[OF e R(1,2)], of sg] obtain p t where
      p: "(if ty \<in> {I8, I16} then extend_narrow_for_width_op ?l ty sg s else use_value ?l s) = Inr (VReg p, t)"
      "extends s t r" "arg t r (cbits ?cl) (VReg p) (ext sg (lir_bits ty) x)" by blast
    note et = extends_trans[OF e p(2)]
    from width_operand_holds[OF R(1) extends_holds[OF et R(1,3)], of sg] obtain q u where
      q: "(if ty \<in> {I8, I16} then extend_narrow_for_width_op ?v ty sg t else use_value ?v t) = Inr (VReg q, u)"
      "extends t u r" "arg u r (cbits ?cl) (VReg q) (ext sg (lir_bits ty) y)" by blast
    note eu = extends_trans[OF et q(2)] and p' = extends_arg[OF q(2) p(3)]
    let ?oc = "if sg then SDiv else UDiv"
    obtain tmp w where w: "(case new_vreg ?cl u of (d, s) \<Rightarrow> (d, emit ?oc [VReg d, VReg p, VReg q] s)) = (tmp, w)" by (rule prod.exhaust)
    have y: "yields u r (cbits ?cl) ?cl (div_sem sg (lir_bits ty) x y) (tmp, w)"
      unfolding w[symmetric] using hardware_div[OF R(1) p' q(3)] p' q(3)
      by (intro yields_emit) (auto simp: arg_def imms_def simp del: alu.simps)
    note ew = yields_extends[OF y]
    obtain dst z where z: "(case new_vreg ?cl w of (d, s) \<Rightarrow> (d, emit Msub [VReg d, VReg tmp, VReg q, VReg p] s)) = (dst, z)" by (rule prod.exhaust)
    have y2: "yields w r (cbits ?cl) ?cl (rem_sem sg (lir_bits ty) x y) (dst, z)"
      unfolding z[symmetric] rem_div_sem[symmetric] using rep_alu(9)[OF order_refl] ew extends_arg[OF conjunct1[OF ew] p'] extends_arg[OF conjunct1[OF ew] q(3)]
      by (intro yields_emit) (auto simp: arg_def imms_def simp del: alu.simps)
    note ez = yields_extends[OF yields_mono[OF y2 lir_bits_class[OF R(1)]]]
    have "select_remainder disabled sg inst st = Inr (define_value ?res (VReg dst) ty z)"
      unfolding select_remainder_def R rbind_simps Let_def fin(1) prod.case p(1) q(1)
      using False w z by (auto simp: new_vreg_def)
    then show ?thesis using selectsI[OF extends_trans[OF eu extends_trans[of u w r z]] _ _ R(4)] ew ez by simp
  qed
qed

section \<open>Properties\<close>

text \<open>A state for the witnesses: value 0 is in register 0, value 1 is the constant \<open>c\<close>, and
  value 2 is in register 1.\<close>

definition sample_state :: "lir_type \<Rightarrow> lir_type \<Rightarrow> int \<Rightarrow> selector" where
  "sample_state ty cty c = \<lparr>next_vreg = 2, insts = [],
     value_map = [0 \<mapsto> VReg \<lparr>v_id = 0, v_class = reg_class_for_type ty\<rparr>, 2 \<mapsto> VReg \<lparr>v_id = 1, v_class = reg_class_for_type ty\<rparr>],
     value_types = [0 \<mapsto> ty, 1 \<mapsto> cty, 2 \<mapsto> ty], iconst_origins = [1 \<mapsto> (cty, c)], i128_high_map = Map.empty\<rparr>"

definition sample_regs :: "int \<Rightarrow> int \<Rightarrow> regs" where
  "sample_regs x y = (\<lambda>_. 0)(0 := word_of_int x, 1 := word_of_int y)"

lemma sample_holds:
  "int_type ty \<Longrightarrow> value_holds (sample_state ty cty c) (sample_regs x y) 0 ty x"
  "int_type ty \<Longrightarrow> value_holds (sample_state ty cty c) (sample_regs x y) 2 ty y"
  "\<lbrakk>- (2 ^ 63) \<le> c; c < 2 ^ 63\<rbrakk> \<Longrightarrow> value_holds (sample_state ty cty c) (sample_regs x y) 1 cty c"
  by (auto simp: value_holds_def sample_state_def value_type_def sample_regs_def arg_def operand_ok_def rep_def regs_of_def
      run_def uint_word_of_int int_type_def take_bit_take_bit)

lemma sample_origins: "iconst_origins (sample_state ty cty c) = [1 \<mapsto> (cty, c)]" "enc_ok (sample_state ty cty c)"
  by (simp_all add: sample_state_def enc_ok_def)

text \<open>C2. Integer binary operations. When both operands hold numbers of one integer type,
  \<open>select_binop\<close> succeeds, and running the code it emits leaves in the result's register the sum,
  difference, product or quotient of the two numbers modulo the width of the type: the quotient is
  the one of the operands read at that width with the sign of the operation, and zero for a zero divisor.
  This holds on every path: immediate additions, reciprocal multiplications, powers of two, and the
  hardware divide with extended narrow operands. Every other value keeps its number, and the
  instructions emitted are encodable.\<close>

theorem select_binop_correct:
  assumes "binary_ready st r inst ty x y"
  shows "\<exists>s. select_binop disabled op inst st = Inr s
    \<and> value_holds s r (results inst ! 0) ty (binop_sem op (lir_bits ty) x y)
    \<and> (enc_ok st \<longrightarrow> enc_ok s)
    \<and> (\<forall>v ty' n. v \<noteq> results inst ! 0 \<longrightarrow> int_type ty' \<longrightarrow> value_holds st r v ty' n \<longrightarrow> value_holds s r v ty' n)"
  using select_binop_holds[OF assms, of op disabled] by (simp add: selects_def)

theorem select_binop_correct_witness:
  "\<exists>s. select_binop False Sdiv \<lparr>args = [0, 1], results = [3]\<rparr> (sample_state I32 I32 7) = Inr s
    \<and> value_holds s (sample_regs (- 100) 5) 3 I32 (- 14) \<and> enc_ok s \<and> value_holds s (sample_regs (- 100) 5) 2 I32 5"
proof -
  have i: "int_type I32" by (simp add: int_type_def)
  have r: "binary_ready (sample_state I32 I32 7) (sample_regs (- 100) 5) \<lparr>args = [0, 1], results = [3]\<rparr> I32 (- 100) 7"
    using sample_holds(1)[OF i] sample_holds(3)[of 7] i by (simp add: binary_ready_def sample_origins)
  have "binop_sem Sdiv (lir_bits I32) (- 100) 7 = - 14"
    by (simp add: binop_sem_def div_sem_def ext_def signed_take_bit_eq_take_bit_shift signed_divide_int_def)
  then show ?thesis
    using select_binop_correct[OF r, of False Sdiv] sample_holds(2)[OF i, of I32 7 "- 100" 5] sample_origins(2)[of I32 I32 7] i by auto
qed

text \<open>C3. Integer remainders. When both operands hold numbers of one integer type,
  \<open>select_remainder\<close> succeeds, and running the code it emits leaves in the result's register the remainder
  of the two numbers, read at the width of the type with the sign of the operation: the truncating
  remainder for the signed operation, and the dividend for a zero divisor. This holds for the shift and mask forms of
  powers of two and Mersenne divisors, the multiply-subtract after a reciprocal
  multiplication and the hardware divide. Every other value keeps its number, and the instructions
  emitted are encodable.\<close>

theorem select_remainder_correct:
  assumes "binary_ready st r inst ty x y"
  shows "\<exists>s. select_remainder disabled is_signed inst st = Inr s
    \<and> value_holds s r (results inst ! 0) ty (rem_sem is_signed (lir_bits ty) x y)
    \<and> (enc_ok st \<longrightarrow> enc_ok s)
    \<and> (\<forall>v ty' n. v \<noteq> results inst ! 0 \<longrightarrow> int_type ty' \<longrightarrow> value_holds st r v ty' n \<longrightarrow> value_holds s r v ty' n)"
  using select_remainder_holds[OF assms, of is_signed disabled] by (simp add: selects_def)

theorem select_remainder_correct_witness:
  "\<exists>s. select_remainder False True \<lparr>args = [0, 2], results = [3]\<rparr> (sample_state I8 I8 0) = Inr s
    \<and> value_holds s (sample_regs (- 100) 7) 3 I8 (- 2) \<and> enc_ok s"
proof -
  have i: "int_type I8" by (simp add: int_type_def)
  have r: "binary_ready (sample_state I8 I8 0) (sample_regs (- 100) 7) \<lparr>args = [0, 2], results = [3]\<rparr> I8 (- 100) 7"
    using sample_holds(1,2)[OF i] i by (simp add: binary_ready_def sample_origins)
  have "rem_sem True (lir_bits I8) (- 100) 7 = - 2"
    by (simp add: rem_sem_def ext_def signed_take_bit_eq_take_bit_shift signed_modulo_int_def signed_divide_int_def)
  then show ?thesis using select_remainder_correct[OF r, of False True] sample_origins(2)[of I8 I8 0] by auto
qed

definition mixed_add :: "int \<Rightarrow> int \<Rightarrow> u64 option" where
  "mixed_add x c = (case select_binop False Add \<lparr>args = [0, 1], results = [3]\<rparr> (sample_state I64 I32 c) of
     Inl _ \<Rightarrow> None
   | Inr s \<Rightarrow> (case value_map s 3 of Some p \<Rightarrow> Some (opval (regs_of s (sample_regs x 0)) p) | None \<Rightarrow> None))"


end
