(* ===== verification/A64_Decode.thy ===== *)
theory A64_Decode
  imports Prelude
begin

text \<open>
  The AArch64 decoder of \<open>trust-cg-lift/src/disasm/aarch64.rs\<close>: the decoded forms, the
  checks of the allocation tables, one function per instruction class, and \<open>decode\<close>, which
  dispatches a 32-bit word to them. A struct of the source is the argument list of the constructor
  that carries it, in the source's field order, which the comment beside the constructor repeats.
\<close>

section \<open>Decoded forms\<close>

datatype load_store_index_mode = IxPostIndex | IxPreIndex

datatype load_store_pair_address_mode = PairSignedOffset | PairPostIndex | PairPreIndex

datatype lse_atomic_rmw_op = LseAdd | LseClr | LseEor | LseSet | LseSwp | LseSmax | LseSmin | LseUmax | LseUmin

datatype system_barrier_kind = Dsb | Dmb | Isb

datatype neon_element_size = ElemB | ElemH | ElemS | ElemD

datatype (plugins only: code size) a64_instruction =
    AddSubShiftedReg u8 u8 bool u8 u8 u8 u8 u8  \<comment> \<open>sf op set_flags shift rm imm6 rn rd\<close>
  | LogicalShiftedReg u8 u8 u8 bool u8 u8 u8 u8  \<comment> \<open>sf opc shift n rm imm6 rn rd\<close>
  | LogicalImm u8 u8 bool u8 u8 u8 u8  \<comment> \<open>sf opc n immr imms rn rd\<close>
  | AddSubImm u8 u8 bool bool u16 u8 u8  \<comment> \<open>sf op set_flags shift12 imm12 rn rd\<close>
  | AddSubCarry u8 u8 bool u8 u8 u8  \<comment> \<open>sf op set_flags rm rn rd\<close>
  | MoveWide u8 u8 u8 u16 u8  \<comment> \<open>sf opc hw imm16 rd\<close>
  | BitfieldMove u8 u8 u8 u8 u8 u8  \<comment> \<open>sf opc immr imms rn rd\<close>
  | PcRelAddress bool int u8  \<comment> \<open>page imm21 rd\<close>
  | CondBranch u32 u8  \<comment> \<open>imm19 cond\<close>
  | UncondBranch bool u32  \<comment> \<open>link imm26\<close>
  | BranchReg u8 u8  \<comment> \<open>opc rn\<close>
  | TestBranch bool u8 u16 u8  \<comment> \<open>nonzero bit imm14 rt\<close>
  | LoadStoreUnsignedImm u8 bool u8 u16 u8 u8  \<comment> \<open>size vector opc imm12 rn rt\<close>
  | LoadStoreUnscaled u8 bool u8 int u8 u8  \<comment> \<open>size vector opc imm9 rn rt\<close>
  | LoadStoreIndexed u8 bool u8 int load_store_index_mode u8 u8  \<comment> \<open>size vector opc imm9 mode rn rt\<close>
  | LoadStoreRegister u8 bool u8 u8 u8 bool u8 u8  \<comment> \<open>size vector opc rm option shift rn rt\<close>
  | LoadLiteral u8 bool u32 u8  \<comment> \<open>opc vector imm19 rt\<close>
  | LoadStorePair u8 bool bool load_store_pair_address_mode u8 u8 u8 u8  \<comment> \<open>opc vector load mode imm7 rt2 rn rt\<close>
  | LoadStoreAcquireRelease u8 bool u8 u8  \<comment> \<open>size load rn rt\<close>
  | LoadStoreExclusiveAcquireRelease u8 bool u8 u8 u8  \<comment> \<open>size load rs rn rt\<close>
  | CompareAndSwap u8 bool bool u8 u8 u8  \<comment> \<open>size acquire release rs rn rt\<close>
  | LseAtomicRmw u8 bool bool lse_atomic_rmw_op u8 u8 u8  \<comment> \<open>size acquire release op rs rn rt\<close>
  | CompareBranch u8 bool u32 u8  \<comment> \<open>sf nonzero imm19 rt\<close>
  | DataProcessing2Source u8 u8 u8 u8 u8  \<comment> \<open>sf opcode rm rn rd\<close>
  | DataProcessing3Source u8 u8 bool u8 u8 u8 u8  \<comment> \<open>sf op31 o0 rm ra rn rd\<close>
  | ConditionalSelect u8 bool bool u8 u8 u8 u8  \<comment> \<open>sf op o2 rm cond rn rd\<close>
  | FpArith u8 u8 u8 u8 u8  \<comment> \<open>ftype opcode rm rn rd\<close>
  | FpCompare u8 u8 u8 u8  \<comment> \<open>ftype rm rn opc\<close>
  | FpIntConversion bool u8 u8 u8 u8 u8  \<comment> \<open>sf64 ftype rmode opcode rn rd\<close>
  | FpUnary u8 u8 u8 u8  \<comment> \<open>ftype opcode rn rd\<close>
  | FpPrecisionConvert u8 u8 u8 u8  \<comment> \<open>src_ftype dst_ftype rn rd\<close>
  | FpImmediate u8 u8 u8  \<comment> \<open>ftype imm8 rd\<close>
  | Nop
  | Brk u16  \<comment> \<open>imm16\<close>
  | SystemBarrier system_barrier_kind u8  \<comment> \<open>kind crm\<close>
  | SystemRegisterRead u16 u8  \<comment> \<open>sysreg rt\<close>
  | NeonIntVec3Same bool bool u8 u8 u8 u8 u8  \<comment> \<open>q u size opcode rm rn rd\<close>
  | NeonVecLogic bool bool u8 u8 u8 u8  \<comment> \<open>q u size rm rn rd\<close>
  | NeonFpVec3Same bool bool bool u8 u8 u8 u8 u8  \<comment> \<open>q u bit23 sz opcode rm rn rd\<close>
  | NeonVecNot bool u8 u8  \<comment> \<open>q rn rd\<close>
  | NeonAcrossLanes bool bool u8 u8 u8 u8  \<comment> \<open>q u size opcode rn rd\<close>
  | NeonDupElement bool neon_element_size u8 u8 u8  \<comment> \<open>q element_size lane rn rd\<close>
  | NeonDupGeneral bool neon_element_size u8 u8  \<comment> \<open>q element_size rn rd\<close>
  | NeonInsGeneral neon_element_size u8 u8 u8  \<comment> \<open>element_size lane rn rd\<close>
  | NeonMoviByte bool u8 u8  \<comment> \<open>q imm8 rd\<close>
  | NeonLdStSinglePostImm bool bool u8 u8 u8  \<comment> \<open>q load size rn rt\<close>

datatype decode_error = Unsupported u32 | Unallocated u32 string | ConstrainedUnpredictable u32 string

type_synonym decoded = "(decode_error, a64_instruction) result"

section \<open>Bit fields\<close>

definition bit_at :: "u32 \<Rightarrow> nat \<Rightarrow> bool" where
  "bit_at word offset = (drop_bit offset word AND 1 \<noteq> 0)"

definition bits :: "u32 \<Rightarrow> nat \<Rightarrow> nat \<Rightarrow> u32" where
  "bits word offset width = drop_bit offset word AND (push_bit width 1 - 1)"

definition sign_extend_field :: "u32 \<Rightarrow> nat \<Rightarrow> int" where
  "sign_extend_field val width = (let shift = 32 - width in sint (push_bit shift val) div 2 ^ shift)"

text \<open>Rust's \<open>as u8\<close>, \<open>as u16\<close> and \<open>as i16\<close>.\<close>

definition as_u8 :: "u32 \<Rightarrow> u8" where
  "as_u8 v = ucast v"

definition as_u16 :: "u32 \<Rightarrow> u16" where
  "as_u16 v = ucast v"

definition as_i16 :: "int \<Rightarrow> int" where
  "as_i16 v = signed_take_bit 15 v"

section \<open>Allocation checks\<close>

definition validate_load_store_pair :: "u32 \<Rightarrow> u8 \<Rightarrow> bool \<Rightarrow> bool \<Rightarrow> (decode_error, unit) result" where
  "validate_load_store_pair word opc vector load =
     (if opc = 0b11 then Inl (Unallocated word ''load/store pair opc 0b11 is STTP/LDTP, not STP/LDP'')
      else if opc = 0b01 \<and> \<not> vector \<and> \<not> load
      then Inl (Unallocated word ''load/store pair opc 0b01 with V=0, L=0 is STGP, not STP'')
      else Inr ())"

definition validate_shifted_reg_amount :: "u32 \<Rightarrow> u8 \<Rightarrow> u8 \<Rightarrow> (decode_error, unit) result" where
  "validate_shifted_reg_amount word sf imm6 =
     (if sf = 0 \<and> imm6 \<ge> 32 then Inl (Unallocated word ''32-bit shifted register shift amount must be in 0..32'') else Inr ())"

datatype scalar_load_store_form = NoWriteback | Writeback

definition validate_scalar_load_store ::
    "u32 \<Rightarrow> u8 \<Rightarrow> bool \<Rightarrow> u8 \<Rightarrow> scalar_load_store_form \<Rightarrow> (decode_error, unit) result" where
  "validate_scalar_load_store word sz vector opc form =
     (if vector
      then if opc \<ge> 0b10 \<and> sz \<noteq> 0b00
           then Inl (Unallocated word ''SIMD load/store (size, opc) pair is unallocated'') else Inr ()
      else if opc = 0b11 \<and> sz \<ge> 0b10
      then Inl (Unallocated word ''integer load/store (size, opc) pair is unallocated'')
      else if opc = 0b10 \<and> sz = 0b11 \<and> form = Writeback
      then Inl (Unallocated word ''PRFM has no pre/post-index (base writeback) form'')
      else Inr ())"

definition validate_fp_ftype :: "u32 \<Rightarrow> u8 \<Rightarrow> (decode_error, unit) result" where
  "validate_fp_ftype word ftype =
     (if ftype = 0b10 then Inl (Unallocated word ''scalar FP ftype field 0b10 is unallocated'') else Inr ())"

definition validate_neon_vector_arrangement :: "u32 \<Rightarrow> bool \<Rightarrow> u8 \<Rightarrow> (decode_error, unit) result" where
  "validate_neon_vector_arrangement word q sz =
     (if \<not> q \<and> sz = 0b11 then Inl (Unallocated word ''NEON vector q=0 size=0b11 arrangement is unallocated'') else Inr ())"

definition validate_neon_fp_arrangement :: "u32 \<Rightarrow> bool \<Rightarrow> u8 \<Rightarrow> (decode_error, unit) result" where
  "validate_neon_fp_arrangement word q sz =
     (if \<not> q \<and> sz = 1 then Inl (Unallocated word ''NEON FP vector q=0 sz=1 arrangement is unallocated'') else Inr ())"

text \<open>\<open>u8::leading_zeros\<close> and \<open>u8::trailing_zeros\<close>: the number of clear bits above the
  highest and below the lowest set bit, 8 for zero.\<close>

definition leading_zeros8 :: "u8 \<Rightarrow> nat" where
  "leading_zeros8 v = length (takeWhile (\<lambda>i. \<not> bit v i) (rev [0..<8]))"

definition trailing_zeros8 :: "u8 \<Rightarrow> nat" where
  "trailing_zeros8 v = length (takeWhile (\<lambda>i. \<not> bit v i) [0..<8])"

definition logical_immediate_bitmask_is_allocated :: "bool \<Rightarrow> u8 \<Rightarrow> bool" where
  "logical_immediate_bitmask_is_allocated n imms =
     (let pattern = push_bit 6 (of_bool n) OR (NOT imms AND 0x3f) in
      if pattern = 0 then False
      else let len = 7 - leading_zeros8 pattern in
        if len < 1 then False
        else let levels = push_bit len 1 - 1 in imms AND levels \<noteq> levels)"

section \<open>Data processing\<close>

definition decode_logical_shifted_reg :: "u32 \<Rightarrow> decoded" where
  "decode_logical_shifted_reg word =
     (let sf = as_u8 (bits word 31 1); imm6 = as_u8 (bits word 10 6) in
      rbind (validate_shifted_reg_amount word sf imm6) (\<lambda>_.
        Inr (LogicalShiftedReg sf (as_u8 (bits word 29 2)) (as_u8 (bits word 22 2)) (bit_at word 21)
          (as_u8 (bits word 16 5)) imm6 (as_u8 (bits word 5 5)) (as_u8 (bits word 0 5)))))"

definition decode_add_sub_shifted_reg :: "u32 \<Rightarrow> decoded" where
  "decode_add_sub_shifted_reg word =
     (let shift = as_u8 (bits word 22 2) in
      if shift = 0b11 then Inl (Unallocated word ''add/sub shifted register uses reserved shift field 0b11'')
      else let sf = as_u8 (bits word 31 1); imm6 = as_u8 (bits word 10 6) in
        rbind (validate_shifted_reg_amount word sf imm6) (\<lambda>_.
          Inr (AddSubShiftedReg sf (as_u8 (bits word 30 1)) (bit_at word 29) shift
            (as_u8 (bits word 16 5)) imm6 (as_u8 (bits word 5 5)) (as_u8 (bits word 0 5)))))"

definition decode_logical_imm :: "u32 \<Rightarrow> decoded" where
  "decode_logical_imm word =
     (let sf = as_u8 (bits word 31 1); opc = as_u8 (bits word 29 2); n = bit_at word 22;
          immr = as_u8 (bits word 16 6); imms = as_u8 (bits word 10 6) in
      if sf = 0 \<and> n then Inl (Unallocated word ''32-bit logical immediate cannot set N'')
      else if \<not> logical_immediate_bitmask_is_allocated n imms
      then Inl (Unallocated word ''logical immediate bitmask encoding is unallocated'')
      else Inr (LogicalImm sf opc n immr imms (as_u8 (bits word 5 5)) (as_u8 (bits word 0 5))))"

definition decode_add_sub_carry :: "u32 \<Rightarrow> decoded" where
  "decode_add_sub_carry word =
     (let set_flags = bit_at word 29 in
      if set_flags then Inl (Unsupported word)
      else Inr (AddSubCarry (as_u8 (bits word 31 1)) (as_u8 (bits word 30 1)) set_flags
        (as_u8 (bits word 16 5)) (as_u8 (bits word 5 5)) (as_u8 (bits word 0 5))))"

definition decode_move_wide :: "u32 \<Rightarrow> decoded" where
  "decode_move_wide word =
     (let opc = as_u8 (bits word 29 2) in
      if opc = 0b01 then Inl (Unallocated word ''move-wide opc field 0b01 is unallocated'')
      else let sf = as_u8 (bits word 31 1); hw = as_u8 (bits word 21 2) in
        if sf = 0 \<and> hw \<ge> 0b10
        then Inl (Unallocated word ''32-bit move-wide hw field selects a nonexistent halfword lane'')
        else Inr (MoveWide sf opc hw (as_u16 (bits word 5 16)) (as_u8 (bits word 0 5))))"

definition decode_bitfield_move :: "u32 \<Rightarrow> decoded" where
  "decode_bitfield_move word =
     (let sf = as_u8 (bits word 31 1); opc = as_u8 (bits word 29 2) in
      if opc = 0b11 then Inl (Unsupported word)
      else let n = as_u8 (bits word 22 1) in
        if n \<noteq> sf then Inl (Unallocated word ''bitfield move N bit must match sf'')
        else let immr = as_u8 (bits word 16 6); imms = as_u8 (bits word 10 6) in
          if sf = 0 \<and> (immr \<ge> 32 \<or> imms \<ge> 32)
          then Inl (Unallocated word ''32-bit bitfield move immediates must be in 0..32'')
          else Inr (BitfieldMove sf opc immr imms (as_u8 (bits word 5 5)) (as_u8 (bits word 0 5))))"

definition decode_cond_branch :: "u32 \<Rightarrow> decoded" where
  "decode_cond_branch word =
     (if bit_at word 4 then Inl (Unallocated word ''conditional branch bit 4 must be zero'')
      else Inr (CondBranch (bits word 5 19) (as_u8 (bits word 0 4))))"

definition decode_branch_reg :: "u32 \<Rightarrow> decoded" where
  "decode_branch_reg word =
     (let opc = as_u8 (bits word 21 4) in
      if opc > 0b0010 then Inl (Unallocated word ''branch-register opc only covers BR, BLR, and RET'')
      else Inr (BranchReg opc (as_u8 (bits word 5 5))))"

definition decode_data_processing_2_source :: "u32 \<Rightarrow> decoded" where
  "decode_data_processing_2_source word =
     (let opcode = as_u8 (bits word 10 6) in
      if opcode \<in> {0b000010, 0b000011, 0b001000, 0b001001, 0b001010}
      then Inr (DataProcessing2Source (as_u8 (bits word 31 1)) opcode
        (as_u8 (bits word 16 5)) (as_u8 (bits word 5 5)) (as_u8 (bits word 0 5)))
      else Inl (Unsupported word))"

definition decode_data_processing_3_source :: "u32 \<Rightarrow> decoded" where
  "decode_data_processing_3_source word =
     (let sf = as_u8 (bits word 31 1); op31 = as_u8 (bits word 21 3); o0 = bit_at word 15; ra = as_u8 (bits word 10 5) in
      rbind
        (if op31 = 0b000 then Inr ()
         else if op31 = 0b001 \<or> op31 = 0b101
         then if sf \<noteq> 1 then Inl (Unallocated word ''data-processing 3-source long multiply requires sf=1'')
              else if o0 \<or> ra \<noteq> 31 then Inl (Unsupported word)
              else Inr ()
         else if op31 = 0b010 \<or> op31 = 0b110
         then if sf \<noteq> 1 then Inl (Unallocated word ''data-processing 3-source high multiply requires sf=1'')
              else if o0 \<or> ra \<noteq> 31
              then Inl (Unallocated word ''data-processing 3-source high multiply requires o0=0 and ra=31'')
              else Inr ()
         else Inl (Unsupported word))
        (\<lambda>_. Inr (DataProcessing3Source sf op31 o0 (as_u8 (bits word 16 5)) ra (as_u8 (bits word 5 5)) (as_u8 (bits word 0 5)))))"

definition decode_conditional_select :: "u32 \<Rightarrow> decoded" where
  "decode_conditional_select word =
     (if bit_at word 29 then Inl (Unallocated word ''conditional select S bit must be zero'')
      else if bit_at word 11 then Inl (Unallocated word ''conditional select bit 11 must be zero'')
      else Inr (ConditionalSelect (as_u8 (bits word 31 1)) (bit_at word 30) (bit_at word 10)
        (as_u8 (bits word 16 5)) (as_u8 (bits word 12 4)) (as_u8 (bits word 5 5)) (as_u8 (bits word 0 5))))"

section \<open>Loads and stores\<close>

definition decode_lse_atomic_rmw :: "u32 \<Rightarrow> decoded" where
  "decode_lse_atomic_rmw word =
     (let sz = as_u8 (bits word 30 2); acquire = bit_at word 23; release = bit_at word 22;
          bit21 = bit_at word 21; o3 = bit_at word 15; opc = as_u8 (bits word 12 3); zero = bits word 10 2 in
      if \<not> bit21 \<or> zero \<noteq> 0 then Inl (Unsupported word)
      else rbind
        (if \<not> o3 \<and> opc = 0b000 then Inr LseAdd
         else if \<not> o3 \<and> opc = 0b001 then Inr LseClr
         else if \<not> o3 \<and> opc = 0b010 then Inr LseEor
         else if \<not> o3 \<and> opc = 0b011 then Inr LseSet
         else if \<not> o3 \<and> opc = 0b100 then Inr LseSmax
         else if \<not> o3 \<and> opc = 0b101 then Inr LseSmin
         else if \<not> o3 \<and> opc = 0b110 then Inr LseUmax
         else if \<not> o3 \<and> opc = 0b111 then Inr LseUmin
         else if o3 \<and> opc = 0b000 then Inr LseSwp
         else Inl (Unsupported word))
        (\<lambda>op. Inr (LseAtomicRmw sz acquire release op (as_u8 (bits word 16 5)) (as_u8 (bits word 5 5)) (as_u8 (bits word 0 5)))))"

definition decode_load_store_register :: "u32 \<Rightarrow> decoded" where
  "decode_load_store_register word =
     (let option = as_u8 (bits word 13 3) in
      if option AND 0b010 = 0 then Inl (Unallocated word ''load/store register-offset option field is unallocated'')
      else let sz = as_u8 (bits word 30 2); vector = bit_at word 26; opc = as_u8 (bits word 22 2) in
        rbind (validate_scalar_load_store word sz vector opc NoWriteback) (\<lambda>_.
        let rt = as_u8 (bits word 0 5) in
        if sz = 0b11 \<and> \<not> vector \<and> opc = 0b10 \<and> drop_bit 3 rt = 0b11
        then Inl (Unallocated word ''register-offset prefetch with prfop type 0b11 is RPRFM, not PRFM'')
        else Inr (LoadStoreRegister sz vector opc (as_u8 (bits word 16 5)) option (bit_at word 12) (as_u8 (bits word 5 5)) rt)))"

definition decode_load_literal :: "u32 \<Rightarrow> decoded" where
  "decode_load_literal word =
     (let opc = as_u8 (bits word 30 2); vector = bit_at word 26 in
      if opc \<noteq> 0b01 \<or> vector then Inl (Unsupported word)
      else Inr (LoadLiteral opc vector (bits word 5 19) (as_u8 (bits word 0 5))))"

definition decode_load_store_acquire_release :: "u32 \<Rightarrow> decoded" where
  "decode_load_store_acquire_release word =
     (let sz = as_u8 (bits word 30 2); o2 = bit_at word 23; bit22 = bit_at word 22; o1 = bit_at word 21;
          rs = as_u8 (bits word 16 5); o0 = bit_at word 15; rt2 = as_u8 (bits word 10 5);
          rn = as_u8 (bits word 5 5); rt = as_u8 (bits word 0 5);
          is_ldaxr = (bit22 \<and> rs = 0b11111); is_stlxr = (\<not> bit22) in
      if o2 \<and> \<not> o1 \<and> rs = 0b11111 \<and> o0 \<and> rt2 = 0b11111 then Inr (LoadStoreAcquireRelease sz bit22 rn rt)
      else if o2 \<and> o1 \<and> rt2 = 0b11111 then Inr (CompareAndSwap sz bit22 o0 rs rn rt)
      else if \<not> o2 \<and> \<not> o1 \<and> o0 \<and> rt2 = 0b11111 \<and> (sz = 0b10 \<or> sz = 0b11) \<and> (is_ldaxr \<or> is_stlxr)
      then if is_stlxr \<and> (rs = rt \<or> (rs = rn \<and> rn \<noteq> 31))
           then Inl (ConstrainedUnpredictable word ''store-exclusive status register aliases its data or address register'')
           else Inr (LoadStoreExclusiveAcquireRelease sz bit22 rs rn rt)
      else Inl (Unsupported word))"

section \<open>Scalar floating point\<close>

definition decode_fp_arith :: "u32 \<Rightarrow> u8 \<Rightarrow> decoded" where
  "decode_fp_arith word ftype =
     (let opcode = as_u8 (bits word 12 4) in
      if opcode > 0b0011 then Inl (Unsupported word)
      else Inr (FpArith ftype opcode (as_u8 (bits word 16 5)) (as_u8 (bits word 5 5)) (as_u8 (bits word 0 5))))"

definition decode_fp_compare :: "u32 \<Rightarrow> u8 \<Rightarrow> decoded" where
  "decode_fp_compare word ftype =
     (let opc = as_u8 (bits word 0 5) in
      rbind
        (if opc = 0b00000 \<or> opc = 0b10000 then Inr ()
         else if opc = 0b01000 \<or> opc = 0b11000
         then if bits word 16 5 \<noteq> 0 then Inl (Unallocated word ''FP compare zero form requires rm == 0'') else Inr ()
         else Inl (Unsupported word))
        (\<lambda>_. Inr (FpCompare ftype (as_u8 (bits word 16 5)) (as_u8 (bits word 5 5)) opc)))"

definition decode_fp_int_conversion :: "u32 \<Rightarrow> u8 \<Rightarrow> decoded" where
  "decode_fp_int_conversion word ftype =
     (let rmode = as_u8 (bits word 19 2); opcode = as_u8 (bits word 16 3); sf64 = bit_at word 31;
          width_matches = (if ftype = 0b00 then \<not> sf64 else if ftype = 0b01 then sf64 else ftype = 0b11) in
      if rmode = 0b00 \<and> opcode \<ge> 0b110 \<and> \<not> width_matches
      then Inl (Unallocated word ''FMOV general/FP register widths must match'')
      else if (rmode, opcode) \<in> {(0b11, 0b000), (0b11, 0b001), (0b00, 0b010), (0b00, 0b011), (0b00, 0b110), (0b00, 0b111)}
      then Inr (FpIntConversion sf64 ftype rmode opcode (as_u8 (bits word 5 5)) (as_u8 (bits word 0 5)))
      else Inl (Unsupported word))"

definition decode_fp_immediate :: "u32 \<Rightarrow> u8 \<Rightarrow> decoded" where
  "decode_fp_immediate word ftype =
     (if bit_at word 31 then Inl (Unallocated word ''FP immediate bit 31 must be zero'')
      else if bits word 5 5 \<noteq> 0 then Inl (Unallocated word ''FP immediate bits 9:5 must be zero'')
      else Inr (FpImmediate ftype (as_u8 (bits word 13 8)) (as_u8 (bits word 0 5))))"

definition decode_fp_scalar :: "u32 \<Rightarrow> decoded" where
  "decode_fp_scalar word =
     (let ftype = as_u8 (bits word 22 2) in
      rbind (validate_fp_ftype word ftype) (\<lambda>_.
      if bits word 10 3 = 0b100 then decode_fp_immediate word ftype
      else if bits word 10 6 = 0 then decode_fp_int_conversion word ftype
      else if bit_at word 31 then Inl (Unsupported word)
      else if bits word 10 2 = 0b10 then decode_fp_arith word ftype
      else if bits word 10 6 = 0b001000 then decode_fp_compare word ftype
      else if bits word 10 5 = 0b10000
      then if bits word 17 4 = 0b0000
           then Inr (FpUnary ftype (as_u8 (bits word 15 2)) (as_u8 (bits word 5 5)) (as_u8 (bits word 0 5)))
           else if bits word 17 4 = 0b0001
           then let dst_ftype = as_u8 (bits word 15 2) in
             rbind (validate_fp_ftype word dst_ftype) (\<lambda>_.
               if dst_ftype = ftype then Inl (Unallocated word ''FCVT source and destination precision must differ'')
               else Inr (FpPrecisionConvert ftype dst_ftype (as_u8 (bits word 5 5)) (as_u8 (bits word 0 5))))
           else Inl (Unsupported word)
      else Inl (Unsupported word)))"

section \<open>System\<close>

definition decode_system :: "u32 \<Rightarrow> decoded" where
  "decode_system word =
     (let l = bit_at word 21; op0 = as_u8 (bits word 19 2) in
      if l
      then if op0 < 0b10 then Inl (Unallocated word ''system read with op0 < 0b10 is SYSL/TSTART, not MRS'')
           else Inr (SystemRegisterRead (as_u16 (bits word 5 16)) (as_u8 (bits word 0 5)))
      else if op0 = 0 \<and> bits word 16 3 = 0b011 \<and> bits word 12 4 = 0b0011 \<and> bits word 0 5 = 0b11111
      then rbind
        (if bits word 5 3 = 0b100 then Inr Dsb
         else if bits word 5 3 = 0b101 then Inr Dmb
         else if bits word 5 3 = 0b110 then Inr Isb
         else Inl (Unsupported word))
        (\<lambda>kind. Inr (SystemBarrier kind (as_u8 (bits word 8 4))))
      else Inl (Unsupported word))"

section \<open>Vectors\<close>

definition decode_neon_three_same :: "u32 \<Rightarrow> decoded" where
  "decode_neon_three_same word =
     (let q = bit_at word 30; u = bit_at word 29; sz = as_u8 (bits word 22 2); opcode = as_u8 (bits word 11 5);
          rm = as_u8 (bits word 16 5); rn = as_u8 (bits word 5 5); rd = as_u8 (bits word 0 5) in
      if u \<and> sz = 0 \<and> bits word 17 5 = 0b10000 \<and> bits word 12 5 = 0b00101 \<and> bits word 10 2 = 0b10
      then Inr (NeonVecNot q rn rd)
      else if q \<and> u \<and> sz = 0b10 \<and> bits word 17 5 = 0b11000 \<and> bits word 12 5 = 0b01010 \<and> bits word 10 2 = 0b10
      then Inr (NeonAcrossLanes q u sz (as_u8 (bits word 12 5)) rn rd)
      else let three_same = bit_at word 10 in
        if (u, opcode) \<in> {(False, 0b10000), (True, 0b10000), (False, 0b10011), (True, 0b10001), (False, 0b00110), (False, 0b00111)}
           \<and> three_same
        then rbind (validate_neon_vector_arrangement word q sz) (\<lambda>_.
          if opcode = 0b10011 \<and> sz = 0b11 then Inl (Unallocated word ''NEON MUL has no 64-bit element arrangement'')
          else Inr (NeonIntVec3Same q u sz opcode rm rn rd))
        else if opcode = 0b00011 \<and> three_same
        then if (u, sz) \<in> {(False, 0b00), (False, 0b01), (False, 0b10), (True, 0b00)}
             then Inr (NeonVecLogic q u sz rm rn rd)
             else Inl (Unsupported word)
        else let bit23 = bit_at word 23; fsz = as_u8 (bits word 22 1); fp_opcode = as_u8 (bits word 10 6) in
          if (u, bit23, fp_opcode) \<in> {(False, False, 0b110101), (False, True, 0b110101), (True, False, 0b110111), (True, False, 0b111111)}
          then rbind (validate_neon_fp_arrangement word q fsz) (\<lambda>_. Inr (NeonFpVec3Same q u bit23 fsz fp_opcode rm rn rd))
          else Inl (Unsupported word))"

definition decode_neon_modified_immediate :: "u32 \<Rightarrow> decoded" where
  "decode_neon_modified_immediate word =
     (if \<not> bit_at word 29 \<and> bits word 12 4 = 0b1110 \<and> bits word 10 2 = 0b01
      then Inr (NeonMoviByte (bit_at word 30) (as_u8 (push_bit 5 (bits word 16 3) OR bits word 5 5)) (as_u8 (bits word 0 5)))
      else Inl (Unsupported word))"

definition decode_neon_element_imm5 :: "u32 \<Rightarrow> u8 \<Rightarrow> (decode_error, neon_element_size \<times> u8) result" where
  "decode_neon_element_imm5 word imm5 =
     (let tz = trailing_zeros8 imm5 in
      if tz = 0 then Inr (ElemB, drop_bit 1 imm5)
      else if tz = 1 then Inr (ElemH, drop_bit 2 imm5)
      else if tz = 2 then Inr (ElemS, drop_bit 3 imm5)
      else if tz = 3 then Inr (ElemD, drop_bit 4 imm5)
      else if tz = 4 then Inl (Unallocated word ''NEON copy imm5 field encodes unsupported 128-bit element'')
      else Inl (Unallocated word ''NEON copy imm5 field must not be zero''))"

definition decode_neon_dup_element :: "u32 \<Rightarrow> decoded" where
  "decode_neon_dup_element word =
     (let q = bit_at word 30; imm5 = as_u8 (bits word 16 5) in
      rbind (decode_neon_element_imm5 word imm5) (\<lambda>(element_size, lane).
        if \<not> q \<and> element_size = ElemD then Inl (Unallocated word ''NEON DUP element D arrangement requires q=1'')
        else Inr (NeonDupElement q element_size lane (as_u8 (bits word 5 5)) (as_u8 (bits word 0 5)))))"

definition decode_neon_dup_general :: "u32 \<Rightarrow> decoded" where
  "decode_neon_dup_general word =
     (let q = bit_at word 30; imm5 = as_u8 (bits word 16 5); opcode = bits word 11 4 in
      rbind (decode_neon_element_imm5 word imm5) (\<lambda>(element_size, lane).
        if opcode = 0b0011
        then if \<not> q then Inl (Unallocated word ''NEON INS general requires q=1'')
             else Inr (NeonInsGeneral element_size lane (as_u8 (bits word 5 5)) (as_u8 (bits word 0 5)))
        else if opcode \<noteq> 0b0001 then Inl (Unsupported word)
        else if \<not> q \<and> element_size = ElemD then Inl (Unallocated word ''NEON DUP general D arrangement requires q=1'')
        else Inr (NeonDupGeneral q element_size (as_u8 (bits word 5 5)) (as_u8 (bits word 0 5)))))"

definition decode_neon_ldst_single_post_imm :: "u32 \<Rightarrow> decoded" where
  "decode_neon_ldst_single_post_imm word =
     (if bit_at word 21 \<or> bits word 16 5 \<noteq> 0b11111 \<or> bits word 12 4 \<noteq> 0b0111 then Inl (Unsupported word)
      else Inr (NeonLdStSinglePostImm (bit_at word 30) (bit_at word 22) (as_u8 (bits word 10 2))
        (as_u8 (bits word 5 5)) (as_u8 (bits word 0 5))))"

section \<open>Dispatch\<close>

text \<open>The two tails of \<open>decode\<close> that build their result in place: loads and stores with an
  unscaled or indexed immediate, and load and store pairs.\<close>

definition decode_unscaled_or_indexed :: "u32 \<Rightarrow> decoded option" where
  "decode_unscaled_or_indexed word =
     (let sz = as_u8 (bits word 30 2); vector = bit_at word 26; opc = as_u8 (bits word 22 2);
          imm9 = as_i16 (sign_extend_field (bits word 12 9) 9); rn = as_u8 (bits word 5 5); rt = as_u8 (bits word 0 5) in
      if bits word 10 2 = 0b00
      then Some (rbind (validate_scalar_load_store word sz vector opc NoWriteback) (\<lambda>_.
        Inr (LoadStoreUnscaled sz vector opc imm9 rn rt)))
      else if bits word 10 2 = 0b01 \<or> bits word 10 2 = 0b11
      then let mode = (if bits word 10 2 = 0b01 then IxPostIndex else IxPreIndex) in
        Some (rbind (validate_scalar_load_store word sz vector opc Writeback) (\<lambda>_.
          if \<not> vector \<and> rn \<noteq> 31 \<and> rt = rn
          then Inl (ConstrainedUnpredictable word ''pre/post-indexed transfer register aliases its writeback base'')
          else Inr (LoadStoreIndexed sz vector opc imm9 mode rn rt)))
      else None)"

definition decode_load_store_pair :: "u32 \<Rightarrow> decoded" where
  "decode_load_store_pair word =
     rbind
       (if bits word 23 3 = 0b001 then Inr PairPostIndex
        else if bits word 23 3 = 0b010 then Inr PairSignedOffset
        else if bits word 23 3 = 0b011 then Inr PairPreIndex
        else Inl (Unsupported word))
       (\<lambda>mode. let opc = as_u8 (bits word 30 2); vector = bit_at word 26; load = bit_at word 22 in
        rbind (validate_load_store_pair word opc vector load) (\<lambda>_.
        let rt2 = as_u8 (bits word 10 5); rn = as_u8 (bits word 5 5); rt = as_u8 (bits word 0 5) in
        if load \<and> rt = rt2
        then Inl (ConstrainedUnpredictable word ''load-pair transfer registers name the same destination'')
        else if \<not> vector \<and> mode \<noteq> PairSignedOffset \<and> rn \<noteq> 31 \<and> (rt = rn \<or> rt2 = rn)
        then Inl (ConstrainedUnpredictable word ''pre/post-indexed pair transfer register aliases its writeback base'')
        else Inr (LoadStorePair opc vector load mode (as_u8 (bits word 15 7)) rt2 rn rt)))"

definition AARCH64_NOP :: u32 where
  "AARCH64_NOP = 0xd503201f"

definition AARCH64_BRK_1 :: u32 where
  "AARCH64_BRK_1 = 0xd4200020"

definition decode :: "u32 \<Rightarrow> decoded" where
  "decode word =
     (if word = AARCH64_NOP then Inr Nop
      else if word = AARCH64_BRK_1 then Inr (Brk (as_u16 (bits word 5 16)))
      else if bits word 24 5 = 0b10000
      then Inr (PcRelAddress (bit_at word 31) (sign_extend_field (bits word 29 2 OR push_bit 2 (bits word 5 19)) 21)
        (as_u8 (bits word 0 5)))
      else if bits word 24 5 = 0b01011 \<and> \<not> bit_at word 21 then decode_add_sub_shifted_reg word
      else if bits word 24 5 = 0b01010 then decode_logical_shifted_reg word
      else if bits word 23 6 = 0b100100 then decode_logical_imm word
      else if bits word 23 6 = 0b100010
      then Inr (AddSubImm (as_u8 (bits word 31 1)) (as_u8 (bits word 30 1)) (bit_at word 29) (bit_at word 22)
        (as_u16 (bits word 10 12)) (as_u8 (bits word 5 5)) (as_u8 (bits word 0 5)))
      else if bits word 21 8 = 0b11010000 \<and> bits word 10 6 = 0 then decode_add_sub_carry word
      else if bits word 23 6 = 0b100101 then decode_move_wide word
      else if bits word 23 6 = 0b100110 then decode_bitfield_move word
      else if bits word 24 8 = 0b01010100 then decode_cond_branch word
      else if bits word 26 5 = 0b00101 then Inr (UncondBranch (bit_at word 31) (bits word 0 26))
      else if bits word 25 7 = 0b1101011 \<and> bits word 16 5 = 0b11111 \<and> bits word 10 6 = 0 \<and> bits word 0 5 = 0
      then decode_branch_reg word
      else if bits word 25 6 = 0b011010
      then Inr (CompareBranch (as_u8 (bits word 31 1)) (bit_at word 24) (bits word 5 19) (as_u8 (bits word 0 5)))
      else if bits word 25 6 = 0b011011
      then Inr (TestBranch (bit_at word 24) (push_bit 5 (of_bool (bit_at word 31)) OR as_u8 (bits word 19 5))
        (as_u16 (bits word 5 14)) (as_u8 (bits word 0 5)))
      else if bits word 24 6 = 0b011000 then decode_load_literal word
      else if bits word 21 10 = 0b0011010110 then decode_data_processing_2_source word
      else if bits word 24 5 = 0b11011 \<and> bits word 29 2 = 0 then decode_data_processing_3_source word
      else if bits word 21 8 = 0b11010100 then decode_conditional_select word
      else if bits word 24 5 = 0b11110 \<and> bits word 29 2 = 0 \<and> bit_at word 21 then decode_fp_scalar word
      else if bits word 22 10 = 0b1101010100 then decode_system word
      else if \<not> bit_at word 31 \<and> bits word 24 5 = 0b01110 \<and> bit_at word 21 then decode_neon_three_same word
      else if \<not> bit_at word 31 \<and> bits word 19 10 = 0b0111100000 then decode_neon_modified_immediate word
      else if \<not> bit_at word 31 \<and> bits word 21 9 = 0b001110000 \<and> bits word 10 6 = 0b000001 then decode_neon_dup_element word
      else if \<not> bit_at word 31 \<and> bits word 21 9 = 0b001110000 \<and> (bits word 10 6 = 0b000011 \<or> bits word 10 6 = 0b000111)
      then decode_neon_dup_general word
      else if \<not> bit_at word 31 \<and> bits word 23 7 = 0b0011001 then decode_neon_ldst_single_post_imm word
      else if bits word 24 6 = 0b001000 then decode_load_store_acquire_release word
      else if bits word 24 6 = 0b111000 \<and> bit_at word 21 \<and> bits word 10 2 = 0 then decode_lse_atomic_rmw word
      else if bits word 27 3 = 0b111 \<and> bits word 24 2 = 0b01
      then let sz = as_u8 (bits word 30 2); vector = bit_at word 26; opc = as_u8 (bits word 22 2) in
        rbind (validate_scalar_load_store word sz vector opc NoWriteback) (\<lambda>_.
          Inr (LoadStoreUnsignedImm sz vector opc (as_u16 (bits word 10 12)) (as_u8 (bits word 5 5)) (as_u8 (bits word 0 5))))
      else if bits word 27 3 = 0b111 \<and> bits word 24 2 = 0 \<and> bit_at word 21 \<and> bits word 10 2 = 0b10
      then decode_load_store_register word
      else case (if bits word 27 3 = 0b111 \<and> bits word 24 2 = 0 \<and> \<not> bit_at word 21
                 then decode_unscaled_or_indexed word else None) of
        Some result \<Rightarrow> result
      | None \<Rightarrow> if bits word 27 3 = 0b101 \<and> \<not> bit_at word 25 then decode_load_store_pair word
                else Inl (Unsupported word))"

end
