(* ===== verification/A64_Encoding.thy ===== *)
theory A64_Encoding
  imports Prelude
begin

text \<open>
  The AArch64 instruction formats of \<open>trust-cg-codegen/src/aarch64\<close>: the encoders of
  \<open>encoding.rs\<close>, which assemble a 32-bit word from raw fields, and those of
  \<open>encoding_mem.rs\<close>, \<open>encoding_fp.rs\<close> and \<open>encoding_neon.rs\<close>, which check their
  operands and fail. The \<open>debug_assert!\<close>s of the former are the ranges under which the theorems
  are stated.
\<close>

section \<open>Formats of encoding.rs\<close>

definition encode_add_sub_shifted_reg :: "u32 \<Rightarrow> u32 \<Rightarrow> u32 \<Rightarrow> u32 \<Rightarrow> u32 \<Rightarrow> u32 \<Rightarrow> u32 \<Rightarrow> u32 \<Rightarrow> u32" where
  "encode_add_sub_shifted_reg sf op s shift rm imm6 rn rd =
     push_bit 31 sf OR push_bit 30 op OR push_bit 29 s OR push_bit 24 0b01011 OR push_bit 22 shift
     OR push_bit 16 rm OR push_bit 10 imm6 OR push_bit 5 rn OR rd"

definition encode_logical_shifted_reg :: "u32 \<Rightarrow> u32 \<Rightarrow> u32 \<Rightarrow> u32 \<Rightarrow> u32 \<Rightarrow> u32 \<Rightarrow> u32 \<Rightarrow> u32 \<Rightarrow> u32" where
  "encode_logical_shifted_reg sf opc shift n rm imm6 rn rd =
     push_bit 31 sf OR push_bit 29 opc OR push_bit 24 0b01010 OR push_bit 22 shift OR push_bit 21 n
     OR push_bit 16 rm OR push_bit 10 imm6 OR push_bit 5 rn OR rd"

definition encode_extract :: "u32 \<Rightarrow> u32 \<Rightarrow> u32 \<Rightarrow> u32 \<Rightarrow> u32 \<Rightarrow> u32 \<Rightarrow> u32" where
  "encode_extract sf n rm imms rn rd =
     push_bit 31 sf OR push_bit 23 0b100111 OR push_bit 22 n OR push_bit 16 rm OR push_bit 10 imms OR push_bit 5 rn OR rd"

definition encode_bit_reverse :: "u32 \<Rightarrow> u32 \<Rightarrow> u32 \<Rightarrow> u32" where
  "encode_bit_reverse sf rn rd = push_bit 31 sf OR push_bit 21 0b1011010110 OR push_bit 5 rn OR rd"

definition encode_add_sub_imm :: "u32 \<Rightarrow> u32 \<Rightarrow> u32 \<Rightarrow> u32 \<Rightarrow> u32 \<Rightarrow> u32 \<Rightarrow> u32 \<Rightarrow> u32" where
  "encode_add_sub_imm sf op s sh imm12 rn rd =
     push_bit 31 sf OR push_bit 30 op OR push_bit 29 s OR push_bit 23 0b100010 OR push_bit 22 sh
     OR push_bit 10 imm12 OR push_bit 5 rn OR rd"

definition encode_move_wide :: "u32 \<Rightarrow> u32 \<Rightarrow> u32 \<Rightarrow> u32 \<Rightarrow> u32 \<Rightarrow> u32" where
  "encode_move_wide sf opc hw imm16 rd =
     (let hw = hw AND 0b11; imm16 = imm16 AND 0xFFFF; rd = rd AND 0b11111
      in push_bit 31 sf OR push_bit 29 opc OR push_bit 23 0b100101 OR push_bit 21 hw OR push_bit 5 imm16 OR rd)"

definition encode_cond_branch :: "u32 \<Rightarrow> u32 \<Rightarrow> u32" where
  "encode_cond_branch imm19 cond = push_bit 24 0b01010100 OR push_bit 5 imm19 OR cond"

definition encode_uncond_branch :: "u32 \<Rightarrow> u32 \<Rightarrow> u32" where
  "encode_uncond_branch op imm26 = push_bit 31 op OR push_bit 26 0b00101 OR imm26"

definition encode_branch_reg :: "u32 \<Rightarrow> u32 \<Rightarrow> u32" where
  "encode_branch_reg opc rn = push_bit 25 0b1101011 OR push_bit 21 opc OR push_bit 16 0b11111 OR push_bit 5 rn"

definition encode_load_store_ui :: "u32 \<Rightarrow> u32 \<Rightarrow> u32 \<Rightarrow> u32 \<Rightarrow> u32 \<Rightarrow> u32 \<Rightarrow> u32" where
  "encode_load_store_ui sz v opc imm12 rn rt =
     push_bit 30 sz OR push_bit 27 0b111 OR push_bit 26 v OR push_bit 24 0b01 OR push_bit 22 opc
     OR push_bit 10 imm12 OR push_bit 5 rn OR rt"

definition encode_load_store_unscaled :: "u32 \<Rightarrow> u32 \<Rightarrow> u32 \<Rightarrow> int \<Rightarrow> u32 \<Rightarrow> u32 \<Rightarrow> u32" where
  "encode_load_store_unscaled sz v opc imm9 rn rt =
     (let imm9_bits = word_of_int imm9 AND 0x1FF
      in push_bit 30 sz OR push_bit 27 0b111 OR push_bit 26 v OR push_bit 22 opc OR push_bit 12 imm9_bits OR push_bit 5 rn OR rt)"

definition encode_load_store_pair :: "u32 \<Rightarrow> u32 \<Rightarrow> u32 \<Rightarrow> u32 \<Rightarrow> u32 \<Rightarrow> u32 \<Rightarrow> u32 \<Rightarrow> u32" where
  "encode_load_store_pair opc v l imm7 rt2 rn rt =
     push_bit 30 opc OR push_bit 27 0b101 OR push_bit 26 v OR push_bit 23 0b010 OR push_bit 22 l
     OR push_bit 15 imm7 OR push_bit 10 rt2 OR push_bit 5 rn OR rt"

definition encode_cmp_branch :: "u32 \<Rightarrow> u32 \<Rightarrow> u32 \<Rightarrow> u32 \<Rightarrow> u32" where
  "encode_cmp_branch sf op imm19 rt = push_bit 31 sf OR push_bit 25 0b011010 OR push_bit 24 op OR push_bit 5 imm19 OR rt"

section \<open>Loads and stores: encoding\_mem.rs\<close>

datatype encode_error =
    RegisterOutOfRange u8 u8
  | Imm12OutOfRange u16
  | Imm9OutOfRange int
  | Imm7OutOfRange int
  | Imm21OutOfRange int
  | InvalidExtend u8
  | InvalidLoadStoreField string u32

datatype load_store_size = SzByte | SzHalf | SzWord | SzDouble

datatype load_store_op = OpStore | OpLoad

datatype reg_extend = ExtUxtw | ExtLsl | ExtSxtw | ExtSxtx

datatype pair_op = StorePair | LoadPair

datatype pair_size = PairW32 | PairD64 | PairX64

datatype pair_mode = ModePostIndex | ModeSignedOffset | ModePreIndex

text \<open>The discriminants, for the casts \<open>as u32\<close>.\<close>

primrec size_field :: "load_store_size \<Rightarrow> u32" where
  "size_field SzByte = 0b00"
| "size_field SzHalf = 0b01"
| "size_field SzWord = 0b10"
| "size_field SzDouble = 0b11"

primrec ls_op_field :: "load_store_op \<Rightarrow> u32" where
  "ls_op_field OpStore = 0b00"
| "ls_op_field OpLoad = 0b01"

primrec extend_field :: "reg_extend \<Rightarrow> u32" where
  "extend_field ExtUxtw = 0b010"
| "extend_field ExtLsl = 0b011"
| "extend_field ExtSxtw = 0b110"
| "extend_field ExtSxtx = 0b111"

primrec pair_op_field :: "pair_op \<Rightarrow> u32" where
  "pair_op_field StorePair = 0"
| "pair_op_field LoadPair = 1"

primrec pair_size_field :: "pair_size \<Rightarrow> u32" where
  "pair_size_field PairW32 = 0b00"
| "pair_size_field PairD64 = 0b01"
| "pair_size_field PairX64 = 0b10"

primrec pair_mode_field :: "pair_mode \<Rightarrow> u32" where
  "pair_mode_field ModePostIndex = 0b01"
| "pair_mode_field ModeSignedOffset = 0b10"
| "pair_mode_field ModePreIndex = 0b11"

definition check_reg :: "u8 \<Rightarrow> u8 \<Rightarrow> (encode_error, unit) result" where
  "check_reg reg mx = (if reg > mx then Inl (RegisterOutOfRange reg mx) else Inr ())"

definition check_imm12 :: "u16 \<Rightarrow> (encode_error, unit) result" where
  "check_imm12 v = (if v > 4095 then Inl (Imm12OutOfRange v) else Inr ())"

definition check_imm9 :: "int \<Rightarrow> (encode_error, unit) result" where
  "check_imm9 v = (if \<not> (- 256 \<le> v \<and> v \<le> 255) then Inl (Imm9OutOfRange v) else Inr ())"

definition check_imm7 :: "int \<Rightarrow> (encode_error, unit) result" where
  "check_imm7 v = (if \<not> (- 64 \<le> v \<and> v \<le> 63) then Inl (Imm7OutOfRange v) else Inr ())"

definition check_imm21 :: "int \<Rightarrow> (encode_error, unit) result" where
  "check_imm21 v = (if \<not> (- 1048576 \<le> v \<and> v \<le> 1048575) then Inl (Imm21OutOfRange v) else Inr ())"

definition encode_ldr_str_unsigned_offset ::
    "load_store_size \<Rightarrow> bool \<Rightarrow> load_store_op \<Rightarrow> u16 \<Rightarrow> u8 \<Rightarrow> u8 \<Rightarrow> (encode_error, u32) result" where
  "encode_ldr_str_unsigned_offset sz v op imm12 rn rt =
     rbind (check_reg rn 31) (\<lambda>_. rbind (check_reg rt 31) (\<lambda>_. rbind (check_imm12 imm12) (\<lambda>_.
     Inr (push_bit 30 (size_field sz) OR push_bit 27 0b111 OR push_bit 26 (of_bool v) OR push_bit 24 0b01
       OR push_bit 22 (ls_op_field op) OR push_bit 10 (ucast imm12) OR push_bit 5 (ucast rn) OR ucast rt))))"

definition encode_ldr_str_pre_index ::
    "load_store_size \<Rightarrow> bool \<Rightarrow> load_store_op \<Rightarrow> int \<Rightarrow> u8 \<Rightarrow> u8 \<Rightarrow> (encode_error, u32) result" where
  "encode_ldr_str_pre_index sz v op imm9 rn rt =
     rbind (check_reg rn 31) (\<lambda>_. rbind (check_reg rt 31) (\<lambda>_. rbind (check_imm9 imm9) (\<lambda>_.
     let imm9_bits = ucast (word_of_int imm9 AND 0x1FF :: u16) in
     Inr (push_bit 30 (size_field sz) OR push_bit 27 0b111 OR push_bit 26 (of_bool v) OR push_bit 22 (ls_op_field op)
       OR push_bit 12 imm9_bits OR push_bit 10 0b11 OR push_bit 5 (ucast rn) OR ucast rt))))"

definition encode_ldr_str_post_index ::
    "load_store_size \<Rightarrow> bool \<Rightarrow> load_store_op \<Rightarrow> int \<Rightarrow> u8 \<Rightarrow> u8 \<Rightarrow> (encode_error, u32) result" where
  "encode_ldr_str_post_index sz v op imm9 rn rt =
     rbind (check_reg rn 31) (\<lambda>_. rbind (check_reg rt 31) (\<lambda>_. rbind (check_imm9 imm9) (\<lambda>_.
     let imm9_bits = ucast (word_of_int imm9 AND 0x1FF :: u16) in
     Inr (push_bit 30 (size_field sz) OR push_bit 27 0b111 OR push_bit 26 (of_bool v) OR push_bit 22 (ls_op_field op)
       OR push_bit 12 imm9_bits OR push_bit 10 0b01 OR push_bit 5 (ucast rn) OR ucast rt))))"

definition encode_ldr_str_register_fields ::
    "u32 \<Rightarrow> bool \<Rightarrow> u32 \<Rightarrow> u8 \<Rightarrow> reg_extend \<Rightarrow> bool \<Rightarrow> u8 \<Rightarrow> u8 \<Rightarrow> (encode_error, u32) result" where
  "encode_ldr_str_register_fields sz v opc rm extend shift rn rt =
     rbind (check_reg rm 31) (\<lambda>_. rbind (check_reg rn 31) (\<lambda>_. rbind (check_reg rt 31) (\<lambda>_.
     if sz > 0b11 then Inl (InvalidLoadStoreField ''size'' sz)
     else if opc > 0b11 then Inl (InvalidLoadStoreField ''opc'' opc)
     else Inr (push_bit 30 sz OR push_bit 27 0b111 OR push_bit 26 (of_bool v) OR push_bit 22 opc OR push_bit 21 1
       OR push_bit 16 (ucast rm) OR push_bit 13 (extend_field extend) OR push_bit 12 (of_bool shift) OR push_bit 10 0b10
       OR push_bit 5 (ucast rn) OR ucast rt))))"

definition encode_ldr_str_register ::
    "load_store_size \<Rightarrow> bool \<Rightarrow> load_store_op \<Rightarrow> u8 \<Rightarrow> reg_extend \<Rightarrow> bool \<Rightarrow> u8 \<Rightarrow> u8 \<Rightarrow> (encode_error, u32) result" where
  "encode_ldr_str_register sz v op rm extend shift rn rt =
     encode_ldr_str_register_fields (size_field sz) v (ls_op_field op) rm extend shift rn rt"

definition encode_ldp_stp ::
    "pair_size \<Rightarrow> bool \<Rightarrow> pair_op \<Rightarrow> pair_mode \<Rightarrow> int \<Rightarrow> u8 \<Rightarrow> u8 \<Rightarrow> u8 \<Rightarrow> (encode_error, u32) result" where
  "encode_ldp_stp psz v op mode imm7 rt2 rn rt =
     rbind (check_reg rt 31) (\<lambda>_. rbind (check_reg rt2 31) (\<lambda>_. rbind (check_reg rn 31) (\<lambda>_. rbind (check_imm7 imm7) (\<lambda>_.
     let imm7_bits = ucast (word_of_int imm7 AND 0x7F :: u8) in
     Inr (push_bit 30 (pair_size_field psz) OR push_bit 27 0b101 OR push_bit 26 (of_bool v) OR push_bit 23 (pair_mode_field mode)
       OR push_bit 22 (pair_op_field op) OR push_bit 15 imm7_bits OR push_bit 10 (ucast rt2) OR push_bit 5 (ucast rn) OR ucast rt)))))"

definition encode_ldp_stp_offset :: "pair_size \<Rightarrow> bool \<Rightarrow> pair_op \<Rightarrow> int \<Rightarrow> u8 \<Rightarrow> u8 \<Rightarrow> u8 \<Rightarrow> (encode_error, u32) result" where
  "encode_ldp_stp_offset psz v op imm7 rt2 rn rt = encode_ldp_stp psz v op ModeSignedOffset imm7 rt2 rn rt"

definition encode_ldp_stp_pre_index :: "pair_size \<Rightarrow> bool \<Rightarrow> pair_op \<Rightarrow> int \<Rightarrow> u8 \<Rightarrow> u8 \<Rightarrow> u8 \<Rightarrow> (encode_error, u32) result" where
  "encode_ldp_stp_pre_index psz v op imm7 rt2 rn rt = encode_ldp_stp psz v op ModePreIndex imm7 rt2 rn rt"

definition encode_ldp_stp_post_index :: "pair_size \<Rightarrow> bool \<Rightarrow> pair_op \<Rightarrow> int \<Rightarrow> u8 \<Rightarrow> u8 \<Rightarrow> u8 \<Rightarrow> (encode_error, u32) result" where
  "encode_ldp_stp_post_index psz v op imm7 rt2 rn rt = encode_ldp_stp psz v op ModePostIndex imm7 rt2 rn rt"

definition encode_adrp :: "int \<Rightarrow> u8 \<Rightarrow> (encode_error, u32) result" where
  "encode_adrp imm21 rd =
     rbind (check_reg rd 31) (\<lambda>_. rbind (check_imm21 imm21) (\<lambda>_.
     let bts = word_of_int imm21 AND 0x1FFFFF; immlo = bts AND 0x3; immhi = drop_bit 2 bts in
     Inr (push_bit 31 1 OR push_bit 29 immlo OR push_bit 24 0b10000 OR push_bit 5 immhi OR ucast rd)))"

definition encode_adr :: "int \<Rightarrow> u8 \<Rightarrow> (encode_error, u32) result" where
  "encode_adr imm21 rd =
     rbind (check_reg rd 31) (\<lambda>_. rbind (check_imm21 imm21) (\<lambda>_.
     let bts = word_of_int imm21 AND 0x1FFFFF; immlo = bts AND 0x3; immhi = drop_bit 2 bts in
     Inr (push_bit 29 immlo OR push_bit 24 0b10000 OR push_bit 5 immhi OR ucast rd)))"

definition encode_ldrsw_register :: "u8 \<Rightarrow> u8 \<Rightarrow> u8 \<Rightarrow> (encode_error, u32) result" where
  "encode_ldrsw_register rm rn rt =
     rbind (check_reg rm 31) (\<lambda>_. rbind (check_reg rn 31) (\<lambda>_. rbind (check_reg rt 31) (\<lambda>_.
     Inr (push_bit 30 0b10 OR push_bit 27 0b111 OR push_bit 22 0b10 OR push_bit 21 1 OR push_bit 16 (ucast rm)
       OR push_bit 13 0b011 OR push_bit 12 1 OR push_bit 10 0b10 OR push_bit 5 (ucast rn) OR ucast rt))))"

section \<open>Scalar floating point: encoding\_fp.rs\<close>

datatype fp_encode_error = FpRegisterOutOfRange u8 u8

datatype fp_size = FpSingle | FpDouble | FpHalf

datatype fp_arith_op = FpMul | FpDiv | FpAdd | FpSub | FpMaxnm | FpMinnm

datatype fp_madd_op = FpMadd | FpMsub | FpNmadd | FpNmsub

datatype fp_cmp_op = FpCmp | FpCmpZero | FpCmpe | FpCmpeZero

datatype fp_conv_op = FcvtzsToInt | FcvtzuToInt | ScvtfToFp | UcvtfToFp | FmovToFp | FmovToGp

datatype fp_unary_op = FmovReg | Fabs | Fneg | Fsqrt | FrintP | FrintM | FrintZ

primrec fp_size_field :: "fp_size \<Rightarrow> u32" where
  "fp_size_field FpSingle = 0b00"
| "fp_size_field FpDouble = 0b01"
| "fp_size_field FpHalf = 0b11"

primrec fp_arith_field :: "fp_arith_op \<Rightarrow> u32" where
  "fp_arith_field FpMul = 0b0000"
| "fp_arith_field FpDiv = 0b0001"
| "fp_arith_field FpAdd = 0b0010"
| "fp_arith_field FpSub = 0b0011"
| "fp_arith_field FpMaxnm = 0b0110"
| "fp_arith_field FpMinnm = 0b0111"

primrec o1_o0 :: "fp_madd_op \<Rightarrow> u32 \<times> u32" where
  "o1_o0 FpMadd = (0, 0)"
| "o1_o0 FpMsub = (0, 1)"
| "o1_o0 FpNmadd = (1, 0)"
| "o1_o0 FpNmsub = (1, 1)"

primrec fp_cmp_field :: "fp_cmp_op \<Rightarrow> u32" where
  "fp_cmp_field FpCmp = 0b00000"
| "fp_cmp_field FpCmpZero = 0b01000"
| "fp_cmp_field FpCmpe = 0b10000"
| "fp_cmp_field FpCmpeZero = 0b11000"

primrec rmode_opcode :: "fp_conv_op \<Rightarrow> u32 \<times> u32" where
  "rmode_opcode FcvtzsToInt = (0b11, 0b000)"
| "rmode_opcode FcvtzuToInt = (0b11, 0b001)"
| "rmode_opcode ScvtfToFp = (0b00, 0b010)"
| "rmode_opcode UcvtfToFp = (0b00, 0b011)"
| "rmode_opcode FmovToFp = (0b00, 0b111)"
| "rmode_opcode FmovToGp = (0b00, 0b110)"

primrec fp_unary_field :: "fp_unary_op \<Rightarrow> u32" where
  "fp_unary_field FmovReg = 0b00"
| "fp_unary_field Fabs = 0b01"
| "fp_unary_field Fneg = 0b10"
| "fp_unary_field Fsqrt = 0b11"
| "fp_unary_field FrintP = 0b001001"
| "fp_unary_field FrintM = 0b001010"
| "fp_unary_field FrintZ = 0b001011"

definition fp_check_reg :: "u8 \<Rightarrow> u8 \<Rightarrow> (fp_encode_error, unit) result" where
  "fp_check_reg reg mx = (if reg > mx then Inl (FpRegisterOutOfRange reg mx) else Inr ())"

definition encode_fp_arith :: "fp_size \<Rightarrow> fp_arith_op \<Rightarrow> u8 \<Rightarrow> u8 \<Rightarrow> u8 \<Rightarrow> (fp_encode_error, u32) result" where
  "encode_fp_arith sz op rm rn rd =
     rbind (fp_check_reg rm 31) (\<lambda>_. rbind (fp_check_reg rn 31) (\<lambda>_. rbind (fp_check_reg rd 31) (\<lambda>_.
     Inr (push_bit 24 0b11110 OR push_bit 22 (fp_size_field sz) OR push_bit 21 1 OR push_bit 16 (ucast rm)
       OR push_bit 12 (fp_arith_field op) OR push_bit 10 0b10 OR push_bit 5 (ucast rn) OR ucast rd))))"

definition encode_fcsel :: "fp_size \<Rightarrow> u32 \<Rightarrow> u8 \<Rightarrow> u8 \<Rightarrow> u8 \<Rightarrow> (fp_encode_error, u32) result" where
  "encode_fcsel sz cond rm rn rd =
     rbind (fp_check_reg rm 31) (\<lambda>_. rbind (fp_check_reg rn 31) (\<lambda>_. rbind (fp_check_reg rd 31) (\<lambda>_.
     Inr (push_bit 24 0b11110 OR push_bit 22 (fp_size_field sz) OR push_bit 21 1 OR push_bit 16 (ucast rm)
       OR push_bit 12 (cond AND 0xF) OR push_bit 10 0b11 OR push_bit 5 (ucast rn) OR ucast rd))))"

definition encode_fp_madd :: "fp_size \<Rightarrow> fp_madd_op \<Rightarrow> u8 \<Rightarrow> u8 \<Rightarrow> u8 \<Rightarrow> u8 \<Rightarrow> (fp_encode_error, u32) result" where
  "encode_fp_madd sz op rm ra rn rd =
     rbind (fp_check_reg rm 31) (\<lambda>_. rbind (fp_check_reg ra 31) (\<lambda>_. rbind (fp_check_reg rn 31) (\<lambda>_. rbind (fp_check_reg rd 31) (\<lambda>_.
     let (o1, o0) = o1_o0 op in
     Inr (push_bit 24 0b11111 OR push_bit 22 (fp_size_field sz) OR push_bit 21 o1 OR push_bit 16 (ucast rm) OR push_bit 15 o0
       OR push_bit 10 (ucast ra) OR push_bit 5 (ucast rn) OR ucast rd)))))"

definition encode_fcmp :: "fp_size \<Rightarrow> fp_cmp_op \<Rightarrow> u8 \<Rightarrow> u8 \<Rightarrow> (fp_encode_error, u32) result" where
  "encode_fcmp sz op rm rn =
     rbind (fp_check_reg rn 31) (\<lambda>_.
     rbind (if op = FpCmpZero \<or> op = FpCmpeZero then Inr 0 else rbind (fp_check_reg rm 31) (\<lambda>_. Inr (ucast rm))) (\<lambda>rm_val.
     Inr (push_bit 24 0b11110 OR push_bit 22 (fp_size_field sz) OR push_bit 21 1 OR push_bit 16 rm_val OR push_bit 14 0b00
       OR push_bit 10 0b1000 OR push_bit 5 (ucast rn) OR fp_cmp_field op)))"

definition encode_fp_int_conv :: "bool \<Rightarrow> fp_size \<Rightarrow> fp_conv_op \<Rightarrow> u8 \<Rightarrow> u8 \<Rightarrow> (fp_encode_error, u32) result" where
  "encode_fp_int_conv sf_64 sz conv_op rn rd =
     rbind (fp_check_reg rn 31) (\<lambda>_. rbind (fp_check_reg rd 31) (\<lambda>_.
     let (rmode, opcode) = rmode_opcode conv_op in
     Inr (push_bit 31 (of_bool sf_64) OR push_bit 24 0b11110 OR push_bit 22 (fp_size_field sz) OR push_bit 21 1
       OR push_bit 19 rmode OR push_bit 16 opcode OR push_bit 5 (ucast rn) OR ucast rd)))"

definition encode_fp_unary :: "fp_size \<Rightarrow> fp_unary_op \<Rightarrow> u8 \<Rightarrow> u8 \<Rightarrow> (fp_encode_error, u32) result" where
  "encode_fp_unary sz op rn rd =
     rbind (fp_check_reg rn 31) (\<lambda>_. rbind (fp_check_reg rd 31) (\<lambda>_.
     Inr (push_bit 24 0b11110 OR push_bit 22 (fp_size_field sz) OR push_bit 21 1 OR push_bit 15 (fp_unary_field op)
       OR push_bit 10 0b10000 OR push_bit 5 (ucast rn) OR ucast rd)))"

definition encode_fp_precision_cvt :: "fp_size \<Rightarrow> fp_size \<Rightarrow> u8 \<Rightarrow> u8 \<Rightarrow> (fp_encode_error, u32) result" where
  "encode_fp_precision_cvt src_size dst_size rn rd =
     rbind (fp_check_reg rn 31) (\<lambda>_. rbind (fp_check_reg rd 31) (\<lambda>_.
     Inr (push_bit 24 0b11110 OR push_bit 22 (fp_size_field src_size) OR push_bit 21 1 OR push_bit 17 0b0001
       OR push_bit 15 (fp_size_field dst_size) OR push_bit 10 0b10000 OR push_bit 5 (ucast rn) OR ucast rd)))"

section \<open>Vectors: encoding\_neon.rs\<close>

datatype neon_encode_error =
    NeonRegisterOutOfRange u8
  | InvalidSize u8
  | InvalidLane u8
  | InvalidLdpQPostOffset int
  | LdpDuplicateDest u8
  | InvalidStpQPostOffset int

datatype vector_arrangement = ArrB8 | ArrB16 | ArrH4 | ArrH8 | ArrS2 | ArrS4 | ArrD2

datatype fp_vector_arrangement = FArrS2 | FArrS4 | FArrD2

datatype int_vec3_op = VAdd | VSub | VMul | VCmeq | VCmgt | VCmge | VCmhi | VCmhs | VSmax | VSmin | VUmax | VUmin

datatype vec_logic_op = VAnd | VOrr | VEor | VBic | VBit

datatype fp_vec3_op = VFadd | VFsub | VFmul | VFdiv | VFcmgt | VFmla | VFmls

datatype element_size = LaneB | LaneH | LaneS | LaneD

primrec q_size :: "vector_arrangement \<Rightarrow> u32 \<times> u32" where
  "q_size ArrB8 = (0, 0b00)"
| "q_size ArrB16 = (1, 0b00)"
| "q_size ArrH4 = (0, 0b01)"
| "q_size ArrH8 = (1, 0b01)"
| "q_size ArrS2 = (0, 0b10)"
| "q_size ArrS4 = (1, 0b10)"
| "q_size ArrD2 = (1, 0b11)"

primrec q_sz :: "fp_vector_arrangement \<Rightarrow> u32 \<times> u32" where
  "q_sz FArrS2 = (0, 0)"
| "q_sz FArrS4 = (1, 0)"
| "q_sz FArrD2 = (1, 1)"

primrec u_opcode :: "int_vec3_op \<Rightarrow> u32 \<times> u32" where
  "u_opcode VAdd = (0, 0b10000)"
| "u_opcode VSub = (1, 0b10000)"
| "u_opcode VMul = (0, 0b10011)"
| "u_opcode VCmeq = (1, 0b10001)"
| "u_opcode VCmgt = (0, 0b00110)"
| "u_opcode VCmge = (0, 0b00111)"
| "u_opcode VCmhi = (1, 0b00110)"
| "u_opcode VCmhs = (1, 0b00111)"
| "u_opcode VSmax = (0, 0b01100)"
| "u_opcode VSmin = (0, 0b01101)"
| "u_opcode VUmax = (1, 0b01100)"
| "u_opcode VUmin = (1, 0b01101)"

primrec u_size :: "vec_logic_op \<Rightarrow> u32 \<times> u32" where
  "u_size VAnd = (0, 0b00)"
| "u_size VOrr = (0, 0b10)"
| "u_size VEor = (1, 0b00)"
| "u_size VBic = (0, 0b01)"
| "u_size VBit = (1, 0b10)"

primrec u_bit23_opcode :: "fp_vec3_op \<Rightarrow> u32 \<times> u32 \<times> u32" where
  "u_bit23_opcode VFadd = (0, 0, 0b110101)"
| "u_bit23_opcode VFsub = (0, 1, 0b110101)"
| "u_bit23_opcode VFmul = (1, 0, 0b110111)"
| "u_bit23_opcode VFdiv = (1, 0, 0b111111)"
| "u_bit23_opcode VFcmgt = (1, 1, 0b111001)"
| "u_bit23_opcode VFmla = (0, 0, 0b110011)"
| "u_bit23_opcode VFmls = (0, 1, 0b110011)"

definition neon_check_reg :: "u8 \<Rightarrow> (neon_encode_error, unit) result" where
  "neon_check_reg reg = (if reg > 31 then Inl (NeonRegisterOutOfRange reg) else Inr ())"

definition encode_int_vec3_same :: "vector_arrangement \<Rightarrow> int_vec3_op \<Rightarrow> u8 \<Rightarrow> u8 \<Rightarrow> u8 \<Rightarrow> (neon_encode_error, u32) result" where
  "encode_int_vec3_same arr op rm rn rd =
     rbind (neon_check_reg rm) (\<lambda>_. rbind (neon_check_reg rn) (\<lambda>_. rbind (neon_check_reg rd) (\<lambda>_.
     if arr = ArrD2 \<and> op \<in> {VMul, VSmax, VSmin, VUmax, VUmin} then Inl (InvalidSize (ucast (snd (q_size arr))))
     else let (q, sz) = q_size arr; (u, opcode) = u_opcode op in
       Inr (push_bit 30 q OR push_bit 29 u OR push_bit 24 0b01110 OR push_bit 22 sz OR push_bit 21 1 OR push_bit 16 (ucast rm)
         OR push_bit 11 opcode OR push_bit 10 1 OR push_bit 5 (ucast rn) OR ucast rd))))"

definition encode_vec_logic :: "u32 \<Rightarrow> vec_logic_op \<Rightarrow> u8 \<Rightarrow> u8 \<Rightarrow> u8 \<Rightarrow> (neon_encode_error, u32) result" where
  "encode_vec_logic q op rm rn rd =
     rbind (neon_check_reg rm) (\<lambda>_. rbind (neon_check_reg rn) (\<lambda>_. rbind (neon_check_reg rd) (\<lambda>_.
     let (u, sz) = u_size op in
     Inr (push_bit 30 q OR push_bit 29 u OR push_bit 24 0b01110 OR push_bit 22 sz OR push_bit 21 1 OR push_bit 16 (ucast rm)
       OR push_bit 11 0b00011 OR push_bit 10 1 OR push_bit 5 (ucast rn) OR ucast rd))))"

definition encode_vec_not :: "u32 \<Rightarrow> u8 \<Rightarrow> u8 \<Rightarrow> (neon_encode_error, u32) result" where
  "encode_vec_not q rn rd =
     rbind (neon_check_reg rn) (\<lambda>_. rbind (neon_check_reg rd) (\<lambda>_.
     Inr (push_bit 30 q OR push_bit 29 1 OR push_bit 24 0b01110 OR push_bit 17 0b10000 OR push_bit 12 0b00101
       OR push_bit 10 0b10 OR push_bit 5 (ucast rn) OR ucast rd)))"

definition encode_umaxv_4s :: "u8 \<Rightarrow> u8 \<Rightarrow> (neon_encode_error, u32) result" where
  "encode_umaxv_4s rn rd =
     rbind (neon_check_reg rn) (\<lambda>_. rbind (neon_check_reg rd) (\<lambda>_.
     Inr (push_bit 30 1 OR push_bit 29 1 OR push_bit 24 0b01110 OR push_bit 22 0b10 OR push_bit 17 0b11000 OR push_bit 12 0b01010
       OR push_bit 10 0b10 OR push_bit 5 (ucast rn) OR ucast rd)))"

definition encode_fp_vec3_same :: "fp_vector_arrangement \<Rightarrow> fp_vec3_op \<Rightarrow> u8 \<Rightarrow> u8 \<Rightarrow> u8 \<Rightarrow> (neon_encode_error, u32) result" where
  "encode_fp_vec3_same arr op rm rn rd =
     rbind (neon_check_reg rm) (\<lambda>_. rbind (neon_check_reg rn) (\<lambda>_. rbind (neon_check_reg rd) (\<lambda>_.
     let (q, sz) = q_sz arr; (u, bit23, opcode) = u_bit23_opcode op in
     Inr (push_bit 30 q OR push_bit 29 u OR push_bit 24 0b01110 OR push_bit 23 bit23 OR push_bit 22 sz OR push_bit 21 1
       OR push_bit 16 (ucast rm) OR push_bit 10 opcode OR push_bit 5 (ucast rn) OR ucast rd))))"

definition lane_imm5 :: "element_size \<Rightarrow> u8 \<Rightarrow> u32" where
  "lane_imm5 elem lane = (case elem of
       LaneB \<Rightarrow> push_bit 1 (ucast lane) OR 0b1
     | LaneH \<Rightarrow> push_bit 2 (ucast lane) OR 0b10
     | LaneS \<Rightarrow> push_bit 3 (ucast lane) OR 0b100
     | LaneD \<Rightarrow> push_bit 4 (ucast lane) OR 0b1000)"

definition encode_dup_element :: "u32 \<Rightarrow> element_size \<Rightarrow> u8 \<Rightarrow> u8 \<Rightarrow> u8 \<Rightarrow> (neon_encode_error, u32) result" where
  "encode_dup_element q elem lane rn rd =
     rbind (neon_check_reg rn) (\<lambda>_. rbind (neon_check_reg rd) (\<lambda>_.
     let imm5 = lane_imm5 elem lane in
     if imm5 > 0b11111 then Inl (InvalidLane lane)
     else Inr (push_bit 30 q OR push_bit 21 0b001110000 OR push_bit 16 imm5 OR push_bit 10 1 OR push_bit 5 (ucast rn) OR ucast rd)))"

definition encode_dup_general :: "u32 \<Rightarrow> element_size \<Rightarrow> u8 \<Rightarrow> u8 \<Rightarrow> (neon_encode_error, u32) result" where
  "encode_dup_general q elem rn rd =
     rbind (neon_check_reg rn) (\<lambda>_. rbind (neon_check_reg rd) (\<lambda>_.
     let imm5 = (case elem of LaneB \<Rightarrow> 0b00001 | LaneH \<Rightarrow> 0b00010 | LaneS \<Rightarrow> 0b00100 | LaneD \<Rightarrow> 0b01000) in
     Inr (push_bit 30 q OR push_bit 21 0b001110000 OR push_bit 16 imm5 OR push_bit 11 0b0001 OR push_bit 10 1
       OR push_bit 5 (ucast rn) OR ucast rd)))"

definition encode_ins_general :: "element_size \<Rightarrow> u8 \<Rightarrow> u8 \<Rightarrow> u8 \<Rightarrow> (neon_encode_error, u32) result" where
  "encode_ins_general elem lane rn rd =
     rbind (neon_check_reg rn) (\<lambda>_. rbind (neon_check_reg rd) (\<lambda>_.
     let imm5 = lane_imm5 elem lane in
     if imm5 > 0b11111 then Inl (InvalidLane lane)
     else Inr (push_bit 30 1 OR push_bit 21 0b01110000 OR push_bit 16 imm5 OR push_bit 11 0b0011 OR push_bit 10 1
       OR push_bit 5 (ucast rn) OR ucast rd)))"

definition encode_umov_general :: "element_size \<Rightarrow> u8 \<Rightarrow> u8 \<Rightarrow> u8 \<Rightarrow> (neon_encode_error, u32) result" where
  "encode_umov_general elem lane rn rd =
     rbind (neon_check_reg rn) (\<lambda>_. rbind (neon_check_reg rd) (\<lambda>_.
     let q = (if elem = LaneD then 1 else 0); imm5 = lane_imm5 elem lane in
     if imm5 > 0b11111 then Inl (InvalidLane lane)
     else Inr (push_bit 30 q OR push_bit 21 0b001110000 OR push_bit 16 imm5 OR push_bit 11 0b0111 OR push_bit 10 1
       OR push_bit 5 (ucast rn) OR ucast rd)))"

definition encode_movi_byte :: "u32 \<Rightarrow> u8 \<Rightarrow> u8 \<Rightarrow> (neon_encode_error, u32) result" where
  "encode_movi_byte q imm8 rd =
     rbind (neon_check_reg rd) (\<lambda>_.
     let abc = drop_bit 5 (ucast imm8) AND 0b111; defgh = ucast imm8 AND 0b11111 in
     Inr (push_bit 30 q OR push_bit 19 0b0111100000 OR push_bit 16 abc OR push_bit 12 0b1110 OR push_bit 10 0b01
       OR push_bit 5 defgh OR ucast rd))"

definition encode_ld1_post_imm :: "vector_arrangement \<Rightarrow> u8 \<Rightarrow> u8 \<Rightarrow> (neon_encode_error, u32) result" where
  "encode_ld1_post_imm arr rn rt =
     rbind (neon_check_reg rn) (\<lambda>_. rbind (neon_check_reg rt) (\<lambda>_.
     let (q, sz) = q_size arr in
     Inr (push_bit 30 q OR push_bit 23 0b0011001 OR push_bit 22 1 OR push_bit 16 0b11111 OR push_bit 12 0b0111 OR push_bit 10 sz
       OR push_bit 5 (ucast rn) OR ucast rt)))"

definition encode_st1_post_imm :: "vector_arrangement \<Rightarrow> u8 \<Rightarrow> u8 \<Rightarrow> (neon_encode_error, u32) result" where
  "encode_st1_post_imm arr rn rt =
     rbind (neon_check_reg rn) (\<lambda>_. rbind (neon_check_reg rt) (\<lambda>_.
     let (q, sz) = q_size arr in
     Inr (push_bit 30 q OR push_bit 23 0b0011001 OR push_bit 16 0b11111 OR push_bit 12 0b0111 OR push_bit 10 sz
       OR push_bit 5 (ucast rn) OR ucast rt)))"

definition encode_ldp_q_post_imm :: "int \<Rightarrow> u8 \<Rightarrow> u8 \<Rightarrow> u8 \<Rightarrow> (neon_encode_error, u32) result" where
  "encode_ldp_q_post_imm offset rt2 rn rt =
     rbind (neon_check_reg rt) (\<lambda>_. rbind (neon_check_reg rt2) (\<lambda>_. rbind (neon_check_reg rn) (\<lambda>_.
     if rt = rt2 then Inl (LdpDuplicateDest rt)
     else if offset smod 16 \<noteq> 0 then Inl (InvalidLdpQPostOffset offset)
     else let imm7 = offset sdiv 16 in
       if \<not> (- 64 \<le> imm7 \<and> imm7 \<le> 63) then Inl (InvalidLdpQPostOffset offset)
       else let imm7_bits = word_of_int imm7 AND 0x7F in
         Inr (0xACC00000 OR push_bit 15 imm7_bits OR push_bit 10 (ucast rt2) OR push_bit 5 (ucast rn) OR ucast rt))))"

definition encode_stp_q_post_imm :: "int \<Rightarrow> u8 \<Rightarrow> u8 \<Rightarrow> u8 \<Rightarrow> (neon_encode_error, u32) result" where
  "encode_stp_q_post_imm offset rt2 rn rt =
     rbind (neon_check_reg rt) (\<lambda>_. rbind (neon_check_reg rt2) (\<lambda>_. rbind (neon_check_reg rn) (\<lambda>_.
     if offset smod 16 \<noteq> 0 then Inl (InvalidStpQPostOffset offset)
     else let imm7 = offset sdiv 16 in
       if \<not> (- 64 \<le> imm7 \<and> imm7 \<le> 63) then Inl (InvalidStpQPostOffset offset)
       else let imm7_bits = word_of_int imm7 AND 0x7F in
         Inr (0xAC800000 OR push_bit 15 imm7_bits OR push_bit 10 (ucast rt2) OR push_bit 5 (ucast rn) OR ucast rt))))"

section \<open>Formats assembled in place\<close>

text \<open>The formats that \<open>encode.rs\<close> assembles in the arms of \<open>encode_instruction\<close>, as the
  functions of the raw fields with which \<open>tests/aarch64_roundtrip.rs\<close> states them.\<close>

definition encode_data_processing_2_source :: "u32 \<Rightarrow> u32 \<Rightarrow> u32 \<Rightarrow> u32 \<Rightarrow> u32 \<Rightarrow> u32" where
  "encode_data_processing_2_source sf opcode rm rn rd =
     push_bit 31 sf OR push_bit 21 0b00011010110 OR push_bit 16 rm OR push_bit 10 opcode OR push_bit 5 rn OR rd"

definition encode_add_sub_carry :: "u32 \<Rightarrow> u32 \<Rightarrow> bool \<Rightarrow> u32 \<Rightarrow> u32 \<Rightarrow> u32 \<Rightarrow> u32" where
  "encode_add_sub_carry sf op set_flags rm rn rd =
     push_bit 31 sf OR push_bit 30 op OR push_bit 29 (of_bool set_flags) OR push_bit 21 0b11010000 OR push_bit 16 rm OR push_bit 5 rn OR rd"

definition encode_logical_imm :: "u32 \<Rightarrow> u32 \<Rightarrow> bool \<Rightarrow> u32 \<Rightarrow> u32 \<Rightarrow> u32 \<Rightarrow> u32 \<Rightarrow> u32" where
  "encode_logical_imm sf opc n immr imms rn rd =
     push_bit 31 sf OR push_bit 29 opc OR push_bit 23 0b100100 OR push_bit 22 (of_bool n) OR push_bit 16 (immr AND 0x3f)
     OR push_bit 10 (imms AND 0x3f) OR push_bit 5 rn OR rd"

definition encode_data_processing_3_source :: "u32 \<Rightarrow> u32 \<Rightarrow> bool \<Rightarrow> u32 \<Rightarrow> u32 \<Rightarrow> u32 \<Rightarrow> u32 \<Rightarrow> u32" where
  "encode_data_processing_3_source sf op31 o0 rm ra rn rd =
     push_bit 31 sf OR push_bit 24 0b11011 OR push_bit 21 op31 OR push_bit 16 rm OR push_bit 15 (of_bool o0) OR push_bit 10 ra
     OR push_bit 5 rn OR rd"

definition encode_conditional_select :: "u32 \<Rightarrow> bool \<Rightarrow> bool \<Rightarrow> u32 \<Rightarrow> u32 \<Rightarrow> u32 \<Rightarrow> u32 \<Rightarrow> u32" where
  "encode_conditional_select sf op o2 rm cond rn rd =
     push_bit 31 sf OR push_bit 30 (of_bool op) OR push_bit 21 0b11010100 OR push_bit 16 rm OR push_bit 12 cond
     OR push_bit 10 (of_bool o2) OR push_bit 5 rn OR rd"

definition encode_bitfield_move :: "u32 \<Rightarrow> u32 \<Rightarrow> u32 \<Rightarrow> u32 \<Rightarrow> u32 \<Rightarrow> u32 \<Rightarrow> u32" where
  "encode_bitfield_move sf opc immr imms rn rd =
     push_bit 31 sf OR push_bit 29 opc OR push_bit 23 0b100110 OR push_bit 22 sf OR push_bit 16 immr OR push_bit 10 imms
     OR push_bit 5 rn OR rd"

definition encode_fmov_immediate :: "u32 \<Rightarrow> u32 \<Rightarrow> u32 \<Rightarrow> u32" where
  "encode_fmov_immediate ftype imm8 rd =
     push_bit 24 0b00011110 OR push_bit 22 ftype OR push_bit 21 1 OR push_bit 13 imm8 OR push_bit 10 0b100 OR rd"

definition encode_system_barrier :: "u32 \<Rightarrow> u32 \<Rightarrow> u32" where
  "encode_system_barrier op2 crm = 0xd5033000 OR push_bit 8 (crm AND 0xf) OR push_bit 5 op2 OR 0b11111"

definition encode_mrs :: "u32 \<Rightarrow> u32 \<Rightarrow> u32" where
  "encode_mrs sysreg rt = 0xd5200000 OR push_bit 5 (sysreg AND 0xffff) OR rt"

definition encode_nop :: u32 where
  "encode_nop = 0xd503201f"

definition encode_brk :: "u32 \<Rightarrow> u32" where
  "encode_brk imm16 = 0xd4200000 OR push_bit 5 (imm16 AND 0xffff)"

definition encode_load_literal :: "u32 \<Rightarrow> bool \<Rightarrow> u32 \<Rightarrow> u32 \<Rightarrow> u32" where
  "encode_load_literal opc vector imm19 rt =
     push_bit 30 opc OR push_bit 27 0b011 OR push_bit 26 (of_bool vector) OR push_bit 5 (imm19 AND 0x7ffff) OR rt"

definition encode_test_branch :: "bool \<Rightarrow> u32 \<Rightarrow> u32 \<Rightarrow> u32 \<Rightarrow> u32" where
  "encode_test_branch nonzero pos imm14 rt =
     push_bit 31 (drop_bit 5 pos AND 1) OR push_bit 25 0b011011 OR push_bit 24 (of_bool nonzero) OR push_bit 19 (pos AND 0x1f)
     OR push_bit 5 (imm14 AND 0x3fff) OR rt"

definition encode_load_acquire :: "u32 \<Rightarrow> u32 \<Rightarrow> u32 \<Rightarrow> u32" where
  "encode_load_acquire sz rn rt =
     push_bit 30 sz OR push_bit 24 0b001000 OR push_bit 23 1 OR push_bit 22 1 OR push_bit 16 0b11111 OR push_bit 15 1
     OR push_bit 10 0b11111 OR push_bit 5 rn OR rt"

definition encode_store_release :: "u32 \<Rightarrow> u32 \<Rightarrow> u32 \<Rightarrow> u32" where
  "encode_store_release sz rn rt =
     push_bit 30 sz OR push_bit 24 0b001000 OR push_bit 23 1 OR push_bit 16 0b11111 OR push_bit 15 1
     OR push_bit 10 0b11111 OR push_bit 5 rn OR rt"

definition encode_load_acquire_exclusive :: "u32 \<Rightarrow> u32 \<Rightarrow> u32 \<Rightarrow> u32" where
  "encode_load_acquire_exclusive sz rn rt =
     push_bit 30 sz OR push_bit 24 0b001000 OR push_bit 22 1 OR push_bit 16 0b11111 OR push_bit 15 1
     OR push_bit 10 0b11111 OR push_bit 5 rn OR rt"

definition encode_store_release_exclusive :: "u32 \<Rightarrow> u32 \<Rightarrow> u32 \<Rightarrow> u32 \<Rightarrow> u32" where
  "encode_store_release_exclusive sz rs rn rt =
     push_bit 30 sz OR push_bit 24 0b001000 OR push_bit 16 rs OR push_bit 15 1 OR push_bit 10 0b11111 OR push_bit 5 rn OR rt"

definition encode_cas :: "u32 \<Rightarrow> bool \<Rightarrow> bool \<Rightarrow> u32 \<Rightarrow> u32 \<Rightarrow> u32 \<Rightarrow> u32" where
  "encode_cas sz acquire release rs rn rt =
     push_bit 30 sz OR push_bit 24 0b001000 OR push_bit 23 1 OR push_bit 22 (of_bool acquire) OR push_bit 21 1 OR push_bit 16 rs
     OR push_bit 15 (of_bool release) OR push_bit 10 0b11111 OR push_bit 5 rn OR rt"

definition encode_lse_rmw :: "u32 \<Rightarrow> bool \<Rightarrow> bool \<Rightarrow> u32 \<Rightarrow> bool \<Rightarrow> u32 \<Rightarrow> u32 \<Rightarrow> u32 \<Rightarrow> u32" where
  "encode_lse_rmw sz acquire release rs o3 opc rn rt =
     push_bit 30 sz OR push_bit 27 0b111 OR push_bit 23 (of_bool acquire) OR push_bit 22 (of_bool release) OR push_bit 21 1
     OR push_bit 16 rs OR push_bit 15 (of_bool o3) OR push_bit 12 opc OR push_bit 5 rn OR rt"

end
