(* ===== verification/A64_Layout.thy ===== *)
theory A64_Layout
  imports A64_Decode A64_Encoding
begin

text \<open>
  The layout of the decoded forms: the word each form stands for, put together by the encoders of
  \<open>A64_Encoding\<close> where they take the raw fields, and the forms that are allocated. The decoder's
  bit-field readers are related to the bits of the word, and each class's guard to its branch of
  \<open>decode\<close>.
\<close>

section \<open>Bits of machine words\<close>

lemma all_less_8: "(\<forall>n<8. P n) \<longleftrightarrow> P 0 \<and> P 1 \<and> P 2 \<and> P 3 \<and> P 4 \<and> P 5 \<and> P 6 \<and> P (7 :: nat)"
  by (simp add: numeral_eq_Suc All_less_Suc2)

lemma all_less_16:
  "(\<forall>n<16. P n) \<longleftrightarrow> P 0 \<and> P 1 \<and> P 2 \<and> P 3 \<and> P 4 \<and> P 5 \<and> P 6 \<and> P 7 \<and> P 8 \<and> P 9 \<and> P 10 \<and> P 11 \<and> P 12 \<and> P 13 \<and> P 14 \<and> P (15 :: nat)"
  by (simp add: numeral_eq_Suc All_less_Suc2)

lemma all_less_32:
  "(\<forall>n<32. P n) \<longleftrightarrow> P 0 \<and> P 1 \<and> P 2 \<and> P 3 \<and> P 4 \<and> P 5 \<and> P 6 \<and> P 7 \<and> P 8 \<and> P 9 \<and> P 10 \<and> P 11 \<and> P 12 \<and> P 13 \<and> P 14 \<and> P 15
    \<and> P 16 \<and> P 17 \<and> P 18 \<and> P 19 \<and> P 20 \<and> P 21 \<and> P 22 \<and> P 23 \<and> P 24 \<and> P 25 \<and> P 26 \<and> P 27 \<and> P 28 \<and> P 29 \<and> P 30 \<and> P (31 :: nat)"
  by (simp add: numeral_eq_Suc All_less_Suc2)

lemma u8_eq_iff: "(v :: u8) = w \<longleftrightarrow> (\<forall>n<8. bit v n = bit w n)"
  by (auto simp: bit_eq_iff possible_bit_def bit_imp_le_length)

lemma u16_eq_iff: "(v :: u16) = w \<longleftrightarrow> (\<forall>n<16. bit v n = bit w n)"
  by (auto simp: bit_eq_iff possible_bit_def bit_imp_le_length)

lemma u32_eq_iff: "(v :: u32) = w \<longleftrightarrow> (\<forall>n<32. bit v n = bit w n)"
  by (auto simp: bit_eq_iff possible_bit_def bit_imp_le_length)

lemmas u8_bits = u8_eq_iff[unfolded all_less_8]
lemmas u16_bits = u16_eq_iff[unfolded all_less_16]
lemmas u32_bits = u32_eq_iff[unfolded all_less_32]

lemma less_power_bits: "(v :: 'a :: len word) < 2 ^ n \<longleftrightarrow> (\<forall>k<LENGTH('a). n \<le> k \<longrightarrow> \<not> bit v k)" if "n < LENGTH('a)"
proof -
  have "v < 2 ^ n \<longleftrightarrow> take_bit n v = v"
  proof -
    have "uint (word_of_int (2 ^ n) :: 'a word) = 2 ^ n"
      unfolding uint_word_of_int_eq using that by (intro take_bit_int_eq_self) auto
    then have "uint (2 ^ n :: 'a word) = 2 ^ n" by simp
    then have "v < 2 ^ n \<longleftrightarrow> uint v < 2 ^ n" by (simp add: word_less_def)
    also have "\<dots> \<longleftrightarrow> uint (take_bit n v) = uint v" by (simp add: unsigned_take_bit_eq take_bit_int_eq_self_iff)
    finally show ?thesis by (simp add: word_uint_eq_iff)
  qed
  also have "\<dots> \<longleftrightarrow> (\<forall>k<LENGTH('a). n \<le> k \<longrightarrow> \<not> bit v k)"
    by (auto simp: bit_eq_iff bit_take_bit_iff possible_bit_def not_less dest: bit_imp_le_length)
  finally show ?thesis .
qed

lemma u8_less:
  "(v :: u8) < 2 \<longleftrightarrow> \<not> bit v 1 \<and> \<not> bit v 2 \<and> \<not> bit v 3 \<and> \<not> bit v 4 \<and> \<not> bit v 5 \<and> \<not> bit v 6 \<and> \<not> bit v 7"
  "(v :: u8) < 4 \<longleftrightarrow> \<not> bit v 2 \<and> \<not> bit v 3 \<and> \<not> bit v 4 \<and> \<not> bit v 5 \<and> \<not> bit v 6 \<and> \<not> bit v 7"
  "(v :: u8) < 8 \<longleftrightarrow> \<not> bit v 3 \<and> \<not> bit v 4 \<and> \<not> bit v 5 \<and> \<not> bit v 6 \<and> \<not> bit v 7"
  "(v :: u8) < 16 \<longleftrightarrow> \<not> bit v 4 \<and> \<not> bit v 5 \<and> \<not> bit v 6 \<and> \<not> bit v 7"
  "(v :: u8) < 32 \<longleftrightarrow> \<not> bit v 5 \<and> \<not> bit v 6 \<and> \<not> bit v 7"
  "(v :: u8) < 64 \<longleftrightarrow> \<not> bit v 6 \<and> \<not> bit v 7"
  "(v :: u8) < 128 \<longleftrightarrow> \<not> bit v 7"
  using less_power_bits[of 1 v] less_power_bits[of 2 v] less_power_bits[of 3 v] less_power_bits[of 4 v]
    less_power_bits[of 5 v] less_power_bits[of 6 v] less_power_bits[of 7 v]
  by (simp_all add: all_less_8)

lemma u16_less:
  "(v :: u16) < 4096 \<longleftrightarrow> \<not> bit v 12 \<and> \<not> bit v 13 \<and> \<not> bit v 14 \<and> \<not> bit v 15"
  "(v :: u16) < 16384 \<longleftrightarrow> \<not> bit v 14 \<and> \<not> bit v 15"
  using less_power_bits[of 12 v] less_power_bits[of 14 v] by (simp_all add: all_less_16)

lemma u32_less:
  "(v :: u32) < 524288 \<longleftrightarrow> \<not> bit v 19 \<and> \<not> bit v 20 \<and> \<not> bit v 21 \<and> \<not> bit v 22 \<and> \<not> bit v 23 \<and> \<not> bit v 24 \<and> \<not> bit v 25
     \<and> \<not> bit v 26 \<and> \<not> bit v 27 \<and> \<not> bit v 28 \<and> \<not> bit v 29 \<and> \<not> bit v 30 \<and> \<not> bit v 31"
  "(v :: u32) < 67108864 \<longleftrightarrow> \<not> bit v 26 \<and> \<not> bit v 27 \<and> \<not> bit v 28 \<and> \<not> bit v 29 \<and> \<not> bit v 30 \<and> \<not> bit v 31"
  using less_power_bits[of 19 v] less_power_bits[of 26 v] by (simp_all add: all_less_32)

section \<open>The field readers\<close>

lemma bit_at_bit [simp]: "bit_at w off = bit w off"
  by (simp add: bit_at_def and_one_eq bit_iff_odd_drop_bit odd_iff_mod_2_eq_one)

lemma bit_bits [simp]: "bit (bits w off width) k \<longleftrightarrow> k < width \<and> bit w (off + k)"
proof -
  have "push_bit width (1 :: u32) - 1 = mask width" by (simp add: mask_eq_exp_minus_1)
  then show ?thesis by (auto simp: bits_def bit_and_iff bit_mask_iff bit_drop_bit_eq possible_bit_def dest: bit_imp_le_length)
qed

lemma bit_as_u8 [simp]: "bit (as_u8 v) k \<longleftrightarrow> k < 8 \<and> bit v k"
  by (auto simp: as_u8_def bit_simps)

lemma bit_as_u16 [simp]: "bit (as_u16 v) k \<longleftrightarrow> k < 16 \<and> bit v k"
  by (auto simp: as_u16_def bit_simps)

section \<open>The layout\<close>

primrec lse_o3_opc :: "lse_atomic_rmw_op \<Rightarrow> bool \<times> u32" where
  "lse_o3_opc LseAdd = (False, 0b000)"
| "lse_o3_opc LseClr = (False, 0b001)"
| "lse_o3_opc LseEor = (False, 0b010)"
| "lse_o3_opc LseSet = (False, 0b011)"
| "lse_o3_opc LseSmax = (False, 0b100)"
| "lse_o3_opc LseSmin = (False, 0b101)"
| "lse_o3_opc LseUmax = (False, 0b110)"
| "lse_o3_opc LseUmin = (False, 0b111)"
| "lse_o3_opc LseSwp = (True, 0b000)"

primrec barrier_op2 :: "system_barrier_kind \<Rightarrow> u32" where
  "barrier_op2 Dsb = 0b100"
| "barrier_op2 Dmb = 0b101"
| "barrier_op2 Isb = 0b110"

primrec lane_of :: "neon_element_size \<Rightarrow> element_size" where
  "lane_of ElemB = LaneB"
| "lane_of ElemH = LaneH"
| "lane_of ElemS = LaneS"
| "lane_of ElemD = LaneD"

text \<open>The word of a form.\<close>

primrec instruction_word :: "a64_instruction \<Rightarrow> u32" where
  "instruction_word (AddSubShiftedReg sf op s shift rm imm6 rn rd) =
     encode_add_sub_shifted_reg (ucast sf) (ucast op) (of_bool s) (ucast shift) (ucast rm) (ucast imm6) (ucast rn) (ucast rd)"
| "instruction_word (LogicalShiftedReg sf opc shift n rm imm6 rn rd) =
     encode_logical_shifted_reg (ucast sf) (ucast opc) (ucast shift) (of_bool n) (ucast rm) (ucast imm6) (ucast rn) (ucast rd)"
| "instruction_word (LogicalImm sf opc n immr imms rn rd) =
     encode_logical_imm (ucast sf) (ucast opc) n (ucast immr) (ucast imms) (ucast rn) (ucast rd)"
| "instruction_word (AddSubImm sf op s sh imm12 rn rd) =
     encode_add_sub_imm (ucast sf) (ucast op) (of_bool s) (of_bool sh) (ucast imm12) (ucast rn) (ucast rd)"
| "instruction_word (AddSubCarry sf op s rm rn rd) = encode_add_sub_carry (ucast sf) (ucast op) s (ucast rm) (ucast rn) (ucast rd)"
| "instruction_word (MoveWide sf opc hw imm16 rd) = encode_move_wide (ucast sf) (ucast opc) (ucast hw) (ucast imm16) (ucast rd)"
| "instruction_word (BitfieldMove sf opc immr imms rn rd) =
     encode_bitfield_move (ucast sf) (ucast opc) (ucast immr) (ucast imms) (ucast rn) (ucast rd)"
| "instruction_word (PcRelAddress page imm21 rd) =
     push_bit 31 (of_bool page) OR push_bit 29 (word_of_int imm21 AND 0x3) OR push_bit 24 0b10000
     OR push_bit 5 (drop_bit 2 (word_of_int imm21 AND 0x1FFFFF)) OR ucast rd"
| "instruction_word (CondBranch imm19 cond) = encode_cond_branch imm19 (ucast cond)"
| "instruction_word (UncondBranch link imm26) = encode_uncond_branch (of_bool link) imm26"
| "instruction_word (BranchReg opc rn) = encode_branch_reg (ucast opc) (ucast rn)"
| "instruction_word (TestBranch nz pos imm14 rt) = encode_test_branch nz (ucast pos) (ucast imm14) (ucast rt)"
| "instruction_word (LoadStoreUnsignedImm sz v opc imm12 rn rt) =
     encode_load_store_ui (ucast sz) (of_bool v) (ucast opc) (ucast imm12) (ucast rn) (ucast rt)"
| "instruction_word (LoadStoreUnscaled sz v opc imm9 rn rt) =
     encode_load_store_unscaled (ucast sz) (of_bool v) (ucast opc) imm9 (ucast rn) (ucast rt)"
| "instruction_word (LoadStoreIndexed sz v opc imm9 mode rn rt) =
     encode_load_store_unscaled (ucast sz) (of_bool v) (ucast opc) imm9 (ucast rn) (ucast rt)
     OR push_bit 10 (if mode = IxPostIndex then 0b01 else 0b11)"
| "instruction_word (LoadStoreRegister sz v opc rm option shift rn rt) =
     push_bit 30 (ucast sz) OR push_bit 27 0b111 OR push_bit 26 (of_bool v) OR push_bit 22 (ucast opc) OR push_bit 21 1
     OR push_bit 16 (ucast rm) OR push_bit 13 (ucast option) OR push_bit 12 (of_bool shift) OR push_bit 10 0b10
     OR push_bit 5 (ucast rn) OR ucast rt"
| "instruction_word (LoadLiteral opc v imm19 rt) = encode_load_literal (ucast opc) v imm19 (ucast rt)"
| "instruction_word (LoadStorePair opc v load mode imm7 rt2 rn rt) =
     push_bit 30 (ucast opc) OR push_bit 27 0b101 OR push_bit 26 (of_bool v)
     OR push_bit 23 (case mode of PairPostIndex \<Rightarrow> 0b001 | PairSignedOffset \<Rightarrow> 0b010 | PairPreIndex \<Rightarrow> 0b011)
     OR push_bit 22 (of_bool load) OR push_bit 15 (ucast imm7) OR push_bit 10 (ucast rt2) OR push_bit 5 (ucast rn) OR ucast rt"
| "instruction_word (LoadStoreAcquireRelease sz load rn rt) =
     (if load then encode_load_acquire (ucast sz) (ucast rn) (ucast rt) else encode_store_release (ucast sz) (ucast rn) (ucast rt))"
| "instruction_word (LoadStoreExclusiveAcquireRelease sz load rs rn rt) =
     (if load then encode_load_acquire_exclusive (ucast sz) (ucast rn) (ucast rt)
      else encode_store_release_exclusive (ucast sz) (ucast rs) (ucast rn) (ucast rt))"
| "instruction_word (CompareAndSwap sz acquire release rs rn rt) =
     encode_cas (ucast sz) acquire release (ucast rs) (ucast rn) (ucast rt)"
| "instruction_word (LseAtomicRmw sz acquire release op rs rn rt) =
     encode_lse_rmw (ucast sz) acquire release (ucast rs) (fst (lse_o3_opc op)) (snd (lse_o3_opc op)) (ucast rn) (ucast rt)"
| "instruction_word (CompareBranch sf nz imm19 rt) = encode_cmp_branch (ucast sf) (of_bool nz) imm19 (ucast rt)"
| "instruction_word (DataProcessing2Source sf opcode rm rn rd) =
     encode_data_processing_2_source (ucast sf) (ucast opcode) (ucast rm) (ucast rn) (ucast rd)"
| "instruction_word (DataProcessing3Source sf op31 o0 rm ra rn rd) =
     encode_data_processing_3_source (ucast sf) (ucast op31) o0 (ucast rm) (ucast ra) (ucast rn) (ucast rd)"
| "instruction_word (ConditionalSelect sf op o2 rm cond rn rd) =
     encode_conditional_select (ucast sf) op o2 (ucast rm) (ucast cond) (ucast rn) (ucast rd)"
| "instruction_word (FpArith ftype opcode rm rn rd) =
     push_bit 24 0b11110 OR push_bit 22 (ucast ftype) OR push_bit 21 1 OR push_bit 16 (ucast rm) OR push_bit 12 (ucast opcode)
     OR push_bit 10 0b10 OR push_bit 5 (ucast rn) OR ucast rd"
| "instruction_word (FpCompare ftype rm rn opc) =
     push_bit 24 0b11110 OR push_bit 22 (ucast ftype) OR push_bit 21 1 OR push_bit 16 (ucast rm) OR push_bit 10 0b1000
     OR push_bit 5 (ucast rn) OR ucast opc"
| "instruction_word (FpIntConversion sf64 ftype rmode opcode rn rd) =
     push_bit 31 (of_bool sf64) OR push_bit 24 0b11110 OR push_bit 22 (ucast ftype) OR push_bit 21 1 OR push_bit 19 (ucast rmode)
     OR push_bit 16 (ucast opcode) OR push_bit 5 (ucast rn) OR ucast rd"
| "instruction_word (FpUnary ftype opcode rn rd) =
     push_bit 24 0b11110 OR push_bit 22 (ucast ftype) OR push_bit 21 1 OR push_bit 15 (ucast opcode) OR push_bit 10 0b10000
     OR push_bit 5 (ucast rn) OR ucast rd"
| "instruction_word (FpPrecisionConvert src dst rn rd) =
     push_bit 24 0b11110 OR push_bit 22 (ucast src) OR push_bit 21 1 OR push_bit 17 0b0001 OR push_bit 15 (ucast dst)
     OR push_bit 10 0b10000 OR push_bit 5 (ucast rn) OR ucast rd"
| "instruction_word (FpImmediate ftype imm8 rd) = encode_fmov_immediate (ucast ftype) (ucast imm8) (ucast rd)"
| "instruction_word Nop = encode_nop"
| "instruction_word (Brk imm16) = encode_brk (ucast imm16)"
| "instruction_word (SystemBarrier kind crm) = encode_system_barrier (barrier_op2 kind) (ucast crm)"
| "instruction_word (SystemRegisterRead sysreg rt) = encode_mrs (ucast sysreg) (ucast rt)"
| "instruction_word (NeonIntVec3Same q u sz opcode rm rn rd) =
     push_bit 30 (of_bool q) OR push_bit 29 (of_bool u) OR push_bit 24 0b01110 OR push_bit 22 (ucast sz) OR push_bit 21 1
     OR push_bit 16 (ucast rm) OR push_bit 11 (ucast opcode) OR push_bit 10 1 OR push_bit 5 (ucast rn) OR ucast rd"
| "instruction_word (NeonVecLogic q u sz rm rn rd) =
     push_bit 30 (of_bool q) OR push_bit 29 (of_bool u) OR push_bit 24 0b01110 OR push_bit 22 (ucast sz) OR push_bit 21 1
     OR push_bit 16 (ucast rm) OR push_bit 11 0b00011 OR push_bit 10 1 OR push_bit 5 (ucast rn) OR ucast rd"
| "instruction_word (NeonFpVec3Same q u bit23 sz opcode rm rn rd) =
     push_bit 30 (of_bool q) OR push_bit 29 (of_bool u) OR push_bit 24 0b01110 OR push_bit 23 (of_bool bit23) OR push_bit 22 (ucast sz)
     OR push_bit 21 1 OR push_bit 16 (ucast rm) OR push_bit 10 (ucast opcode) OR push_bit 5 (ucast rn) OR ucast rd"
| "instruction_word (NeonVecNot q rn rd) =
     push_bit 30 (of_bool q) OR push_bit 29 1 OR push_bit 24 0b01110 OR push_bit 17 0b10000 OR push_bit 12 0b00101
     OR push_bit 10 0b10 OR push_bit 5 (ucast rn) OR ucast rd"
| "instruction_word (NeonAcrossLanes q u sz opcode rn rd) =
     push_bit 30 (of_bool q) OR push_bit 29 (of_bool u) OR push_bit 24 0b01110 OR push_bit 22 (ucast sz) OR push_bit 17 0b11000
     OR push_bit 12 (ucast opcode) OR push_bit 10 0b10 OR push_bit 5 (ucast rn) OR ucast rd"
| "instruction_word (NeonDupElement q elem lane rn rd) =
     push_bit 30 (of_bool q) OR push_bit 21 0b001110000 OR push_bit 16 (lane_imm5 (lane_of elem) lane) OR push_bit 10 1
     OR push_bit 5 (ucast rn) OR ucast rd"
| "instruction_word (NeonDupGeneral q elem rn rd) =
     push_bit 30 (of_bool q) OR push_bit 21 0b001110000 OR push_bit 16 (lane_imm5 (lane_of elem) 0) OR push_bit 11 0b0001
     OR push_bit 10 1 OR push_bit 5 (ucast rn) OR ucast rd"
| "instruction_word (NeonInsGeneral elem lane rn rd) =
     push_bit 30 1 OR push_bit 21 0b01110000 OR push_bit 16 (lane_imm5 (lane_of elem) lane) OR push_bit 11 0b0011
     OR push_bit 10 1 OR push_bit 5 (ucast rn) OR ucast rd"
| "instruction_word (NeonMoviByte q imm8 rd) =
     push_bit 30 (of_bool q) OR push_bit 19 0b0111100000 OR push_bit 16 (drop_bit 5 (ucast imm8) AND 0b111) OR push_bit 12 0b1110
     OR push_bit 10 0b01 OR push_bit 5 (ucast imm8 AND 0b11111) OR ucast rd"
| "instruction_word (NeonLdStSinglePostImm q load sz rn rt) =
     push_bit 30 (of_bool q) OR push_bit 23 0b0011001 OR push_bit 22 (of_bool load) OR push_bit 16 0b11111 OR push_bit 12 0b0111
     OR push_bit 10 (ucast sz) OR push_bit 5 (ucast rn) OR ucast rt"

section \<open>Allocated forms\<close>

definition scalar_allocated :: "u8 \<Rightarrow> bool \<Rightarrow> u8 \<Rightarrow> bool \<Rightarrow> bool" where
  "scalar_allocated sz vector opc writeback \<longleftrightarrow>
     (vector \<longrightarrow> opc < 2 \<or> sz = 0) \<and> (\<not> vector \<longrightarrow> \<not> (opc = 3 \<and> 2 \<le> sz) \<and> \<not> (opc = 2 \<and> sz = 3 \<and> writeback))"

primrec lane_limit :: "neon_element_size \<Rightarrow> u8" where
  "lane_limit ElemB = 16"
| "lane_limit ElemH = 8"
| "lane_limit ElemS = 4"
| "lane_limit ElemD = 2"

text \<open>The forms the architecture allocates and does not leave constrained unpredictable.\<close>

primrec allocated :: "a64_instruction \<Rightarrow> bool" where
  "allocated (AddSubShiftedReg sf op s shift rm imm6 rn rd) \<longleftrightarrow>
     sf < 2 \<and> op < 2 \<and> shift < 4 \<and> shift \<noteq> 3 \<and> rm < 32 \<and> imm6 < 64 \<and> (sf = 0 \<longrightarrow> imm6 < 32) \<and> rn < 32 \<and> rd < 32"
| "allocated (LogicalShiftedReg sf opc shift n rm imm6 rn rd) \<longleftrightarrow>
     sf < 2 \<and> opc < 4 \<and> shift < 4 \<and> rm < 32 \<and> imm6 < 64 \<and> (sf = 0 \<longrightarrow> imm6 < 32) \<and> rn < 32 \<and> rd < 32"
| "allocated (LogicalImm sf opc n immr imms rn rd) \<longleftrightarrow>
     sf < 2 \<and> opc < 4 \<and> (sf = 0 \<longrightarrow> \<not> n) \<and> immr < 64 \<and> imms < 64 \<and> logical_immediate_bitmask_is_allocated n imms \<and> rn < 32 \<and> rd < 32"
| "allocated (AddSubImm sf op s sh imm12 rn rd) \<longleftrightarrow> sf < 2 \<and> op < 2 \<and> imm12 < 4096 \<and> rn < 32 \<and> rd < 32"
| "allocated (AddSubCarry sf op s rm rn rd) \<longleftrightarrow> sf < 2 \<and> op < 2 \<and> \<not> s \<and> rm < 32 \<and> rn < 32 \<and> rd < 32"
| "allocated (MoveWide sf opc hw imm16 rd) \<longleftrightarrow> sf < 2 \<and> opc < 4 \<and> opc \<noteq> 1 \<and> hw < 4 \<and> (sf = 0 \<longrightarrow> hw < 2) \<and> rd < 32"
| "allocated (BitfieldMove sf opc immr imms rn rd) \<longleftrightarrow>
     sf < 2 \<and> opc < 4 \<and> opc \<noteq> 3 \<and> immr < 64 \<and> imms < 64 \<and> (sf = 0 \<longrightarrow> immr < 32 \<and> imms < 32) \<and> rn < 32 \<and> rd < 32"
| "allocated (PcRelAddress page imm21 rd) \<longleftrightarrow> - (2 ^ 20) \<le> imm21 \<and> imm21 < 2 ^ 20 \<and> rd < 32"
| "allocated (CondBranch imm19 cond) \<longleftrightarrow> imm19 < 524288 \<and> cond < 16"
| "allocated (UncondBranch link imm26) \<longleftrightarrow> imm26 < 67108864"
| "allocated (BranchReg opc rn) \<longleftrightarrow> opc < 4 \<and> opc \<noteq> 3 \<and> rn < 32"
| "allocated (TestBranch nz pos imm14 rt) \<longleftrightarrow> pos < 64 \<and> imm14 < 16384 \<and> rt < 32"
| "allocated (LoadStoreUnsignedImm sz v opc imm12 rn rt) \<longleftrightarrow>
     sz < 4 \<and> opc < 4 \<and> scalar_allocated sz v opc False \<and> imm12 < 4096 \<and> rn < 32 \<and> rt < 32"
| "allocated (LoadStoreUnscaled sz v opc imm9 rn rt) \<longleftrightarrow>
     sz < 4 \<and> opc < 4 \<and> scalar_allocated sz v opc False \<and> - 256 \<le> imm9 \<and> imm9 < 256 \<and> rn < 32 \<and> rt < 32"
| "allocated (LoadStoreIndexed sz v opc imm9 mode rn rt) \<longleftrightarrow>
     sz < 4 \<and> opc < 4 \<and> scalar_allocated sz v opc True \<and> - 256 \<le> imm9 \<and> imm9 < 256 \<and> rn < 32 \<and> rt < 32
     \<and> (v \<or> rn = 31 \<or> rt \<noteq> rn)"
| "allocated (LoadStoreRegister sz v opc rm option shift rn rt) \<longleftrightarrow>
     sz < 4 \<and> opc < 4 \<and> scalar_allocated sz v opc False \<and> rm < 32 \<and> option < 8 \<and> bit option 1 \<and> rn < 32 \<and> rt < 32
     \<and> \<not> (sz = 3 \<and> \<not> v \<and> opc = 2 \<and> drop_bit 3 rt = 3)"
| "allocated (LoadLiteral opc v imm19 rt) \<longleftrightarrow> opc = 1 \<and> \<not> v \<and> imm19 < 524288 \<and> rt < 32"
| "allocated (LoadStorePair opc v load mode imm7 rt2 rn rt) \<longleftrightarrow>
     opc < 4 \<and> opc \<noteq> 3 \<and> \<not> (opc = 1 \<and> \<not> v \<and> \<not> load) \<and> imm7 < 128 \<and> rt2 < 32 \<and> rn < 32 \<and> rt < 32
     \<and> (load \<longrightarrow> rt \<noteq> rt2) \<and> (v \<or> mode = PairSignedOffset \<or> rn = 31 \<or> rt \<noteq> rn \<and> rt2 \<noteq> rn)"
| "allocated (LoadStoreAcquireRelease sz load rn rt) \<longleftrightarrow> sz < 4 \<and> rn < 32 \<and> rt < 32"
| "allocated (LoadStoreExclusiveAcquireRelease sz load rs rn rt) \<longleftrightarrow>
     (sz = 2 \<or> sz = 3) \<and> rs < 32 \<and> rn < 32 \<and> rt < 32 \<and> (if load then rs = 31 else rs \<noteq> rt \<and> (rs = rn \<longrightarrow> rn = 31))"
| "allocated (CompareAndSwap sz acquire release rs rn rt) \<longleftrightarrow> sz < 4 \<and> rs < 32 \<and> rn < 32 \<and> rt < 32"
| "allocated (LseAtomicRmw sz acquire release op rs rn rt) \<longleftrightarrow> sz < 4 \<and> rs < 32 \<and> rn < 32 \<and> rt < 32"
| "allocated (CompareBranch sf nz imm19 rt) \<longleftrightarrow> sf < 2 \<and> imm19 < 524288 \<and> rt < 32"
| "allocated (DataProcessing2Source sf opcode rm rn rd) \<longleftrightarrow>
     sf < 2 \<and> opcode \<in> {2, 3, 8, 9, 10} \<and> rm < 32 \<and> rn < 32 \<and> rd < 32"
| "allocated (DataProcessing3Source sf op31 o0 rm ra rn rd) \<longleftrightarrow>
     sf < 2 \<and> (op31 = 0 \<or> op31 \<in> {1, 2, 5, 6} \<and> sf = 1 \<and> \<not> o0 \<and> ra = 31) \<and> rm < 32 \<and> ra < 32 \<and> rn < 32 \<and> rd < 32"
| "allocated (ConditionalSelect sf op o2 rm cond rn rd) \<longleftrightarrow> sf < 2 \<and> rm < 32 \<and> cond < 16 \<and> rn < 32 \<and> rd < 32"
| "allocated (FpArith ftype opcode rm rn rd) \<longleftrightarrow> ftype < 4 \<and> ftype \<noteq> 2 \<and> opcode < 4 \<and> rm < 32 \<and> rn < 32 \<and> rd < 32"
| "allocated (FpCompare ftype rm rn opc) \<longleftrightarrow>
     ftype < 4 \<and> ftype \<noteq> 2 \<and> (opc \<in> {0, 16} \<or> opc \<in> {8, 24} \<and> rm = 0) \<and> rm < 32 \<and> rn < 32"
| "allocated (FpIntConversion sf64 ftype rmode opcode rn rd) \<longleftrightarrow>
     ftype < 4 \<and> ftype \<noteq> 2 \<and> (rmode, opcode) \<in> {(3, 0), (3, 1), (0, 2), (0, 3), (0, 6), (0, 7)}
     \<and> (rmode = 0 \<and> 6 \<le> opcode \<longrightarrow> ftype = 3 \<or> sf64 = (ftype = 1)) \<and> rn < 32 \<and> rd < 32"
| "allocated (FpUnary ftype opcode rn rd) \<longleftrightarrow> ftype < 4 \<and> ftype \<noteq> 2 \<and> opcode < 4 \<and> rn < 32 \<and> rd < 32"
| "allocated (FpPrecisionConvert src dst rn rd) \<longleftrightarrow>
     src < 4 \<and> src \<noteq> 2 \<and> dst < 4 \<and> dst \<noteq> 2 \<and> dst \<noteq> src \<and> rn < 32 \<and> rd < 32"
| "allocated (FpImmediate ftype imm8 rd) \<longleftrightarrow> ftype < 4 \<and> ftype \<noteq> 2 \<and> rd < 32"
| "allocated Nop \<longleftrightarrow> True"
| "allocated (Brk imm16) \<longleftrightarrow> imm16 = 1"
| "allocated (SystemBarrier kind crm) \<longleftrightarrow> crm < 16"
| "allocated (SystemRegisterRead sysreg rt) \<longleftrightarrow> bit sysreg 15 \<and> rt < 32"
| "allocated (NeonIntVec3Same q u sz opcode rm rn rd) \<longleftrightarrow>
     (u, opcode) \<in> {(False, 16), (True, 16), (False, 19), (True, 17), (False, 6), (False, 7)} \<and> sz < 4
     \<and> (sz = 3 \<longrightarrow> q \<and> opcode \<noteq> 19) \<and> rm < 32 \<and> rn < 32 \<and> rd < 32"
| "allocated (NeonVecLogic q u sz rm rn rd) \<longleftrightarrow>
     (u, sz) \<in> {(False, 0), (False, 1), (False, 2), (True, 0)} \<and> rm < 32 \<and> rn < 32 \<and> rd < 32"
| "allocated (NeonFpVec3Same q u bit23 sz opcode rm rn rd) \<longleftrightarrow>
     (u, bit23, opcode) \<in> {(False, False, 53), (False, True, 53), (True, False, 55), (True, False, 63)} \<and> sz < 2 \<and> (sz = 1 \<longrightarrow> q)
     \<and> rm < 32 \<and> rn < 32 \<and> rd < 32"
| "allocated (NeonVecNot q rn rd) \<longleftrightarrow> rn < 32 \<and> rd < 32"
| "allocated (NeonAcrossLanes q u sz opcode rn rd) \<longleftrightarrow> q \<and> u \<and> sz = 2 \<and> opcode = 10 \<and> rn < 32 \<and> rd < 32"
| "allocated (NeonDupElement q elem lane rn rd) \<longleftrightarrow> lane < lane_limit elem \<and> (elem = ElemD \<longrightarrow> q) \<and> rn < 32 \<and> rd < 32"
| "allocated (NeonDupGeneral q elem rn rd) \<longleftrightarrow> (elem = ElemD \<longrightarrow> q) \<and> rn < 32 \<and> rd < 32"
| "allocated (NeonInsGeneral elem lane rn rd) \<longleftrightarrow> lane < lane_limit elem \<and> rn < 32 \<and> rd < 32"
| "allocated (NeonMoviByte q imm8 rd) \<longleftrightarrow> rd < 32"
| "allocated (NeonLdStSinglePostImm q load sz rn rt) \<longleftrightarrow> sz < 4 \<and> rn < 32 \<and> rt < 32"

end
