(* ===== verification/A64_Reads.thy ===== *)
theory A64_Reads
  imports A64_Layout
begin

text \<open>
  What the decoder returns is true of the word: every form it produces is allocated, and the word
  is the form's layout. One lemma per instruction class, each by the bits of the word.
\<close>

section \<open>Reading a word\<close>

text \<open>The bits of a word that its form does not determine: the copy of a general register to all
  lanes has an unused lane number.\<close>

definition ignored_bits :: "a64_instruction \<Rightarrow> u32" where
  "ignored_bits i = (case i of NeonDupGeneral q elem rn rd \<Rightarrow>
     (case elem of ElemB \<Rightarrow> 0x1E0000 | ElemH \<Rightarrow> 0x1C0000 | ElemS \<Rightarrow> 0x180000 | ElemD \<Rightarrow> 0x100000) | _ \<Rightarrow> 0)"

definition reads :: "u32 \<Rightarrow> decoded \<Rightarrow> bool" where
  "reads w r \<longleftrightarrow> (case r of Inl e \<Rightarrow> True | Inr i \<Rightarrow> allocated i \<and> instruction_word i = w AND NOT (ignored_bits i))"

lemma reads_simps:
  "reads w (Inl e)"
  "reads w (Inr i) \<longleftrightarrow> allocated i \<and> instruction_word i = w AND NOT (ignored_bits i)"
  "reads w (if b then r else s) \<longleftrightarrow> (b \<longrightarrow> reads w r) \<and> (\<not> b \<longrightarrow> reads w s)"
  by (simp_all add: reads_def)

lemma rbind_if: "rbind (if b then r else s) f = (if b then rbind r f else rbind s f)"
  by simp

lemma le_not_less: "a \<le> b \<longleftrightarrow> \<not> b < (a :: 'a :: len word)"
  by auto

lemma u8_greater: "2 < (v :: u8) \<longleftrightarrow> \<not> (v < 4 \<and> v \<noteq> 3)" "3 < (v :: u8) \<longleftrightarrow> \<not> v < 4" "31 < (v :: u8) \<longleftrightarrow> \<not> v < 32"
  by (simp_all add: word_less_nat_alt word_unat_eq_iff) linarith+

lemma u8_less_6: "(v :: u8) < 6 \<longleftrightarrow> v < 8 \<and> v \<noteq> 6 \<and> v \<noteq> 7"
  by (simp add: word_less_nat_alt word_unat_eq_iff) linarith

lemma high_bits: "8 \<le> n \<Longrightarrow> \<not> bit (v :: u8) n" "16 \<le> n \<Longrightarrow> \<not> bit (x :: u16) n" "32 \<le> n \<Longrightarrow> \<not> bit (y :: u32) n"
  by (auto dest: bit_imp_le_length)

lemmas encode_defs =
  encode_add_sub_shifted_reg_def encode_logical_shifted_reg_def encode_add_sub_imm_def encode_move_wide_def
  encode_cond_branch_def encode_uncond_branch_def encode_branch_reg_def encode_load_store_ui_def
  encode_load_store_unscaled_def encode_load_store_pair_def encode_cmp_branch_def encode_data_processing_2_source_def
  encode_add_sub_carry_def encode_logical_imm_def encode_data_processing_3_source_def encode_conditional_select_def
  encode_bitfield_move_def encode_fmov_immediate_def encode_system_barrier_def encode_mrs_def encode_nop_def encode_brk_def
  encode_load_literal_def encode_test_branch_def encode_load_acquire_def encode_store_release_def
  encode_load_acquire_exclusive_def encode_store_release_exclusive_def encode_cas_def encode_lse_rmw_def

lemmas validate_defs =
  validate_load_store_pair_def validate_shifted_reg_amount_def validate_scalar_load_store_def validate_fp_ftype_def
  validate_neon_vector_arrangement_def validate_neon_fp_arrangement_def

lemmas word_bits = u8_bits u16_bits u32_bits u8_less u16_less u32_less u8_less_6 u8_greater le_not_less bit_simps numeral_2_eq_2[symmetric]

lemmas reads_bits = Let_def validate_defs reads_simps rbind_if encode_defs word_bits ignored_bits_def scalar_allocated_def

section \<open>Data processing\<close>

lemma reads_add_sub_shifted_reg: "\<lbrakk>bits w 24 5 = 0b01011; \<not> bit_at w 21\<rbrakk> \<Longrightarrow> reads w (decode_add_sub_shifted_reg w)"
  by (simp add: decode_add_sub_shifted_reg_def reads_bits)

lemma reads_logical_shifted_reg: "bits w 24 5 = 0b01010 \<Longrightarrow> reads w (decode_logical_shifted_reg w)"
  by (simp add: decode_logical_shifted_reg_def reads_bits)

lemma reads_logical_imm: "bits w 23 6 = 0b100100 \<Longrightarrow> reads w (decode_logical_imm w)"
  by (simp add: decode_logical_imm_def reads_bits)

lemma reads_add_sub_imm: "bits w 23 6 = 0b100010 \<Longrightarrow> reads w
    (Inr (AddSubImm (as_u8 (bits w 31 1)) (as_u8 (bits w 30 1)) (bit_at w 29) (bit_at w 22)
      (as_u16 (bits w 10 12)) (as_u8 (bits w 5 5)) (as_u8 (bits w 0 5))))"
  by (simp add: reads_bits)

lemma reads_add_sub_carry: "\<lbrakk>bits w 21 8 = 0b11010000; bits w 10 6 = 0\<rbrakk> \<Longrightarrow> reads w (decode_add_sub_carry w)"
  by (simp add: decode_add_sub_carry_def reads_bits)

lemma reads_move_wide: "bits w 23 6 = 0b100101 \<Longrightarrow> reads w (decode_move_wide w)"
  by (simp add: decode_move_wide_def reads_bits)

lemma reads_bitfield_move: "bits w 23 6 = 0b100110 \<Longrightarrow> reads w (decode_bitfield_move w)"
  by (simp add: decode_bitfield_move_def reads_bits)

lemma reads_cond_branch: "bits w 24 8 = 0b01010100 \<Longrightarrow> reads w (decode_cond_branch w)"
  by (simp add: decode_cond_branch_def reads_bits)

lemma reads_uncond_branch: "bits w 26 5 = 0b00101 \<Longrightarrow> reads w (Inr (UncondBranch (bit_at w 31) (bits w 0 26)))"
  by (simp add: reads_bits)

lemma reads_branch_reg:
  "\<lbrakk>bits w 25 7 = 0b1101011; bits w 16 5 = 0b11111; bits w 10 6 = 0; bits w 0 5 = 0\<rbrakk> \<Longrightarrow> reads w (decode_branch_reg w)"
  by (simp add: decode_branch_reg_def reads_bits) satx

lemma reads_compare_branch: "bits w 25 6 = 0b011010 \<Longrightarrow> reads w
    (Inr (CompareBranch (as_u8 (bits w 31 1)) (bit_at w 24) (bits w 5 19) (as_u8 (bits w 0 5))))"
  by (simp add: reads_bits)

lemma reads_test_branch: "bits w 25 6 = 0b011011 \<Longrightarrow> reads w
    (Inr (TestBranch (bit_at w 24) (push_bit 5 (of_bool (bit_at w 31)) OR as_u8 (bits w 19 5)) (as_u16 (bits w 5 14)) (as_u8 (bits w 0 5))))"
  by (simp add: reads_bits)

lemma reads_data_processing_2_source: "bits w 21 10 = 0b0011010110 \<Longrightarrow> reads w (decode_data_processing_2_source w)"
  by (simp add: decode_data_processing_2_source_def reads_bits)

lemma reads_data_processing_3_source:
  "\<lbrakk>bits w 24 5 = 0b11011; bits w 29 2 = 0\<rbrakk> \<Longrightarrow> reads w (decode_data_processing_3_source w)"
  by (simp add: decode_data_processing_3_source_def reads_bits)

lemma reads_conditional_select: "bits w 21 8 = 0b11010100 \<Longrightarrow> reads w (decode_conditional_select w)"
  by (simp add: decode_conditional_select_def reads_bits)

section \<open>Scalar floating point and system\<close>

lemma reads_fp_scalar: "\<lbrakk>bits w 24 5 = 0b11110; bits w 29 2 = 0; bit_at w 21\<rbrakk> \<Longrightarrow> reads w (decode_fp_scalar w)"
  by (simp add: decode_fp_scalar_def decode_fp_arith_def decode_fp_compare_def decode_fp_int_conversion_def
      decode_fp_immediate_def reads_bits) satx

lemma reads_system: "bits w 22 10 = 0b1101010100 \<Longrightarrow> reads w (decode_system w)"
  by (simp add: decode_system_def reads_bits)

section \<open>Vectors\<close>

lemma reads_neon_three_same: "\<lbrakk>\<not> bit_at w 31; bits w 24 5 = 0b01110; bit_at w 21\<rbrakk> \<Longrightarrow> reads w (decode_neon_three_same w)"
  by (simp add: decode_neon_three_same_def reads_bits) satx

lemma reads_neon_modified_immediate:
  "\<lbrakk>\<not> bit_at w 31; bits w 19 10 = 0b0111100000\<rbrakk> \<Longrightarrow> reads w (decode_neon_modified_immediate w)"
  by (simp add: decode_neon_modified_immediate_def reads_bits)

lemma reads_neon_ldst_single_post_imm:
  "\<lbrakk>\<not> bit_at w 31; bits w 23 7 = 0b0011001\<rbrakk> \<Longrightarrow> reads w (decode_neon_ldst_single_post_imm w)"
  by (simp add: decode_neon_ldst_single_post_imm_def reads_bits)

section \<open>Loads and stores\<close>

lemma reads_load_literal: "bits w 24 6 = 0b011000 \<Longrightarrow> reads w (decode_load_literal w)"
  by (simp add: decode_load_literal_def reads_bits)

lemma reads_load_store_acquire_release: "bits w 24 6 = 0b001000 \<Longrightarrow> reads w (decode_load_store_acquire_release w)"
  by (simp add: decode_load_store_acquire_release_def reads_bits) satx

lemma reads_lse_atomic_rmw: "\<lbrakk>bits w 24 6 = 0b111000; bit_at w 21; bits w 10 2 = 0\<rbrakk> \<Longrightarrow> reads w (decode_lse_atomic_rmw w)"
  by (simp add: decode_lse_atomic_rmw_def reads_bits)

lemma reads_load_store_unsigned: "\<lbrakk>bits w 27 3 = 0b111; bits w 24 2 = 0b01\<rbrakk> \<Longrightarrow> reads w
    (rbind (validate_scalar_load_store w (as_u8 (bits w 30 2)) (bit_at w 26) (as_u8 (bits w 22 2)) NoWriteback) (\<lambda>_.
      Inr (LoadStoreUnsignedImm (as_u8 (bits w 30 2)) (bit_at w 26) (as_u8 (bits w 22 2)) (as_u16 (bits w 10 12))
        (as_u8 (bits w 5 5)) (as_u8 (bits w 0 5)))))"
  by (simp add: reads_bits)

lemma reads_load_store_register:
  "\<lbrakk>bits w 27 3 = 0b111; bits w 24 2 = 0; bit_at w 21; bits w 10 2 = 0b10\<rbrakk> \<Longrightarrow> reads w (decode_load_store_register w)"
  by (simp add: decode_load_store_register_def reads_bits)

lemma reads_load_store_pair: "\<lbrakk>bits w 27 3 = 0b101; \<not> bit_at w 25\<rbrakk> \<Longrightarrow> reads w (decode_load_store_pair w)"
  by (simp add: decode_load_store_pair_def reads_bits)

section \<open>Signed fields\<close>

lemma sign_extend_field: "\<lbrakk>0 < n; n \<le> 32\<rbrakk> \<Longrightarrow> sign_extend_field v n = signed_take_bit (n - 1) (uint v)"
proof -
  assume n: "0 < n" "n \<le> 32"
  have "sign_extend_field v n = drop_bit (32 - n) (signed_take_bit 31 (push_bit (32 - n) (uint v)))"
    by (simp add: sign_extend_field_def Let_def drop_bit_eq_div sint_uint unsigned_push_bit_eq signed_take_bit_take_bit)
  also have "\<dots> = signed_take_bit (n - 1) (uint v)"
    using n by (intro bit_eqI) (auto simp: bit_drop_bit_eq bit_signed_take_bit_iff bit_push_bit_iff min_def)
  finally show ?thesis .
qed

lemma as_i16_field: "0 < n \<Longrightarrow> n \<le> 16 \<Longrightarrow> as_i16 (signed_take_bit (n - 1) v) = signed_take_bit (n - 1) v"
  using min_absorb1[of "n - 1" 15] by (simp add: as_i16_def signed_take_bit_signed_take_bit min.commute)

lemma bit_signed_field: "bit (word_of_int (signed_take_bit n (uint v)) :: 'a :: len word) k \<longleftrightarrow> k < LENGTH('a) \<and> bit v (min n k)"
  by (auto simp: bit_word_of_int_iff bit_signed_take_bit_iff bit_uint_iff dest: bit_imp_le_length)

lemma signed_field_range: "- (2 ^ n) \<le> signed_take_bit n (x :: int)" "signed_take_bit n (x :: int) < 2 ^ n"
  by (simp_all add: signed_take_bit_int_greater_eq_minus_exp signed_take_bit_int_less_exp)

lemma signed_9: "as_i16 (sign_extend_field v 9) = signed_take_bit 8 (uint v)"
  using as_i16_field[of 9] by (simp add: sign_extend_field)

lemma signed_21: "sign_extend_field v 21 = signed_take_bit 20 (uint v)"
  by (simp add: sign_extend_field)

lemma reads_pc_rel_address: "bits w 24 5 = 0b10000 \<Longrightarrow> reads w
    (Inr (PcRelAddress (bit_at w 31) (sign_extend_field (bits w 29 2 OR push_bit 2 (bits w 5 19)) 21) (as_u8 (bits w 0 5))))"
  using signed_field_range[of 20 "uint (bits w 29 2 OR push_bit 2 (bits w 5 19))"]
  by (simp add: signed_21 reads_bits bit_signed_field)

lemma pred_option_if: "pred_option P (if b then x else y) \<longleftrightarrow> (b \<longrightarrow> pred_option P x) \<and> (\<not> b \<longrightarrow> pred_option P y)"
  by simp

lemma reads_unscaled_or_indexed:
  "\<lbrakk>bits w 27 3 = 0b111; bits w 24 2 = 0; \<not> bit_at w 21\<rbrakk> \<Longrightarrow> pred_option (reads w) (decode_unscaled_or_indexed w)"
  using signed_field_range[of 8 "uint (bits w 12 9)"]
  by (simp add: decode_unscaled_or_indexed_def signed_9 pred_option_if reads_bits bit_signed_field)

section \<open>Lanes\<close>

lemma trailing_zeros8: "trailing_zeros8 v = (if bit v 0 then 0 else if bit v 1 then 1 else if bit v 2 then 2 else if bit v 3 then 3
    else if bit v 4 then 4 else if bit v 5 then 5 else if bit v 6 then 6 else if bit v 7 then 7 else 8)"
  by (simp add: trailing_zeros8_def upt_rec numeral_eq_Suc)

lemma reads_element: 
  assumes "bit v 0 \<Longrightarrow> reads w (f (ElemB, drop_bit 1 v))" and "\<lbrakk>\<not> bit v 0; bit v 1\<rbrakk> \<Longrightarrow> reads w (f (ElemH, drop_bit 2 v))"
    and "\<lbrakk>\<not> bit v 0; \<not> bit v 1; bit v 2\<rbrakk> \<Longrightarrow> reads w (f (ElemS, drop_bit 3 v))"
    and "\<lbrakk>\<not> bit v 0; \<not> bit v 1; \<not> bit v 2; bit v 3\<rbrakk> \<Longrightarrow> reads w (f (ElemD, drop_bit 4 v))"
  shows "reads w (rbind (decode_neon_element_imm5 w v) f)"
  using assms by (simp add: decode_neon_element_imm5_def trailing_zeros8 reads_simps)

lemma bit_lane_imm5:
  "bit (lane_imm5 LaneB v) k \<longleftrightarrow> k = 0 \<or> 1 \<le> k \<and> k < 32 \<and> bit v (k - 1)"
  "bit (lane_imm5 LaneH v) k \<longleftrightarrow> k = 1 \<or> 2 \<le> k \<and> k < 32 \<and> bit v (k - 2)"
  "bit (lane_imm5 LaneS v) k \<longleftrightarrow> k = 2 \<or> 3 \<le> k \<and> k < 32 \<and> bit v (k - 3)"
  "bit (lane_imm5 LaneD v) k \<longleftrightarrow> k = 3 \<or> 4 \<le> k \<and> k < 32 \<and> bit v (k - 4)"
proof -
  have "bit (2 ^ m :: u32) k \<longleftrightarrow> k = m" if "m < 32" for m using that by (auto simp: bit_exp_iff possible_bit_def)
  from this[of 1] this[of 2] this[of 3]
  have powers: "bit (2 :: u32) k \<longleftrightarrow> k = 1" "bit (4 :: u32) k \<longleftrightarrow> k = 2" "bit (8 :: u32) k \<longleftrightarrow> k = 3" by simp_all
  show "bit (lane_imm5 LaneB v) k \<longleftrightarrow> k = 0 \<or> 1 \<le> k \<and> k < 32 \<and> bit v (k - 1)"
    "bit (lane_imm5 LaneH v) k \<longleftrightarrow> k = 1 \<or> 2 \<le> k \<and> k < 32 \<and> bit v (k - 2)"
    "bit (lane_imm5 LaneS v) k \<longleftrightarrow> k = 2 \<or> 3 \<le> k \<and> k < 32 \<and> bit v (k - 3)"
    "bit (lane_imm5 LaneD v) k \<longleftrightarrow> k = 3 \<or> 4 \<le> k \<and> k < 32 \<and> bit v (k - 4)"
    unfolding lane_imm5_def element_size.case bit_or_iff bit_push_bit_iff bit_unsigned_iff powers bit_1_iff
    by (auto simp: possible_bit_def dest: bit_imp_le_length)
qed

lemma reads_neon_dup_element:
  "\<lbrakk>\<not> bit_at w 31; bits w 21 9 = 0b001110000; bits w 10 6 = 0b000001\<rbrakk> \<Longrightarrow> reads w (decode_neon_dup_element w)"
  unfolding decode_neon_dup_element_def Let_def
  by (rule reads_element) (simp_all add: reads_bits bit_lane_imm5)

lemma reads_neon_dup_general:
  "\<lbrakk>\<not> bit_at w 31; bits w 21 9 = 0b001110000; bits w 10 6 = 0b000011 \<or> bits w 10 6 = 0b000111\<rbrakk> \<Longrightarrow> reads w (decode_neon_dup_general w)"
  unfolding decode_neon_dup_general_def Let_def
  by (elim disjE; rule reads_element) (simp_all add: reads_bits bit_lane_imm5)

end
