(* ===== verification/A64_Build.thy ===== *)
theory A64_Build
  imports A64_Reads
begin

text \<open>
  Every allocated form is read back from its layout. A word under construction is a disjunction of
  shifted fields; \<open>field_bits\<close> reads a field of it without looking at single bits. One lemma per
  form: the guard that selects its class, and the class's decoder on the fields.
\<close>

section \<open>Fields of a word under construction\<close>

lemma bits_or: "bits (x OR y) off w = bits x off w OR bits y off w"
  by (rule bit_eqI) (auto simp: bit_or_iff)

lemma bits_push:
  "\<lbrakk>n \<le> off; off + w \<le> 32\<rbrakk> \<Longrightarrow> bits (push_bit n v) off w = bits v (off - n) w"
  "\<lbrakk>off < n; n < off + w; off + w \<le> 32\<rbrakk> \<Longrightarrow> bits (push_bit n v) off w = push_bit (n - off) (bits v 0 (w - (n - off)))"
  "off + w \<le> n \<Longrightarrow> bits (push_bit n v) off w = 0"
  by (rule bit_eqI; auto simp: bit_push_bit_iff possible_bit_def add.commute[of off] dest: bit_imp_le_length)+

lemma bits_literal:
  "bits 0 off w = 0" "bits 1 off w = drop_bit off 1 AND (push_bit w 1 - 1)"
  "bits (numeral k) off w = drop_bit off (numeral k) AND (push_bit w 1 - 1)"
  by (simp_all add: bits_def)

lemma bits_of_bool: "bits (of_bool b) off w = of_bool (b \<and> off = 0 \<and> 0 < w)"
  by (rule bit_eqI) (auto simp: bit_simps)

lemma bits_fits:
  fixes v :: u32
  assumes "v < 2 ^ k" "k < 32"
  shows "k \<le> off \<Longrightarrow> bits v off w = 0" "k \<le> w \<Longrightarrow> bits v 0 w = v"
proof -
  have "\<not> bit v j" if "k \<le> j" for j
    using assms that less_power_bits[of k v] bit_imp_le_length[of v j] by auto
  then show "k \<le> off \<Longrightarrow> bits v off w = 0" "k \<le> w \<Longrightarrow> bits v 0 w = v"
    by (auto simp: bit_eq_iff) (meson linorder_not_less order_trans)
qed

lemma bits_ucast:
  fixes x :: "'a :: len word"
  assumes "x < 2 ^ k" "k < LENGTH('a)"
  shows "k \<le> off \<Longrightarrow> bits (ucast x) off w = 0" "k \<le> w \<Longrightarrow> bits (ucast x) 0 w = ucast x"
proof -
  have "\<not> bit x j" if "k \<le> j" for j
    using assms that less_power_bits[of k x] bit_imp_le_length[of x j] by auto
  then show "k \<le> off \<Longrightarrow> bits (ucast x) off w = 0" "k \<le> w \<Longrightarrow> bits (ucast x) 0 w = ucast x"
    by (auto simp: bit_eq_iff bit_simps) (meson linorder_not_less order_trans)
qed

lemma bits_ucast_full:
  "8 \<le> off \<Longrightarrow> bits (ucast (x :: u8)) off w = 0" "8 \<le> w \<Longrightarrow> bits (ucast (x :: u8)) 0 w = ucast x"
  "16 \<le> off \<Longrightarrow> bits (ucast (y :: u16)) off w = 0" "16 \<le> w \<Longrightarrow> bits (ucast (y :: u16)) 0 w = ucast y"
  by (auto simp: bit_eq_iff bit_simps dest: bit_imp_le_length)

lemmas bits_u8 =
  bits_ucast[where 'a = 8 and k = 1, simplified] bits_ucast[where 'a = 8 and k = 2, simplified]
  bits_ucast[where 'a = 8 and k = 3, simplified] bits_ucast[where 'a = 8 and k = 4, simplified]
  bits_ucast[where 'a = 8 and k = 5, simplified] bits_ucast[where 'a = 8 and k = 6, simplified]
  bits_ucast[where 'a = 8 and k = 7, simplified]

lemmas bits_u16 = bits_ucast[where 'a = 16 and k = 12, simplified] bits_ucast[where 'a = 16 and k = 14, simplified]

lemmas bits_u32 = bits_fits[where k = 19, simplified] bits_fits[where k = 26, simplified]

lemma as_ucast: "as_u8 (ucast (x :: u8)) = x" "as_u16 (ucast (y :: u16)) = y"
  by (auto simp: bit_eq_iff bit_simps dest: bit_imp_le_length)

lemma as_u8_literal: "as_u8 (of_bool b) = of_bool b" "as_u8 0 = 0" "as_u8 1 = 1" "as_u8 (numeral k) = ucast (numeral k :: u32)"
  by (simp_all add: as_u8_def)

lemma bit_fits: "\<lbrakk>x < 2 ^ k; k < LENGTH('a); k \<le> n\<rbrakk> \<Longrightarrow> \<not> bit (x :: 'a :: len word) n"
  using less_power_bits[of k x] bit_imp_le_length[of x n] by auto

lemmas bit_u8 =
  bit_fits[where 'a = 8 and k = 1, simplified] bit_fits[where 'a = 8 and k = 2, simplified]
  bit_fits[where 'a = 8 and k = 3, simplified] bit_fits[where 'a = 8 and k = 4, simplified]
  bit_fits[where 'a = 8 and k = 5, simplified] bit_fits[where 'a = 8 and k = 6, simplified]
  bit_fits[where 'a = 8 and k = 7, simplified]

lemmas bit_u16 = bit_fits[where 'a = 16 and k = 12, simplified] bit_fits[where 'a = 16 and k = 14, simplified]

lemma and_mask_ucast: "\<lbrakk>x < 2 ^ k; k < LENGTH('a)\<rbrakk> \<Longrightarrow> ucast (x :: 'a :: len word) AND mask k = (ucast x :: u32)"
  using bit_fits[of x k] by (auto simp: bit_eq_iff bit_simps) (meson leI)

lemma and_mask_u32: "\<lbrakk>x < 2 ^ k; k < 32\<rbrakk> \<Longrightarrow> x AND mask k = (x :: u32)"
  using bit_fits[of x k] by (auto simp: bit_eq_iff bit_simps) (meson leI)

lemma and_mask_u16: "ucast (y :: u16) AND 0xFFFF = (ucast y :: u32)"
  by (auto simp: u32_bits bit_simps dest: bit_imp_le_length)

lemmas and_masks =
  and_mask_ucast[where 'a = 8 and k = 1, simplified] and_mask_ucast[where 'a = 8 and k = 2, simplified mask_eq_exp_minus_1, simplified]
  and_mask_ucast[where 'a = 8 and k = 3, simplified mask_eq_exp_minus_1, simplified] and_mask_ucast[where 'a = 8 and k = 4, simplified mask_eq_exp_minus_1, simplified]
  and_mask_ucast[where 'a = 8 and k = 5, simplified mask_eq_exp_minus_1, simplified] and_mask_ucast[where 'a = 8 and k = 6, simplified mask_eq_exp_minus_1, simplified]
  and_mask_ucast[where 'a = 16 and k = 12, simplified mask_eq_exp_minus_1, simplified] and_mask_ucast[where 'a = 16 and k = 14, simplified mask_eq_exp_minus_1, simplified]
  and_mask_u32[where k = 19, simplified mask_eq_exp_minus_1, simplified] and_mask_u32[where k = 26, simplified mask_eq_exp_minus_1, simplified] and_mask_u16

lemmas bit_u32 = bit_fits[where 'a = 32 and k = 19, simplified] bit_fits[where 'a = 32 and k = 26, simplified]

lemmas field_bits = bits_or bits_push bits_literal bits_of_bool bits_u8 bits_u16 bits_ucast_full as_ucast as_u8_literal
  bit_u8 bit_u16 high_bits and_masks bit_simps

lemma and_2_zero: "(x :: u8) AND 2 = 0 \<longleftrightarrow> \<not> bit x 1"
  by (simp add: u8_bits bit_simps)

lemma less_4_cases: "(x :: u8) < 4 \<longleftrightarrow> x = 0 \<or> x = 1 \<or> x = 2 \<or> x = 3"
  by (simp add: word_less_nat_alt word_unat_eq_iff) linarith

lemma lane_imm5_less: "lane < lane_limit elem \<Longrightarrow> lane_imm5 (lane_of elem) lane < 32"
  unfolding less_power_bits[of 5 "lane_imm5 (lane_of elem) lane", simplified] all_less_32
  by (cases elem) (simp_all add: bit_lane_imm5 u8_less high_bits)

lemma decode_lane_imm5: "lane < lane_limit elem \<Longrightarrow> decode_neon_element_imm5 w (as_u8 (lane_imm5 (lane_of elem) lane)) = Inr (elem, lane)"
  by (cases elem) (simp_all add: decode_neon_element_imm5_def trailing_zeros8 bit_lane_imm5 word_bits high_bits)

lemmas bits_lane_imm5 = bits_fits[where k = 5 and v = "lane_imm5 (lane_of elem) lane", simplified, OF lane_imm5_less] for elem lane

lemmas bit_lane_high = bit_fits[where 'a = 32 and k = 5, simplified, OF lane_imm5_less]

lemma lane_limit_positive: "0 < lane_limit elem"
  by (cases elem) simp_all

lemmas lane_bits = bits_lane_imm5 bit_lane_high decode_lane_imm5 lane_limit_positive


section \<open>The branch a guard selects\<close>

lemma decode_branch:
  "\<lbrakk>bits w 24 5 = 0b10000; Inr (PcRelAddress (bit_at w 31) (sign_extend_field (bits w 29 2 OR push_bit 2 (bits w 5 19)) 21) (as_u8 (bits w 0 5))) = r\<rbrakk> \<Longrightarrow> decode w = r"
  "\<lbrakk>bits w 24 5 = 0b01011; \<not> bit_at w 21; decode_add_sub_shifted_reg w = r\<rbrakk> \<Longrightarrow> decode w = r"
  "\<lbrakk>bits w 24 5 = 0b01010; decode_logical_shifted_reg w = r\<rbrakk> \<Longrightarrow> decode w = r"
  "\<lbrakk>bits w 23 6 = 0b100100; decode_logical_imm w = r\<rbrakk> \<Longrightarrow> decode w = r"
  "\<lbrakk>bits w 23 6 = 0b100010; Inr (AddSubImm (as_u8 (bits w 31 1)) (as_u8 (bits w 30 1)) (bit_at w 29) (bit_at w 22)
      (as_u16 (bits w 10 12)) (as_u8 (bits w 5 5)) (as_u8 (bits w 0 5))) = r\<rbrakk> \<Longrightarrow> decode w = r"
  "\<lbrakk>bits w 21 8 = 0b11010000; bits w 10 6 = 0; decode_add_sub_carry w = r\<rbrakk> \<Longrightarrow> decode w = r"
  "\<lbrakk>bits w 23 6 = 0b100101; decode_move_wide w = r\<rbrakk> \<Longrightarrow> decode w = r"
  "\<lbrakk>bits w 23 6 = 0b100110; decode_bitfield_move w = r\<rbrakk> \<Longrightarrow> decode w = r"
  "\<lbrakk>bits w 24 8 = 0b01010100; decode_cond_branch w = r\<rbrakk> \<Longrightarrow> decode w = r"
  "\<lbrakk>bits w 26 5 = 0b00101; Inr (UncondBranch (bit_at w 31) (bits w 0 26)) = r\<rbrakk> \<Longrightarrow> decode w = r"
  "\<lbrakk>bits w 25 7 = 0b1101011; bits w 16 5 = 0b11111; bits w 10 6 = 0; bits w 0 5 = 0; decode_branch_reg w = r\<rbrakk> \<Longrightarrow> decode w = r"
  "\<lbrakk>bits w 25 6 = 0b011010; Inr (CompareBranch (as_u8 (bits w 31 1)) (bit_at w 24) (bits w 5 19) (as_u8 (bits w 0 5))) = r\<rbrakk> \<Longrightarrow> decode w = r"
  "\<lbrakk>bits w 25 6 = 0b011011; Inr (TestBranch (bit_at w 24) (push_bit 5 (of_bool (bit_at w 31)) OR as_u8 (bits w 19 5))
      (as_u16 (bits w 5 14)) (as_u8 (bits w 0 5))) = r\<rbrakk> \<Longrightarrow> decode w = r"
  "\<lbrakk>bits w 24 6 = 0b011000; decode_load_literal w = r\<rbrakk> \<Longrightarrow> decode w = r"
  "\<lbrakk>bits w 21 10 = 0b0011010110; decode_data_processing_2_source w = r\<rbrakk> \<Longrightarrow> decode w = r"
  "\<lbrakk>bits w 24 5 = 0b11011; bits w 29 2 = 0; decode_data_processing_3_source w = r\<rbrakk> \<Longrightarrow> decode w = r"
  "\<lbrakk>bits w 21 8 = 0b11010100; decode_conditional_select w = r\<rbrakk> \<Longrightarrow> decode w = r"
  "\<lbrakk>bits w 24 5 = 0b11110; bits w 29 2 = 0; bit_at w 21; decode_fp_scalar w = r\<rbrakk> \<Longrightarrow> decode w = r"
  "\<lbrakk>bit_at w 12; bits w 22 10 = 0b1101010100; decode_system w = r\<rbrakk> \<Longrightarrow> decode w = r"
  "\<lbrakk>bit_at w 21; bits w 22 10 = 0b1101010100; decode_system w = r\<rbrakk> \<Longrightarrow> decode w = r"
  "\<lbrakk>\<not> bit_at w 31; bits w 24 5 = 0b01110; bit_at w 21; decode_neon_three_same w = r\<rbrakk> \<Longrightarrow> decode w = r"
  "\<lbrakk>\<not> bit_at w 31; bits w 19 10 = 0b0111100000; decode_neon_modified_immediate w = r\<rbrakk> \<Longrightarrow> decode w = r"
  "\<lbrakk>\<not> bit_at w 31; bits w 21 9 = 0b001110000; bits w 10 6 = 0b000001; decode_neon_dup_element w = r\<rbrakk> \<Longrightarrow> decode w = r"
  "\<lbrakk>\<not> bit_at w 31; bits w 21 9 = 0b001110000; bits w 10 6 = 0b000011; decode_neon_dup_general w = r\<rbrakk> \<Longrightarrow> decode w = r"
  "\<lbrakk>\<not> bit_at w 31; bits w 21 9 = 0b001110000; bits w 10 6 = 0b000111; decode_neon_dup_general w = r\<rbrakk> \<Longrightarrow> decode w = r"
  "\<lbrakk>\<not> bit_at w 31; bits w 23 7 = 0b0011001; decode_neon_ldst_single_post_imm w = r\<rbrakk> \<Longrightarrow> decode w = r"
  "\<lbrakk>bits w 24 6 = 0b001000; decode_load_store_acquire_release w = r\<rbrakk> \<Longrightarrow> decode w = r"
  "\<lbrakk>bits w 24 6 = 0b111000; bit_at w 21; bits w 10 2 = 0; decode_lse_atomic_rmw w = r\<rbrakk> \<Longrightarrow> decode w = r"
  "\<lbrakk>bits w 27 3 = 0b111; bits w 24 2 = 0b01; rbind (validate_scalar_load_store w (as_u8 (bits w 30 2)) (bit_at w 26) (as_u8 (bits w 22 2)) NoWriteback) (\<lambda>_.
      Inr (LoadStoreUnsignedImm (as_u8 (bits w 30 2)) (bit_at w 26) (as_u8 (bits w 22 2)) (as_u16 (bits w 10 12))
        (as_u8 (bits w 5 5)) (as_u8 (bits w 0 5)))) = r\<rbrakk> \<Longrightarrow> decode w = r"
  "\<lbrakk>bits w 27 3 = 0b111; bits w 24 2 = 0; bit_at w 21; bits w 10 2 = 0b10; decode_load_store_register w = r\<rbrakk> \<Longrightarrow> decode w = r"
  "\<lbrakk>bits w 27 3 = 0b111; bits w 24 2 = 0; \<not> bit_at w 21; decode_unscaled_or_indexed w = Some r\<rbrakk> \<Longrightarrow> decode w = r"
  "\<lbrakk>bits w 27 3 = 0b101; \<not> bit_at w 25; decode_load_store_pair w = r\<rbrakk> \<Longrightarrow> decode w = r"
  by (simp_all add: decode_def AARCH64_NOP_def AARCH64_BRK_1_def word_bits)

lemmas build_bits = Let_def validate_defs encode_defs scalar_allocated_def field_bits le_not_less u8_greater

lemmas layout_bits = Let_def validate_defs encode_defs word_bits high_bits

lemmas form_cases = allocated.simps insert_iff prod.inject empty_iff simp_thms

lemmas fp_scalar_defs =
  decode_fp_scalar_def decode_fp_arith_def decode_fp_compare_def decode_fp_int_conversion_def decode_fp_immediate_def

lemma decode_fp_scalar_int:
  assumes "bits w 24 5 = 0b11110" "bits w 29 2 = 0" "bit_at w 21" "bits w 10 6 = 0"
    and "rbind (validate_fp_ftype w (as_u8 (bits w 22 2))) (\<lambda>_. decode_fp_int_conversion w (as_u8 (bits w 22 2))) = r"
  shows "decode w = r"
proof -
  have "bits w 10 3 \<noteq> 4" using assms(4) by (simp add: word_bits)
  then have "decode_fp_scalar w = r" using assms(4,5) by (simp add: decode_fp_scalar_def Let_def)
  then show ?thesis by (rule decode_branch(18)[OF assms(1-3)])
qed

lemma decode_three_same:
  assumes "\<not> bit_at w 31" "bits w 24 5 = 0b01110" "bit_at w 21" "bit_at w 10"
    and "(if (bit w 29, as_u8 (bits w 11 5)) \<in> {(False, 16), (True, 16), (False, 19), (True, 17), (False, 6), (False, 7)}
     then rbind (validate_neon_vector_arrangement w (bit w 30) (as_u8 (bits w 22 2))) (\<lambda>_.
       if as_u8 (bits w 11 5) = 19 \<and> as_u8 (bits w 22 2) = 3 then Inl (Unallocated w ''NEON MUL has no 64-bit element arrangement'')
       else Inr (NeonIntVec3Same (bit w 30) (bit w 29) (as_u8 (bits w 22 2)) (as_u8 (bits w 11 5))
         (as_u8 (bits w 16 5)) (as_u8 (bits w 5 5)) (as_u8 (bits w 0 5))))
     else if as_u8 (bits w 11 5) = 3
     then if (bit w 29, as_u8 (bits w 22 2)) \<in> {(False, 0), (False, 1), (False, 2), (True, 0)}
          then Inr (NeonVecLogic (bit w 30) (bit w 29) (as_u8 (bits w 22 2))
            (as_u8 (bits w 16 5)) (as_u8 (bits w 5 5)) (as_u8 (bits w 0 5)))
          else Inl (Unsupported w)
     else if (bit w 29, bit w 23, as_u8 (bits w 10 6)) \<in> {(False, False, 53), (False, True, 53), (True, False, 55), (True, False, 63)}
     then rbind (validate_neon_fp_arrangement w (bit w 30) (as_u8 (bits w 22 1))) (\<lambda>_.
       Inr (NeonFpVec3Same (bit w 30) (bit w 29) (bit w 23) (as_u8 (bits w 22 1)) (as_u8 (bits w 10 6))
         (as_u8 (bits w 16 5)) (as_u8 (bits w 5 5)) (as_u8 (bits w 0 5))))
     else Inl (Unsupported w)) = r"
  shows "decode w = r"
proof -
  have "bits w 10 2 \<noteq> 2" using assms(4) by (simp add: word_bits)
  then have "decode_neon_three_same w = r" unfolding assms(5)[symmetric] using assms(4) by (simp add: decode_neon_three_same_def Let_def)
  then show ?thesis by (rule decode_branch(21)[OF assms(1-3)])
qed

section \<open>Every allocated form is read back\<close>

lemma decode_AddSubShiftedReg:
  "allocated (AddSubShiftedReg sf op s shift rm imm6 rn rd) \<Longrightarrow> decode (instruction_word (AddSubShiftedReg sf op s shift rm imm6 rn rd)) = Inr (AddSubShiftedReg sf op s shift rm imm6 rn rd)"
  by (rule decode_branch(2)) (simp_all add: decode_add_sub_shifted_reg_def build_bits, auto?)

lemma decode_LogicalShiftedReg:
  "allocated (LogicalShiftedReg sf opc shift n rm imm6 rn rd) \<Longrightarrow> decode (instruction_word (LogicalShiftedReg sf opc shift n rm imm6 rn rd)) = Inr (LogicalShiftedReg sf opc shift n rm imm6 rn rd)"
  by (rule decode_branch(3)) (simp_all add: decode_logical_shifted_reg_def build_bits, auto?)

lemma decode_LogicalImm:
  "allocated (LogicalImm sf opc n immr imms rn rd) \<Longrightarrow> decode (instruction_word (LogicalImm sf opc n immr imms rn rd)) = Inr (LogicalImm sf opc n immr imms rn rd)"
  by (rule decode_branch(4)) (simp_all add: decode_logical_imm_def build_bits, auto?)

lemma decode_AddSubImm:
  "allocated (AddSubImm sf op s sh imm12 rn rd) \<Longrightarrow> decode (instruction_word (AddSubImm sf op s sh imm12 rn rd)) = Inr (AddSubImm sf op s sh imm12 rn rd)"
  by (rule decode_branch(5)) (simp_all add: build_bits, auto?)

lemma decode_AddSubCarry:
  "allocated (AddSubCarry sf op s rm rn rd) \<Longrightarrow> decode (instruction_word (AddSubCarry sf op s rm rn rd)) = Inr (AddSubCarry sf op s rm rn rd)"
  by (rule decode_branch(6)) (simp_all add: decode_add_sub_carry_def build_bits, auto?)

lemma decode_MoveWide:
  "allocated (MoveWide sf opc hw imm16 rd) \<Longrightarrow> decode (instruction_word (MoveWide sf opc hw imm16 rd)) = Inr (MoveWide sf opc hw imm16 rd)"
  by (rule decode_branch(7)) (simp_all add: decode_move_wide_def build_bits, auto?)

lemma decode_BitfieldMove:
  "allocated (BitfieldMove sf opc immr imms rn rd) \<Longrightarrow> decode (instruction_word (BitfieldMove sf opc immr imms rn rd)) = Inr (BitfieldMove sf opc immr imms rn rd)"
  by (rule decode_branch(8)) (simp_all add: decode_bitfield_move_def build_bits, auto?)

lemma decode_CondBranch:
  "allocated (CondBranch imm19 cond) \<Longrightarrow> decode (instruction_word (CondBranch imm19 cond)) = Inr (CondBranch imm19 cond)"
  by (rule decode_branch(9)) (simp_all add: decode_cond_branch_def bits_u32 bit_u32 build_bits, auto?)

lemma decode_UncondBranch:
  "allocated (UncondBranch link imm26) \<Longrightarrow> decode (instruction_word (UncondBranch link imm26)) = Inr (UncondBranch link imm26)"
  by (rule decode_branch(10)) (simp_all add: bits_u32 bit_u32 build_bits, auto?)

lemma decode_BranchReg:
  "allocated (BranchReg opc rn) \<Longrightarrow> decode (instruction_word (BranchReg opc rn)) = Inr (BranchReg opc rn)"
  by (rule decode_branch(11)) (simp_all add: decode_branch_reg_def build_bits, auto?)

lemma decode_TestBranch:
  "allocated (TestBranch nz pos imm14 rt) \<Longrightarrow> decode (instruction_word (TestBranch nz pos imm14 rt)) = Inr (TestBranch nz pos imm14 rt)"
  by (rule decode_branch(13)) (simp_all add: layout_bits)

lemma decode_CompareBranch:
  "allocated (CompareBranch sf nz imm19 rt) \<Longrightarrow> decode (instruction_word (CompareBranch sf nz imm19 rt)) = Inr (CompareBranch sf nz imm19 rt)"
  by (rule decode_branch(12)) (simp_all add: bits_u32 bit_u32 build_bits, auto?)

lemma decode_DataProcessing2Source:
  "allocated (DataProcessing2Source sf opcode rm rn rd) \<Longrightarrow> decode (instruction_word (DataProcessing2Source sf opcode rm rn rd)) = Inr (DataProcessing2Source sf opcode rm rn rd)"
  unfolding form_cases
  by (elim conjE disjE; (hypsubst+)?; rule decode_branch(15)) (simp_all add: decode_data_processing_2_source_def build_bits, auto?)

lemma decode_DataProcessing3Source:
  "allocated (DataProcessing3Source sf op31 o0 rm ra rn rd) \<Longrightarrow> decode (instruction_word (DataProcessing3Source sf op31 o0 rm ra rn rd)) = Inr (DataProcessing3Source sf op31 o0 rm ra rn rd)"
  unfolding form_cases
  by (elim conjE disjE; (hypsubst+)?; rule decode_branch(16)) (simp_all add: decode_data_processing_3_source_def build_bits, auto?)

lemma decode_ConditionalSelect:
  "allocated (ConditionalSelect sf op o2 rm cond rn rd) \<Longrightarrow> decode (instruction_word (ConditionalSelect sf op o2 rm cond rn rd)) = Inr (ConditionalSelect sf op o2 rm cond rn rd)"
  by (rule decode_branch(17)) (simp_all add: decode_conditional_select_def build_bits, auto?)

lemma decode_LoadStoreUnsignedImm:
  "allocated (LoadStoreUnsignedImm sz v opc imm12 rn rt) \<Longrightarrow> decode (instruction_word (LoadStoreUnsignedImm sz v opc imm12 rn rt)) = Inr (LoadStoreUnsignedImm sz v opc imm12 rn rt)"
  by (rule decode_branch(29)) (simp_all add: build_bits, auto?)

lemma decode_LoadStoreRegister:
  "allocated (LoadStoreRegister sz v opc rm option shift rn rt) \<Longrightarrow> decode (instruction_word (LoadStoreRegister sz v opc rm option shift rn rt)) = Inr (LoadStoreRegister sz v opc rm option shift rn rt)"
  by (rule decode_branch(30)) (simp_all add: decode_load_store_register_def and_2_zero build_bits, auto?)

lemma decode_LoadLiteral:
  "allocated (LoadLiteral opc v imm19 rt) \<Longrightarrow> decode (instruction_word (LoadLiteral opc v imm19 rt)) = Inr (LoadLiteral opc v imm19 rt)"
  by (rule decode_branch(14)) (simp_all add: decode_load_literal_def bits_u32 bit_u32 build_bits, auto?)

lemma decode_LoadStorePair:
  "allocated (LoadStorePair opc v load mode imm7 rt2 rn rt) \<Longrightarrow> decode (instruction_word (LoadStorePair opc v load mode imm7 rt2 rn rt)) = Inr (LoadStorePair opc v load mode imm7 rt2 rn rt)"
  by (cases mode; rule decode_branch(32)) (simp_all add: decode_load_store_pair_def build_bits, auto?)

lemma decode_LoadStoreAcquireRelease:
  "allocated (LoadStoreAcquireRelease sz load rn rt) \<Longrightarrow> decode (instruction_word (LoadStoreAcquireRelease sz load rn rt)) = Inr (LoadStoreAcquireRelease sz load rn rt)"
  by (cases load; rule decode_branch(27)) (simp_all add: decode_load_store_acquire_release_def build_bits, auto?)

lemma decode_LoadStoreExclusiveAcquireRelease:
  "allocated (LoadStoreExclusiveAcquireRelease sz load rs rn rt) \<Longrightarrow> decode (instruction_word (LoadStoreExclusiveAcquireRelease sz load rs rn rt)) = Inr (LoadStoreExclusiveAcquireRelease sz load rs rn rt)"
  unfolding form_cases
  by (cases load; simp only: if_True if_False; elim conjE disjE; (hypsubst+)?; rule decode_branch(27)) (simp_all add: decode_load_store_acquire_release_def build_bits, auto?)

lemma decode_CompareAndSwap:
  "allocated (CompareAndSwap sz acquire release rs rn rt) \<Longrightarrow> decode (instruction_word (CompareAndSwap sz acquire release rs rn rt)) = Inr (CompareAndSwap sz acquire release rs rn rt)"
  by (rule decode_branch(27)) (simp_all add: decode_load_store_acquire_release_def build_bits, auto?)

lemma decode_LseAtomicRmw:
  "allocated (LseAtomicRmw sz acquire release op rs rn rt) \<Longrightarrow> decode (instruction_word (LseAtomicRmw sz acquire release op rs rn rt)) = Inr (LseAtomicRmw sz acquire release op rs rn rt)"
  by (cases op; rule decode_branch(28)) (simp_all add: decode_lse_atomic_rmw_def build_bits, auto?)

lemma decode_FpArith:
  "allocated (FpArith ftype opcode rm rn rd) \<Longrightarrow> decode (instruction_word (FpArith ftype opcode rm rn rd)) = Inr (FpArith ftype opcode rm rn rd)"
  unfolding form_cases less_4_cases[of opcode]
  by (elim conjE disjE; (hypsubst+)?; rule decode_branch(18)) (simp_all add: fp_scalar_defs build_bits, auto?)

lemma decode_FpCompare:
  "allocated (FpCompare ftype rm rn opc) \<Longrightarrow> decode (instruction_word (FpCompare ftype rm rn opc)) = Inr (FpCompare ftype rm rn opc)"
  unfolding form_cases
  by (elim conjE disjE; (hypsubst+)?; rule decode_branch(18)) (simp_all add: fp_scalar_defs build_bits, auto?)

lemma decode_FpIntConversion:
  "allocated (FpIntConversion sf64 ftype rmode opcode rn rd) \<Longrightarrow> decode (instruction_word (FpIntConversion sf64 ftype rmode opcode rn rd)) = Inr (FpIntConversion sf64 ftype rmode opcode rn rd)"
  unfolding form_cases less_4_cases[of ftype]
  by (elim conjE disjE; (hypsubst+)?; rule decode_fp_scalar_int) (simp_all add: decode_fp_int_conversion_def build_bits, auto?)

lemma decode_FpUnary:
  "allocated (FpUnary ftype opcode rn rd) \<Longrightarrow> decode (instruction_word (FpUnary ftype opcode rn rd)) = Inr (FpUnary ftype opcode rn rd)"
  unfolding form_cases less_4_cases[of opcode]
  by (elim conjE disjE; (hypsubst+)?; rule decode_branch(18)) (simp_all add: fp_scalar_defs build_bits, auto?)

lemma decode_FpPrecisionConvert:
  "allocated (FpPrecisionConvert src dst rn rd) \<Longrightarrow> decode (instruction_word (FpPrecisionConvert src dst rn rd)) = Inr (FpPrecisionConvert src dst rn rd)"
  unfolding form_cases less_4_cases[of dst]
  by (elim conjE disjE; (hypsubst+)?; rule decode_branch(18)) (simp_all add: fp_scalar_defs build_bits, auto?)

lemma decode_FpImmediate:
  "allocated (FpImmediate ftype imm8 rd) \<Longrightarrow> decode (instruction_word (FpImmediate ftype imm8 rd)) = Inr (FpImmediate ftype imm8 rd)"
  by (rule decode_branch(18)) (simp_all add: fp_scalar_defs build_bits, auto?)

lemma decode_SystemBarrier:
  "allocated (SystemBarrier kind crm) \<Longrightarrow> decode (instruction_word (SystemBarrier kind crm)) = Inr (SystemBarrier kind crm)"
  by (cases kind; rule decode_branch(19)) (simp_all add: decode_system_def build_bits, auto?)

lemma decode_SystemRegisterRead:
  "allocated (SystemRegisterRead sysreg rt) \<Longrightarrow> decode (instruction_word (SystemRegisterRead sysreg rt)) = Inr (SystemRegisterRead sysreg rt)"
  by (rule decode_branch(20)) (simp_all add: decode_system_def layout_bits)

lemma decode_NeonIntVec3Same:
  "allocated (NeonIntVec3Same q u sz opcode rm rn rd) \<Longrightarrow> decode (instruction_word (NeonIntVec3Same q u sz opcode rm rn rd)) = Inr (NeonIntVec3Same q u sz opcode rm rn rd)"
  unfolding form_cases
  by (elim conjE disjE; (hypsubst+)?; rule decode_three_same) (simp_all add: build_bits, auto?)

lemma decode_NeonVecLogic:
  "allocated (NeonVecLogic q u sz rm rn rd) \<Longrightarrow> decode (instruction_word (NeonVecLogic q u sz rm rn rd)) = Inr (NeonVecLogic q u sz rm rn rd)"
  unfolding form_cases
  by (elim conjE disjE; (hypsubst+)?; rule decode_three_same) (simp_all add: build_bits, auto?)

lemma decode_NeonFpVec3Same:
  "allocated (NeonFpVec3Same q u bit23 sz opcode rm rn rd) \<Longrightarrow> decode (instruction_word (NeonFpVec3Same q u bit23 sz opcode rm rn rd)) = Inr (NeonFpVec3Same q u bit23 sz opcode rm rn rd)"
  unfolding form_cases
  by (elim conjE disjE; (hypsubst+)?; rule decode_three_same) (simp_all add: build_bits, auto?)

lemma decode_NeonVecNot:
  "allocated (NeonVecNot q rn rd) \<Longrightarrow> decode (instruction_word (NeonVecNot q rn rd)) = Inr (NeonVecNot q rn rd)"
  by (rule decode_branch(21)) (simp_all add: decode_neon_three_same_def build_bits, auto?)

lemma decode_NeonAcrossLanes:
  "allocated (NeonAcrossLanes q u sz opcode rn rd) \<Longrightarrow> decode (instruction_word (NeonAcrossLanes q u sz opcode rn rd)) = Inr (NeonAcrossLanes q u sz opcode rn rd)"
  by (rule decode_branch(21)) (simp_all add: decode_neon_three_same_def build_bits, auto?)

lemma decode_NeonDupElement:
  "allocated (NeonDupElement q elem lane rn rd) \<Longrightarrow> decode (instruction_word (NeonDupElement q elem lane rn rd)) = Inr (NeonDupElement q elem lane rn rd)"
  by (rule decode_branch(23)) (simp_all add: decode_neon_dup_element_def lane_bits build_bits, auto?)

lemma decode_NeonDupGeneral:
  "allocated (NeonDupGeneral q elem rn rd) \<Longrightarrow> decode (instruction_word (NeonDupGeneral q elem rn rd)) = Inr (NeonDupGeneral q elem rn rd)"
  by (rule decode_branch(24)) (simp_all add: decode_neon_dup_general_def lane_bits build_bits, auto?)

lemma decode_NeonInsGeneral:
  "allocated (NeonInsGeneral elem lane rn rd) \<Longrightarrow> decode (instruction_word (NeonInsGeneral elem lane rn rd)) = Inr (NeonInsGeneral elem lane rn rd)"
  by (rule decode_branch(25)) (simp_all add: decode_neon_dup_general_def lane_bits build_bits, auto?)

lemma decode_NeonMoviByte:
  "allocated (NeonMoviByte q imm8 rd) \<Longrightarrow> decode (instruction_word (NeonMoviByte q imm8 rd)) = Inr (NeonMoviByte q imm8 rd)"
  by (rule decode_branch(22)) (simp_all add: decode_neon_modified_immediate_def layout_bits)

lemma decode_NeonLdStSinglePostImm:
  "allocated (NeonLdStSinglePostImm q load sz rn rt) \<Longrightarrow> decode (instruction_word (NeonLdStSinglePostImm q load sz rn rt)) = Inr (NeonLdStSinglePostImm q load sz rn rt)"
  by (rule decode_branch(26)) (simp_all add: decode_neon_ldst_single_post_imm_def build_bits, auto?)

lemma signed_masked_int:
  assumes "- (2 ^ n) \<le> i" "i < 2 ^ n" "n < 32"
  shows "signed_take_bit n (uint (word_of_int i AND mask (Suc n) :: u32)) = i"
proof -
  have "uint (word_of_int i AND mask (Suc n) :: u32) = take_bit (Suc n) i"
    using assms(3) by (simp add: take_bit_eq_mask[symmetric] unsigned_take_bit_eq uint_word_of_int_eq min_def)
  then show ?thesis using assms(1,2) by (simp add: signed_take_bit_take_bit signed_take_bit_int_eq_self)
qed

lemma masked_less: "n < 32 \<Longrightarrow> v AND mask n < (2 ^ n :: u32)"
  using less_power_bits[of n "v AND mask n"] by (simp add: bit_simps)

lemmas signed_imm9 = signed_masked_int[where n = 8, simplified mask_eq_exp_minus_1, simplified]
lemmas signed_imm21 = signed_masked_int[where n = 20, simplified mask_eq_exp_minus_1, simplified]
lemmas masked_imm9 = masked_less[where n = 9, simplified mask_eq_exp_minus_1, simplified]

lemma decode_LoadStoreUnscaled:
  assumes "allocated (LoadStoreUnscaled sz v opc imm9 rn rt)"
  shows "decode (instruction_word (LoadStoreUnscaled sz v opc imm9 rn rt)) = Inr (LoadStoreUnscaled sz v opc imm9 rn rt)"
proof -
  define f where "f = (word_of_int imm9 :: u32) AND 0x1FF"
  have f: "f < 2 ^ 9" unfolding f_def by (simp add: masked_imm9)
  have "as_i16 (sign_extend_field f 9) = imm9" using assms signed_imm9[of imm9] by (simp add: f_def signed_9)
  with assms show ?thesis
    by (intro decode_branch(31)) (simp_all add: decode_unscaled_or_indexed_def f_def[symmetric] bits_fits[OF f] bit_fits[OF f] build_bits, auto?)
qed

lemma decode_LoadStoreIndexed:
  assumes "allocated (LoadStoreIndexed sz v opc imm9 mode rn rt)"
  shows "decode (instruction_word (LoadStoreIndexed sz v opc imm9 mode rn rt)) = Inr (LoadStoreIndexed sz v opc imm9 mode rn rt)"
proof -
  define f where "f = (word_of_int imm9 :: u32) AND 0x1FF"
  have f: "f < 2 ^ 9" unfolding f_def by (simp add: masked_imm9)
  have "as_i16 (sign_extend_field f 9) = imm9" using assms signed_imm9[of imm9] by (simp add: f_def signed_9)
  with assms show ?thesis
    by (cases mode; intro decode_branch(31)) (simp_all add: decode_unscaled_or_indexed_def f_def[symmetric] bits_fits[OF f] bit_fits[OF f] build_bits, auto?)
qed

lemma decode_PcRelAddress:
  assumes "allocated (PcRelAddress page imm21 rd)"
  shows "decode (instruction_word (PcRelAddress page imm21 rd)) = Inr (PcRelAddress page imm21 rd)"
proof -
  let ?w = "instruction_word (PcRelAddress page imm21 rd)"
  have "bits ?w 29 2 OR push_bit 2 (bits ?w 5 19) = word_of_int imm21 AND 0x1FFFFF"
    using assms by (simp add: layout_bits)
  then have "sign_extend_field (bits ?w 29 2 OR push_bit 2 (bits ?w 5 19)) 21 = imm21"
    using assms signed_imm21[of imm21] by (simp only: signed_21) simp
  moreover have "bits ?w 24 5 = 0b10000" "bit_at ?w 31 = page" "as_u8 (bits ?w 0 5) = rd"
    using assms by (simp_all add: layout_bits)
  ultimately show ?thesis by (intro decode_branch(1)) simp_all
qed

lemma decode_constants:
  "decode (instruction_word Nop) = Inr Nop" "decode (instruction_word (Brk 1)) = Inr (Brk 1)"
  by (simp_all add: decode_def AARCH64_NOP_def AARCH64_BRK_1_def encode_nop_def encode_brk_def bits_def as_u16_def)

lemma decode_dup_general_lane:
  assumes "allocated (NeonDupGeneral q elem rn rd)"
    and w: "w AND NOT (ignored_bits (NeonDupGeneral q elem rn rd)) = instruction_word (NeonDupGeneral q elem rn rd)"
  shows "decode w = Inr (NeonDupGeneral q elem rn rd)"
proof (rule decode_branch(24))
  show "decode_neon_dup_general w = Inr (NeonDupGeneral q elem rn rd)"
    using assms by (cases elem)
      (simp_all add: decode_neon_dup_general_def decode_neon_element_imm5_def trailing_zeros8 ignored_bits_def bit_lane_imm5 layout_bits)
qed (use assms in \<open>cases elem; simp add: ignored_bits_def bit_lane_imm5 layout_bits\<close>)+

end
