(* ===== verification/A64_Roundtrip.thy ===== *)
theory A64_Roundtrip
  imports A64_Build
begin

text \<open>
  The decoder is exact: it returns a form just when the form is allocated and the word is its
  layout. The encoders of the code generator therefore round-trip: what they assemble is read back
  with the fields they were given.
\<close>

section \<open>Every word the decoder accepts\<close>

lemma reads_ifI: "\<lbrakk>b \<Longrightarrow> reads w r; \<not> b \<Longrightarrow> reads w s\<rbrakk> \<Longrightarrow> reads w (if b then r else s)"
  by simp

lemma reads_constants:
  "w = AARCH64_NOP \<Longrightarrow> reads w (Inr Nop)"
  "w = AARCH64_BRK_1 \<Longrightarrow> reads w (Inr (Brk (as_u16 (bits w 5 16))))"
  by (simp_all add: AARCH64_NOP_def AARCH64_BRK_1_def reads_bits)

lemma reads_tail:
  "reads w (case (if bits w 27 3 = 0b111 \<and> bits w 24 2 = 0 \<and> \<not> bit_at w 21 then decode_unscaled_or_indexed w else None) of
      Some result \<Rightarrow> result
    | None \<Rightarrow> if bits w 27 3 = 0b101 \<and> \<not> bit_at w 25 then decode_load_store_pair w else Inl (Unsupported w))"
proof (cases "bits w 27 3 = 0b111 \<and> bits w 24 2 = 0 \<and> \<not> bit_at w 21")
  case True
  then have "pred_option (reads w) (decode_unscaled_or_indexed w)" using reads_unscaled_or_indexed by blast
  then show ?thesis using True reads_load_store_pair[of w]
    by (cases "decode_unscaled_or_indexed w") (simp_all only: if_True option.case pred_option_def, simp_all add: reads_simps)
next
  case False
  then show ?thesis unfolding if_not_P[OF False] option.case using reads_load_store_pair[of w] by (simp add: reads_simps)
qed

lemma reads_decode: "reads w (decode w)"
  unfolding decode_def Let_def
  apply (rule reads_ifI, erule reads_constants(1))
  apply (rule reads_ifI, erule reads_constants(2))
  apply (rule reads_ifI, erule reads_pc_rel_address)
  apply (rule reads_ifI, elim conjE, erule (1) reads_add_sub_shifted_reg)
  apply (rule reads_ifI, erule reads_logical_shifted_reg)
  apply (rule reads_ifI, erule reads_logical_imm)
  apply (rule reads_ifI, erule reads_add_sub_imm)
  apply (rule reads_ifI, elim conjE, erule (1) reads_add_sub_carry)
  apply (rule reads_ifI, erule reads_move_wide)
  apply (rule reads_ifI, erule reads_bitfield_move)
  apply (rule reads_ifI, erule reads_cond_branch)
  apply (rule reads_ifI, erule reads_uncond_branch)
  apply (rule reads_ifI, elim conjE, erule (3) reads_branch_reg)
  apply (rule reads_ifI, erule reads_compare_branch)
  apply (rule reads_ifI, erule reads_test_branch)
  apply (rule reads_ifI, erule reads_load_literal)
  apply (rule reads_ifI, erule reads_data_processing_2_source)
  apply (rule reads_ifI, elim conjE, erule (1) reads_data_processing_3_source)
  apply (rule reads_ifI, erule reads_conditional_select)
  apply (rule reads_ifI, elim conjE, erule (2) reads_fp_scalar)
  apply (rule reads_ifI, erule reads_system)
  apply (rule reads_ifI, elim conjE, erule (2) reads_neon_three_same)
  apply (rule reads_ifI, elim conjE, erule (1) reads_neon_modified_immediate)
  apply (rule reads_ifI, elim conjE, erule (2) reads_neon_dup_element)
  apply (rule reads_ifI, elim conjE, erule (2) reads_neon_dup_general)
  apply (rule reads_ifI, elim conjE, erule (1) reads_neon_ldst_single_post_imm)
  apply (rule reads_ifI, erule reads_load_store_acquire_release)
  apply (rule reads_ifI, elim conjE, erule (2) reads_lse_atomic_rmw)
  apply (rule reads_ifI, elim conjE, erule (1) reads_load_store_unsigned)
  apply (rule reads_ifI, elim conjE, erule (3) reads_load_store_register)
  apply (rule reads_tail)
  done

section \<open>The decoder is exact\<close>

lemma decode_instruction_word: "allocated i \<Longrightarrow> decode (instruction_word i) = Inr i"
  by (cases i; hypsubst)
    (erule decode_AddSubShiftedReg decode_LogicalShiftedReg decode_LogicalImm decode_AddSubImm decode_AddSubCarry decode_MoveWide
      decode_BitfieldMove decode_PcRelAddress decode_CondBranch decode_UncondBranch decode_BranchReg decode_TestBranch
      decode_LoadStoreUnsignedImm decode_LoadStoreUnscaled decode_LoadStoreIndexed decode_LoadStoreRegister decode_LoadLiteral
      decode_LoadStorePair decode_LoadStoreAcquireRelease decode_LoadStoreExclusiveAcquireRelease decode_CompareAndSwap
      decode_LseAtomicRmw decode_CompareBranch decode_DataProcessing2Source decode_DataProcessing3Source decode_ConditionalSelect
      decode_FpArith decode_FpCompare decode_FpIntConversion decode_FpUnary decode_FpPrecisionConvert decode_FpImmediate
      decode_SystemBarrier decode_SystemRegisterRead decode_NeonIntVec3Same decode_NeonVecLogic decode_NeonFpVec3Same
      decode_NeonVecNot decode_NeonAcrossLanes decode_NeonDupElement decode_NeonDupGeneral decode_NeonInsGeneral
      decode_NeonMoviByte decode_NeonLdStSinglePostImm | simp only: allocated.simps decode_constants)+

lemma ignored_bits_none: "(\<And>q elem rn rd. i \<noteq> NeonDupGeneral q elem rn rd) \<Longrightarrow> ignored_bits i = 0"
  by (cases i) (blast | simp add: ignored_bits_def)+

lemma decode_iff: "decode w = Inr i \<longleftrightarrow> allocated i \<and> w AND NOT (ignored_bits i) = instruction_word i" (is "?l \<longleftrightarrow> ?r")
proof
  assume ?l
  then show ?r using reads_decode[of w] by (simp add: reads_simps)
next
  assume r: ?r
  show ?l
  proof (cases "\<exists>q elem rn rd. i = NeonDupGeneral q elem rn rd")
    case True
    then show ?thesis using r decode_dup_general_lane by blast
  next
    case False
    then have "ignored_bits i = 0" by (intro ignored_bits_none) blast
    then have "w = instruction_word i" using r by simp
    then show ?thesis using r decode_instruction_word by simp
  qed
qed
text \<open>C4. The decoder is exact: it reads a word as an instruction just when the instruction is allocated and the word, up to
  the bits the instruction leaves open, is its layout. So every allocated instruction survives the round trip through
  its word, no unallocated or constrained unpredictable field combination is accepted, and no word is read as the
  wrong instruction.\<close>

theorem decode_exact: "decode w = Inr i \<longleftrightarrow> allocated i \<and> w AND NOT (ignored_bits i) = instruction_word i"
  by (rule decode_iff)

end
