(* ===== verification/A64_Encoders.thy ===== *)
theory A64_Encoders
  imports A64_Roundtrip
begin

text \<open>
  The fallible encoders against the decoder: an encoder returns a word just when the decoder reads
  that word back as the form with the encoder's operands, apart from the operands the decoder
  refuses as unallocated or constrained unpredictable.
\<close>

section \<open>What an encoder returns\<close>

lemma check_reg_Inr [simp]: "check_reg r 31 = Inr u \<longleftrightarrow> r < 32"
  by (auto simp: check_reg_def u8_greater)

lemma fp_check_reg_Inr [simp]: "fp_check_reg r 31 = Inr u \<longleftrightarrow> r < 32"
  by (auto simp: fp_check_reg_def u8_greater)

lemma neon_check_reg_Inr [simp]: "neon_check_reg r = Inr u \<longleftrightarrow> r < 32"
  by (auto simp: neon_check_reg_def u8_greater)

lemma check_imm12_Inr [simp]: "check_imm12 v = Inr u \<longleftrightarrow> v < 4096"
  by (auto simp: check_imm12_def word_less_nat_alt)

lemma check_imm_Inr [simp]:
  "check_imm9 i = Inr u \<longleftrightarrow> - 256 \<le> i \<and> i < 256"
  "check_imm7 i = Inr u \<longleftrightarrow> - 64 \<le> i \<and> i < 64"
  "check_imm21 i = Inr u \<longleftrightarrow> - 1048576 \<le> i \<and> i < 1048576"
  by (auto simp: check_imm9_def check_imm7_def check_imm21_def)

lemma if_Inl_Inr: "(if b then Inl e else r) = Inr w \<longleftrightarrow> \<not> b \<and> r = Inr w"
  by simp

lemma size_field_u8 [simp]: "ucast (as_u8 (size_field sz)) = size_field sz"
  by (cases sz) (simp_all add: as_u8_def)

lemma ls_op_field_u8 [simp]: "ucast (as_u8 (ls_op_field op)) = ls_op_field op"
  by (cases op) (simp_all add: as_u8_def)

lemma extend_field_u8 [simp]: "ucast (as_u8 (extend_field ext)) = extend_field ext"
  by (cases ext) (simp_all add: as_u8_def)

lemma pair_size_field_u8 [simp]: "ucast (as_u8 (pair_size_field sz)) = pair_size_field sz"
  by (cases sz) (simp_all add: as_u8_def)

lemma fp_size_field_u8 [simp]: "ucast (as_u8 (fp_size_field sz)) = fp_size_field sz"
  by (cases sz) (simp_all add: as_u8_def)

lemma fp_arith_field_u8 [simp]: "ucast (as_u8 (fp_arith_field op)) = fp_arith_field op"
  by (cases op) (simp_all add: as_u8_def)

lemma fp_cmp_field_u8 [simp]: "ucast (as_u8 (fp_cmp_field op)) = fp_cmp_field op"
  by (cases op) (simp_all add: as_u8_def)

lemma fp_unary_field_u8 [simp]: "ucast (as_u8 (fp_unary_field op)) = fp_unary_field op"
  by (cases op) (simp_all add: as_u8_def)

lemmas roundtrip_defs = decode_iff ignored_bits_def rbind_eq_Inr as_u8_def

section \<open>Loads and stores\<close>

lemmas encode_mem_defs =
  encode_ldr_str_unsigned_offset_def encode_ldr_str_pre_index_def encode_ldr_str_post_index_def encode_ldr_str_register_def
  encode_ldr_str_register_fields_def encode_ldp_stp_def encode_adrp_def encode_adr_def

text \<open>C12. A load or store with a scaled unsigned offset: \<open>encode_ldr_str_unsigned_offset\<close> returns the word \<open>w\<close> just when
  the decoder reads \<open>w\<close> as that load or store with the same operands. In particular it fails just when a
  register number is above 31 or the immediate above 4095.\<close>

theorem ldr_str_unsigned_offset_roundtrip:
  "encode_ldr_str_unsigned_offset sz v op imm12 rn rt = Inr w \<longleftrightarrow>
   decode w = Inr (LoadStoreUnsignedImm (as_u8 (size_field sz)) v (as_u8 (ls_op_field op)) imm12 rn rt)"
  by (cases sz; cases op) (auto simp: decode_iff ignored_bits_def encode_mem_defs rbind_eq_Inr encode_load_store_ui_def scalar_allocated_def as_u8_def)

lemma imm9_u16: "ucast (word_of_int i AND 0x1FF :: u16) = (word_of_int i AND 0x1FF :: u32)"
  by (simp add: u32_bits bit_simps)

lemma indexed_word:
  "push_bit 30 a OR push_bit 27 0b111 OR push_bit 26 b OR push_bit 22 c OR push_bit 12 (word_of_int i AND 0x1FF) OR push_bit 10 m
    OR push_bit 5 f OR g = encode_load_store_unscaled a b c i f g OR push_bit 10 m"
  by (simp only: encode_load_store_unscaled_def Let_def or.assoc or.commute or.left_commute)

lemma ldr_str_indexed_word:
  "encode_ldr_str_pre_index sz v op imm9 rn rt = Inr w \<longleftrightarrow> rn < 32 \<and> rt < 32 \<and> - 256 \<le> imm9 \<and> imm9 < 256
     \<and> w = instruction_word (LoadStoreIndexed (as_u8 (size_field sz)) v (as_u8 (ls_op_field op)) imm9 IxPreIndex rn rt)"
  "encode_ldr_str_post_index sz v op imm9 rn rt = Inr w \<longleftrightarrow> rn < 32 \<and> rt < 32 \<and> - 256 \<le> imm9 \<and> imm9 < 256
     \<and> w = instruction_word (LoadStoreIndexed (as_u8 (size_field sz)) v (as_u8 (ls_op_field op)) imm9 IxPostIndex rn rt)"
  unfolding encode_mem_defs rbind_eq_Inr imm9_u16 Let_def indexed_word sum.inject instruction_word.simps
  by auto

text \<open>C13. The pre- and post-indexed forms: the encoder's word is read back with the signed 9-bit offset and the
  index mode it was given, except that the decoder refuses, and the encoders do not, a general register that is
  its own written-back base.\<close>

theorem ldr_str_indexed_roundtrip:
  "(encode_ldr_str_pre_index sz v op imm9 rn rt = Inr w \<and> \<not> (\<not> v \<and> rn \<noteq> 31 \<and> rt = rn) \<longleftrightarrow>
    decode w = Inr (LoadStoreIndexed (as_u8 (size_field sz)) v (as_u8 (ls_op_field op)) imm9 IxPreIndex rn rt))
   \<and> (encode_ldr_str_post_index sz v op imm9 rn rt = Inr w \<and> \<not> (\<not> v \<and> rn \<noteq> 31 \<and> rt = rn) \<longleftrightarrow>
    decode w = Inr (LoadStoreIndexed (as_u8 (size_field sz)) v (as_u8 (ls_op_field op)) imm9 IxPostIndex rn rt))"
  unfolding ldr_str_indexed_word decode_iff
  by (cases sz; cases op; auto simp: ignored_bits_def scalar_allocated_def as_u8_def simp del: instruction_word.simps)

lemma ldr_str_register_reads:
  "encode_ldr_str_register sz v op rm extend shift rn rt = Inr w \<longleftrightarrow>
   decode w = Inr (LoadStoreRegister (as_u8 (size_field sz)) v (as_u8 (ls_op_field op)) rm (as_u8 (extend_field extend)) shift rn rt)"
  by (cases sz; cases op; cases extend; auto simp: decode_iff ignored_bits_def encode_mem_defs rbind_eq_Inr scalar_allocated_def as_u8_def bit_simps)

lemma ldrsw_register_reads: "encode_ldrsw_register rm rn rt = Inr w \<longleftrightarrow> decode w = Inr (LoadStoreRegister 2 False 2 rm 3 True rn rt)"
  by (auto simp: roundtrip_defs encode_ldrsw_register_def scalar_allocated_def bit_simps)

text \<open>C14. The register-offset forms are read back with the extension and the shift they were given; the load of a
  sign-extended word with a scaled register is the same form with its fields fixed.\<close>

theorem ldr_str_register_roundtrip:
  "(encode_ldr_str_register sz v op rm extend shift rn rt = Inr w \<longleftrightarrow>
    decode w = Inr (LoadStoreRegister (as_u8 (size_field sz)) v (as_u8 (ls_op_field op)) rm (as_u8 (extend_field extend)) shift rn rt))
   \<and> (encode_ldrsw_register rm rn rt = Inr w \<longleftrightarrow> decode w = Inr (LoadStoreRegister 2 False 2 rm 3 True rn rt))"
  by (intro conjI ldr_str_register_reads ldrsw_register_reads)

lemma imm7_u8: "word_of_int i AND 0x7F < (128 :: u8)"
  by (simp add: u8_less bit_simps)

primrec decoded_mode :: "pair_mode \<Rightarrow> load_store_pair_address_mode" where
  "decoded_mode ModePostIndex = PairPostIndex"
| "decoded_mode ModeSignedOffset = PairSignedOffset"
| "decoded_mode ModePreIndex = PairPreIndex"

text \<open>C15. Load and store pairs: the word \<open>encode_ldp_stp\<close> returns is read back as the pair with the same registers,
  mode and 7-bit offset, unless it is a store of sign-extended words (which does not exist), a load of one
  register twice, or a write-back to a transferred general register; these the decoder refuses.\<close>

theorem ldp_stp_roundtrip:
  "encode_ldp_stp psz v op mode imm7 rt2 rn rt = Inr w \<and> \<not> (psz = PairD64 \<and> \<not> v \<and> op = StorePair)
     \<and> \<not> (op = LoadPair \<and> rt = rt2) \<and> \<not> (\<not> v \<and> mode \<noteq> ModeSignedOffset \<and> rn \<noteq> 31 \<and> (rt = rn \<or> rt2 = rn)) \<longleftrightarrow>
   decode w = Inr (LoadStorePair (as_u8 (pair_size_field psz)) v (op = LoadPair) (decoded_mode mode) (word_of_int imm7 AND 0x7F) rt2 rn rt)
     \<and> - 64 \<le> imm7 \<and> imm7 < 64"
  by (cases psz; cases op; cases mode; auto simp: decode_iff ignored_bits_def encode_mem_defs rbind_eq_Inr as_u8_def imm7_u8 Let_def)

text \<open>C16. PC-relative addresses: the split of the signed 21-bit displacement into its low two and high nineteen bits
  is undone by the decoder, for \<open>ADR\<close> and for \<open>ADRP\<close>; out of range is an error.\<close>

theorem adr_adrp_roundtrip:
  "(encode_adr imm21 rd = Inr w \<longleftrightarrow> decode w = Inr (PcRelAddress False imm21 rd))
   \<and> (encode_adrp imm21 rd = Inr w \<longleftrightarrow> decode w = Inr (PcRelAddress True imm21 rd))"
  by (auto simp: decode_iff ignored_bits_def encode_mem_defs rbind_eq_Inr Let_def and.assoc)

section \<open>Scalar floating point\<close>

lemmas encode_fp_defs =
  encode_fp_arith_def encode_fcmp_def encode_fp_int_conv_def encode_fp_unary_def encode_fp_precision_cvt_def


lemma fp_int_conv_reads:
  "encode_fp_int_conv sf_64 sz conv rn rd = Inr w
     \<and> \<not> (conv \<in> {FmovToFp, FmovToGp} \<and> sz \<noteq> FpHalf \<and> sf_64 \<noteq> (sz = FpDouble)) \<longleftrightarrow>
   decode w = Inr (FpIntConversion sf_64 (as_u8 (fp_size_field sz)) (as_u8 (fst (rmode_opcode conv))) (as_u8 (snd (rmode_opcode conv))) rn rd)"
  by (cases sz; cases conv; auto simp: decode_iff ignored_bits_def encode_fp_defs rbind_eq_Inr as_u8_def)

lemma fcmp_reads:
  "encode_fcmp sz op rm rn = Inr w \<longleftrightarrow>
   decode w = Inr (FpCompare (as_u8 (fp_size_field sz)) (if op = FpCmpZero \<or> op = FpCmpeZero then 0 else rm) rn (as_u8 (fp_cmp_field op)))"
  by (cases sz; cases op; auto simp: decode_iff ignored_bits_def encode_fp_defs rbind_eq_Inr as_u8_def)


section \<open>Vectors\<close>

lemmas encode_neon_defs =
  encode_int_vec3_same_def encode_vec_logic_def encode_vec_not_def encode_umaxv_4s_def encode_fp_vec3_same_def
  encode_dup_element_def encode_dup_general_def encode_ins_general_def encode_movi_byte_def encode_ld1_post_imm_def
  encode_st1_post_imm_def encode_ldp_q_post_imm_def encode_stp_q_post_imm_def

lemma int_vec3_reads:
  "encode_int_vec3_same arr op rm rn rd = Inr w \<and> op \<in> {VAdd, VSub, VMul, VCmeq, VCmgt, VCmge} \<longleftrightarrow>
   decode w = Inr (NeonIntVec3Same (fst (q_size arr) = 1) (fst (u_opcode op) = 1) (as_u8 (snd (q_size arr))) (as_u8 (snd (u_opcode op))) rm rn rd)"
  by (cases arr; cases op; auto simp: decode_iff ignored_bits_def encode_neon_defs rbind_eq_Inr as_u8_def)

lemma vec_logic_reads:
  "encode_vec_logic (of_bool q) op rm rn rd = Inr w \<and> op \<noteq> VBit \<longleftrightarrow>
   decode w = Inr (NeonVecLogic q (fst (u_size op) = 1) (as_u8 (snd (u_size op))) rm rn rd)"
  by (cases op; auto simp: decode_iff ignored_bits_def encode_neon_defs rbind_eq_Inr as_u8_def)

lemma fp_vec3_reads:
  "encode_fp_vec3_same arr op rm rn rd = Inr w \<and> op \<in> {VFadd, VFsub, VFmul, VFdiv} \<longleftrightarrow>
   decode w = Inr (NeonFpVec3Same (fst (q_sz arr) = 1) (fst (u_bit23_opcode op) = 1) (fst (snd (u_bit23_opcode op)) = 1)
     (as_u8 (snd (q_sz arr))) (as_u8 (snd (snd (u_bit23_opcode op)))) rm rn rd)"
  by (cases arr; cases op; auto simp: decode_iff ignored_bits_def encode_neon_defs rbind_eq_Inr as_u8_def)

lemma vec_not_umaxv_reads:
  "encode_vec_not (of_bool q) rn rd = Inr w \<longleftrightarrow> decode w = Inr (NeonVecNot q rn rd)"
  "encode_umaxv_4s rn rd = Inr w \<longleftrightarrow> decode w = Inr (NeonAcrossLanes True True 2 10 rn rd)"
  by (auto simp: decode_iff ignored_bits_def encode_neon_defs rbind_eq_Inr)


lemma lane_imm5_limit: "31 < lane_imm5 (lane_of elem) lane \<longleftrightarrow> \<not> lane < lane_limit elem"
proof -
  have "lane_imm5 (lane_of elem) lane < 32 \<longleftrightarrow> lane < lane_limit elem"
    unfolding less_power_bits[of 5 "lane_imm5 (lane_of elem) lane", simplified] all_less_32
    by (cases elem) (simp_all add: bit_lane_imm5 u8_less high_bits)
  moreover have "31 < v \<longleftrightarrow> \<not> v < 32" for v :: u32 by (auto simp: word_less_nat_alt)
  ultimately show ?thesis by simp
qed

lemma lanes_read:
  "encode_dup_element (of_bool q) (lane_of elem) lane rn rd = Inr w \<and> \<not> (elem = ElemD \<and> \<not> q) \<longleftrightarrow>
   decode w = Inr (NeonDupElement q elem lane rn rd)"
  "encode_dup_general (of_bool q) (lane_of elem) rn rd = Inr (w AND NOT (ignored_bits (NeonDupGeneral q elem rn rd)))
     \<and> \<not> (elem = ElemD \<and> \<not> q) \<longleftrightarrow>
   decode w = Inr (NeonDupGeneral q elem rn rd)"
  "encode_ins_general (lane_of elem) lane rn rd = Inr w \<longleftrightarrow> decode w = Inr (NeonInsGeneral elem lane rn rd)"
    apply (auto simp: decode_iff ignored_bits_def encode_neon_defs rbind_eq_Inr Let_def lane_imm5_limit)[1]
   apply (cases elem; auto simp: decode_iff encode_neon_defs rbind_eq_Inr Let_def lane_imm5_def)[1]
  apply (auto simp: decode_iff ignored_bits_def encode_neon_defs rbind_eq_Inr Let_def lane_imm5_limit)[1]
  done


lemma movi_ld1_st1_read:
  "encode_movi_byte (of_bool q) imm8 rd = Inr w \<longleftrightarrow> decode w = Inr (NeonMoviByte q imm8 rd)"
  "encode_ld1_post_imm arr rn rt = Inr w \<longleftrightarrow>
     decode w = Inr (NeonLdStSinglePostImm (fst (q_size arr) = 1) True (as_u8 (snd (q_size arr))) rn rt)"
  "encode_st1_post_imm arr rn rt = Inr w \<longleftrightarrow>
     decode w = Inr (NeonLdStSinglePostImm (fst (q_size arr) = 1) False (as_u8 (snd (q_size arr))) rn rt)"
  by (auto simp: decode_iff ignored_bits_def encode_neon_defs rbind_eq_Inr Let_def)
    (cases arr; auto simp: as_u8_def)+

lemma sdiv_smod_16: "x smod 16 = 0 \<and> - 64 \<le> x sdiv 16 \<and> x sdiv 16 \<le> 63 \<longleftrightarrow> 16 dvd x \<and> - 1024 \<le> x \<and> x < (1024 :: int)"
  by (auto simp: signed_divide_int_def signed_modulo_int_def sgn_if abs_if)

lemma imm7_u8_u32: "ucast (word_of_int i AND 0x7F :: u8) = (word_of_int i AND 0x7F :: u32)"
  by (simp add: u32_bits bit_simps)

lemma q_pair_word:
  "0xACC00000 OR push_bit 15 (word_of_int i AND 0x7F) OR push_bit 10 (ucast rt2) OR push_bit 5 (ucast rn) OR ucast rt =
    instruction_word (LoadStorePair 2 True True PairPostIndex (word_of_int i AND 0x7F) rt2 rn rt)"
  "0xAC800000 OR push_bit 15 (word_of_int i AND 0x7F) OR push_bit 10 (ucast rt2) OR push_bit 5 (ucast rn) OR ucast rt =
    instruction_word (LoadStorePair 2 True False PairPostIndex (word_of_int i AND 0x7F) rt2 rn rt)"
  by (simp_all add: imm7_u8_u32 or.assoc[symmetric])

lemma ldp_stp_q_read:
  "(encode_ldp_q_post_imm offset rt2 rn rt = Inr w \<longleftrightarrow> 16 dvd offset \<and> - 1024 \<le> offset \<and> offset < 1024 \<and>
     decode w = Inr (LoadStorePair 2 True True PairPostIndex (word_of_int (offset sdiv 16) AND 0x7F) rt2 rn rt))
   \<and> (encode_stp_q_post_imm offset rt2 rn rt = Inr w \<longleftrightarrow> 16 dvd offset \<and> - 1024 \<le> offset \<and> offset < 1024 \<and>
     decode w = Inr (LoadStorePair 2 True False PairPostIndex (word_of_int (offset sdiv 16) AND 0x7F) rt2 rn rt))"
  unfolding encode_ldp_q_post_imm_def encode_stp_q_post_imm_def rbind_eq_Inr Let_def q_pair_word if_Inl_Inr decode_iff
  using sdiv_smod_16[of offset] by (auto simp: ignored_bits_def imm7_u8 simp del: instruction_word.simps)

text \<open>C21. Vector immediates and transfers: the split byte of \<open>MOVI\<close>, the arrangement of \<open>LD1\<close> and \<open>ST1\<close>, and the pairs of
  128-bit registers, whose byte offset is accepted just when it is a multiple of 16 in the range from -1024 to 1008.\<close>

theorem neon_transfer_roundtrip:
  "(encode_movi_byte (of_bool q) imm8 rd = Inr w \<longleftrightarrow> decode w = Inr (NeonMoviByte q imm8 rd))
   \<and> (encode_ld1_post_imm arr rn rt = Inr w \<longleftrightarrow>
     decode w = Inr (NeonLdStSinglePostImm (fst (q_size arr) = 1) True (as_u8 (snd (q_size arr))) rn rt))
   \<and> (encode_st1_post_imm arr rn rt = Inr w \<longleftrightarrow>
     decode w = Inr (NeonLdStSinglePostImm (fst (q_size arr) = 1) False (as_u8 (snd (q_size arr))) rn rt))
   \<and> (encode_ldp_q_post_imm offset rt2 rn rt = Inr w \<longleftrightarrow> 16 dvd offset \<and> - 1024 \<le> offset \<and> offset < 1024 \<and>
     decode w = Inr (LoadStorePair 2 True True PairPostIndex (word_of_int (offset sdiv 16) AND 0x7F) rt2 rn rt))
   \<and> (encode_stp_q_post_imm offset rt2 rn rt = Inr w \<longleftrightarrow> 16 dvd offset \<and> - 1024 \<le> offset \<and> offset < 1024 \<and>
     decode w = Inr (LoadStorePair 2 True False PairPostIndex (word_of_int (offset sdiv 16) AND 0x7F) rt2 rn rt))"
  by (intro conjI movi_ld1_st1_read ldp_stp_q_read)

section \<open>Formats the decoder does not know\<close>

lemma decode_unknown:
  "bits w 23 6 = 0b100111 \<Longrightarrow> decode w = Inl (Unsupported w)"
  "bits w 21 10 = 0b1011010110 \<Longrightarrow> decode w = Inl (Unsupported w)"
  "\<lbrakk>bits w 24 5 = 0b11111; bits w 29 3 = 0\<rbrakk> \<Longrightarrow> decode w = Inl (Unsupported w)"
  "\<lbrakk>\<not> bit_at w 31; bits w 21 9 = 0b001110000; bits w 10 6 = 0b001111\<rbrakk> \<Longrightarrow> decode w = Inl (Unsupported w)"
  by (simp_all add: decode_def AARCH64_NOP_def AARCH64_BRK_1_def word_bits)

lemma decode_unknown_fp:
  assumes "bits w 24 5 = 0b11110" "bits w 29 3 = 0" "bit_at w 21" "bits w 22 2 \<noteq> 2" "bits w 10 2 = 0b11"
  shows "decode w = Inl (Unsupported w)"
proof (rule decode_branch(18))
  have "bits w 10 3 \<noteq> 4" "bits w 10 6 \<noteq> 0" "bits w 10 2 \<noteq> 2" "bits w 10 6 \<noteq> 8" "bits w 10 5 \<noteq> 16" "as_u8 (bits w 22 2) \<noteq> 2" "\<not> bit_at w 31"
    using assms by (simp_all add: word_bits) 
  then show "decode_fp_scalar w = Inl (Unsupported w)" by (simp add: decode_fp_scalar_def validate_fp_ftype_def Let_def)
qed (use assms in \<open>simp_all add: word_bits\<close>)

lemma extract_refused:
  "\<lbrakk>sf < 2; n < 2; rm < 32; imms < 64; rn < 32; rd < 32\<rbrakk> \<Longrightarrow>
   decode (encode_extract sf n rm imms rn rd) = Inl (Unsupported (encode_extract sf n rm imms rn rd))"
  using bits_fits(1)[of n 1] bits_fits(1)[of rm 5] bits_fits(1)[of imms 6] bits_fits(1)[of rn 5] bits_fits(1)[of rd 5]
  by (intro decode_unknown(1)) (simp add: encode_extract_def bits_or bits_push bits_literal)

lemma bit_reverse_refused:
  "\<lbrakk>sf < 2; rn < 32; rd < 32\<rbrakk> \<Longrightarrow> decode (encode_bit_reverse sf rn rd) = Inl (Unsupported (encode_bit_reverse sf rn rd))"
  using bits_fits(1)[of rn 5] bits_fits(1)[of rd 5]
  by (intro decode_unknown(2)) (simp add: encode_bit_reverse_def bits_or bits_push bits_literal)

lemma fp_madd_refused: "encode_fp_madd sz op rm ra rn rd = Inr w \<Longrightarrow> decode w = Inl (Unsupported w)"
  by (cases sz; cases op; rule decode_unknown(3)) (auto simp: encode_fp_madd_def rbind_eq_Inr field_bits)

lemma fcsel_refused:
  assumes "encode_fcsel sz cond rm rn rd = Inr w"
  shows "decode w = Inl (Unsupported w)"
proof -
  define c where "c = cond AND 0xF"
  have c: "c < 2 ^ 4" unfolding c_def using masked_less[of 4 cond] by (simp add: mask_eq_exp_minus_1)
  show ?thesis using assms unfolding encode_fcsel_def rbind_eq_Inr c_def[symmetric]
    by (cases sz; intro decode_unknown_fp) (auto simp: bits_fits[OF c] bit_fits[OF c] field_bits)
qed

lemma umov_refused:
  assumes "encode_umov_general elem lane rn rd = Inr w"
  shows "decode w = Inl (Unsupported w)"
proof -
  define l where "l = lane_imm5 elem lane"
  have "\<not> 31 < l" using assms by (auto simp: encode_umov_general_def rbind_eq_Inr Let_def l_def)
  then have l: "l < 2 ^ 5" by (simp add: word_less_nat_alt)
  show ?thesis using assms unfolding encode_umov_general_def rbind_eq_Inr Let_def if_Inl_Inr l_def[symmetric]
    by (cases "elem = LaneD"; intro decode_unknown(4)) (auto simp: bits_fits[OF l] bit_fits[OF l] field_bits)
qed

text \<open>C22. The formats that only the encoders know (multiply-add, conditional select on floating point, lane extraction, bit
  reversal and register extraction) are refused by the decoder as unsupported, never read as another instruction.\<close>

theorem unknown_formats_refused:
  assumes "encode_fp_madd sz mop rm ra rn rd = Inr w \<or> encode_fcsel sz cond rm rn rd = Inr w
      \<or> encode_umov_general elem lane rn rd = Inr w
      \<or> w = encode_bit_reverse sf n d \<and> sf < 2 \<and> n < 32 \<and> d < 32
      \<or> w = encode_extract sf no m imms n d \<and> sf < 2 \<and> no < 2 \<and> m < 32 \<and> imms < 64 \<and> n < 32 \<and> d < 32"
  shows "decode w = Inl (Unsupported w)"
  using assms by (auto dest: fp_madd_refused fcsel_refused umov_refused simp: bit_reverse_refused extract_refused)

theorem unknown_formats_refused_witness:
  "decode (encode_extract 1 1 2 16 3 4) = Inl (Unsupported (encode_extract 1 1 2 16 3 4))"
  using unknown_formats_refused[where w = "encode_extract 1 1 2 16 3 4" and sf = 1 and no = 1 and m = 2 and imms = 16 and n = 3 and d = 4]
  by simp

end
