(* ===== verification/Spec2Isabelle.thy ===== *)
theory Spec2Isabelle
  imports Smt_Flat_Correct Smt_Compiled Sat_Provenance A64_Arith A64_Encoders
begin

text \<open>
  A verification library for the \<open>trust-cg\<close> compiler.
\<close>

end
